(* ===== verification/Prelude.thy ===== *)
theory Prelude
  imports Main
begin

text \<open>
  Shared vocabulary of the development: Go's early-return error style as values of a sum
  type, the batch loop that stops at the first error, order-preserving deduplication, the
  byte-string helpers of Go's \<open>strings\<close> package that the program uses, 64-bit
  integers, and message texts.  The collection \<open>result_simps\<close> inverts a successful
  result (which checks passed, which value was bound); \<open>go_defs\<close> collects the helper
  definitions that a witness unfolds to evaluate.
\<close>

named_theorems result_simps
named_theorems go_defs

section \<open>Results\<close>

text \<open>A fallible Go function returns \<open>Inl err\<close> or \<open>Inr value\<close>.\<close>

type_synonym ('e, 'a) result = "'e + 'a"

fun try_bind :: "('e, 'a) result \<Rightarrow> ('a \<Rightarrow> ('e, 'b) result) \<Rightarrow> ('e, 'b) result" where
  "try_bind (Inl e) f = Inl e"
| "try_bind (Inr x) f = f x"

definition ensure :: "bool \<Rightarrow> 'e \<Rightarrow> ('e, unit) result" where
  "ensure b e = (if b then Inr () else Inl e)"

lemma try_bind_Inr_iff [result_simps]:
  "try_bind m f = Inr y \<longleftrightarrow> (\<exists>x. m = Inr x \<and> f x = Inr y)"
  by (cases m) auto

lemma try_bind_Inl_iff [result_simps]:
  "try_bind m f = Inl e \<longleftrightarrow> m = Inl e \<or> (\<exists>x. m = Inr x \<and> f x = Inl e)"
  by (cases m) auto

lemma ensure_Inr_iff [result_simps]: "ensure b e = Inr u \<longleftrightarrow> b"
  by (simp add: ensure_def)

lemma ensure_Inl_iff [result_simps]: "ensure b e = Inl e' \<longleftrightarrow> \<not> b \<and> e' = e"
  by (auto simp: ensure_def)

lemma ensure_True [simp]: "ensure True e = Inr ()"
  by (simp add: ensure_def)

lemma ensure_False [simp]: "ensure False e = Inl e"
  by (simp add: ensure_def)

lemma if_Inl_eq_Inr [result_simps]:
  "((if b then Inl e else m) = Inr x) \<longleftrightarrow> \<not> b \<and> m = Inr x"
  by simp

text \<open>
  The loop \<open>for _, x := range xs { y, err := f(x); if err != nil { return err };
  out = append(out, y) }\<close>.
\<close>

fun collect :: "('a \<Rightarrow> ('e, 'b) result) \<Rightarrow> 'a list \<Rightarrow> ('e, 'b list) result" where
  "collect f [] = Inr []"
| "collect f (x # xs) =
     (case f x of Inl e \<Rightarrow> Inl e
      | Inr y \<Rightarrow> (case collect f xs of Inl e \<Rightarrow> Inl e | Inr ys \<Rightarrow> Inr (y # ys)))"

lemma collect_Inr_iff [result_simps]:
  "collect f xs = Inr ys \<longleftrightarrow> list_all2 (\<lambda>x y. f x = Inr y) xs ys"
proof (induction xs arbitrary: ys)
  case Nil
  then show ?case by (simp add: eq_commute)
next
  case (Cons x xs)
  show ?case
    by (cases ys; cases "f x"; cases "collect f xs") (auto simp flip: Cons.IH)
qed

lemma collect_length: "collect f xs = Inr ys \<Longrightarrow> length ys = length xs"
  by (auto simp: collect_Inr_iff dest: list_all2_lengthD)

lemma collect_Inl_iff:
  "collect f xs = Inl e \<longleftrightarrow>
   (\<exists>us x vs. xs = us @ x # vs \<and> f x = Inl e \<and> (\<forall>u \<in> set us. \<exists>y. f u = Inr y))"
proof (induction xs)
  case Nil
  then show ?case by simp
next
  case (Cons a xs)
  show ?case
  proof (cases "f a")
    case (Inl d)
    then show ?thesis by (fastforce simp: Cons_eq_append_conv)
  next
    case (Inr b)
    then have step: "collect f (a # xs) = Inl e \<longleftrightarrow> collect f xs = Inl e"
      by (auto split: sum.splits)
    have "(\<exists>x vs. a # xs = us @ x # vs \<and> f x = Inl e \<and> (\<forall>u \<in> set us. \<exists>y. f u = Inr y))
            \<longleftrightarrow> (\<exists>us' x vs. us = a # us' \<and> xs = us' @ x # vs \<and> f x = Inl e
                  \<and> (\<forall>u \<in> set us'. \<exists>y. f u = Inr y))" for us
      using Inr by (cases us) auto
    then show ?thesis by (subst step) (auto simp: Cons.IH)
  qed
qed

lemma collect_set:
  "collect f xs = Inr ys \<Longrightarrow> y \<in> set ys \<Longrightarrow> \<exists>x \<in> set xs. f x = Inr y"
  by (induction xs arbitrary: ys) (auto split: sum.splits)

text \<open>A loop that only checks: the first failing row's error, or success.\<close>

fun check_all :: "('a \<Rightarrow> 'e option) \<Rightarrow> 'a list \<Rightarrow> 'e option" where
  "check_all f [] = None"
| "check_all f (x # xs) = (case f x of Some e \<Rightarrow> Some e | None \<Rightarrow> check_all f xs)"

lemma check_all_None_iff [result_simps]:
  "check_all f xs = None \<longleftrightarrow> (\<forall>x \<in> set xs. f x = None)"
  by (induction xs) (auto split: option.splits)

lemma check_all_Some_iff:
  "check_all f xs = Some e \<longleftrightarrow>
   (\<exists>us x vs. xs = us @ x # vs \<and> f x = Some e \<and> (\<forall>u \<in> set us. f u = None))"
proof (induction xs)
  case Nil
  then show ?case by simp
next
  case (Cons a xs)
  have "(\<exists>x vs. a # xs = us @ x # vs \<and> f x = Some e \<and> (\<forall>u \<in> set us. f u = None))
          \<longleftrightarrow> us = [] \<and> f a = Some e
            \<or> (\<exists>us' x vs. us = a # us' \<and> f a = None \<and> xs = us' @ x # vs \<and> f x = Some e
                  \<and> (\<forall>u \<in> set us'. f u = None))" for us
    by (cases us) auto
  then show ?case
    using Cons.IH by (cases "f a") auto
qed

section \<open>Searching lists\<close>

lemma find_append: "find P (xs @ ys) = (case find P xs of None \<Rightarrow> find P ys | Some x \<Rightarrow> Some x)"
  by (induction xs) auto

lemma find_SomeD: "find P xs = Some x \<Longrightarrow> x \<in> set xs \<and> P x"
  by (induction xs) (auto split: if_splits)

section \<open>Order-preserving deduplication\<close>

text \<open>
  The idiom \<open>if !seen[s] { seen[s] = true; out = append(out, s) }\<close>, with the set of
  strings seen so far as an argument.
\<close>

fun dedupe_from :: "'a list \<Rightarrow> 'a list \<Rightarrow> 'a list" where
  "dedupe_from seen [] = []"
| "dedupe_from seen (x # xs) =
     (if x \<in> set seen then dedupe_from seen xs else x # dedupe_from (x # seen) xs)"

lemma set_dedupe_from: "set (dedupe_from seen xs) = set xs - set seen"
  by (induction seen xs rule: dedupe_from.induct) auto

lemma distinct_dedupe_from: "distinct (dedupe_from seen xs)"
  by (induction seen xs rule: dedupe_from.induct) (auto simp: set_dedupe_from)

lemma dedupe_from_cong: "set s1 = set s2 \<Longrightarrow> dedupe_from s1 xs = dedupe_from s2 xs"
proof (induction xs arbitrary: s1 s2)
  case Nil
  then show ?case by simp
next
  case (Cons x xs)
  from Cons.prems have "x \<in> set s1 \<longleftrightarrow> x \<in> set s2" and "set (x # s1) = set (x # s2)"
    by simp_all
  with Cons.IH [of s1 s2] Cons.IH [of "x # s1" "x # s2"] Cons.prems show ?case
    by (simp only: dedupe_from.simps)
qed

lemma dedupe_from_append:
  "dedupe_from seen (xs @ ys) = dedupe_from seen xs @ dedupe_from (rev xs @ seen) ys"
proof (induction seen xs rule: dedupe_from.induct)
  case (1 seen)
  then show ?case by simp
next
  case (2 seen x xs)
  then show ?case
    by (auto intro: dedupe_from_cong)
qed

lemma length_dedupe_from: "length (dedupe_from seen xs) \<le> length xs"
  by (induction seen xs rule: dedupe_from.induct) auto

lemma dedupe_from_id: "distinct xs \<Longrightarrow> set xs \<inter> set seen = {} \<Longrightarrow> dedupe_from seen xs = xs"
  by (induction seen xs rule: dedupe_from.induct) auto

section \<open>Byte strings\<close>

text \<open>Go strings are byte sequences; \<open>len\<close> counts bytes.\<close>

abbreviation ord :: "char \<Rightarrow> nat" where
  "ord c \<equiv> of_char c"

definition has_prefix :: "string \<Rightarrow> string \<Rightarrow> bool" where
  "has_prefix s p = (take (length p) s = p)"

definition has_suffix :: "string \<Rightarrow> string \<Rightarrow> bool" where
  "has_suffix s p = has_prefix (rev s) (rev p)"

lemma has_prefix_append [simp]: "has_prefix (p @ s) p"
  by (simp add: has_prefix_def)

lemma has_prefix_iff: "has_prefix s p \<longleftrightarrow> (\<exists>r. s = p @ r)"
  by (metis append_take_drop_id append_eq_conv_conj has_prefix_def)

lemma has_prefix_self [simp]: "has_prefix p p"
  by (simp add: has_prefix_def)

definition trim_prefix :: "string \<Rightarrow> string \<Rightarrow> string" where
  "trim_prefix s p = (if has_prefix s p then drop (length p) s else s)"

lemma trim_prefix_append [simp]: "trim_prefix (p @ s) p = s"
  by (simp add: trim_prefix_def)

text \<open>
  \<open>strings.LastIndexByte\<close> followed by slicing around the index: the part before the
  last occurrence and the part after it.
\<close>

fun split_last :: "char \<Rightarrow> string \<Rightarrow> (string \<times> string) option" where
  "split_last c [] = None"
| "split_last c (x # xs) =
     (case split_last c xs of
        Some (a, b) \<Rightarrow> Some (x # a, b)
      | None \<Rightarrow> if x = c then Some ([], xs) else None)"

lemma split_last_None_iff: "split_last c s = None \<longleftrightarrow> c \<notin> set s"
  by (induction s) (auto split: option.splits)

lemma split_last_append: "c \<notin> set b \<Longrightarrow> split_last c (a @ c # b) = Some (a, b)"
proof (induction a)
  case Nil
  then have "split_last c b = None" by (simp add: split_last_None_iff)
  then show ?case by simp
next
  case (Cons x a)
  then show ?case by simp
qed

lemma split_last_SomeD: "split_last c s = Some (a, b) \<Longrightarrow> s = a @ c # b \<and> c \<notin> set b"
proof (induction s arbitrary: a b)
  case Nil
  then show ?case by simp
next
  case (Cons x s)
  show ?case
  proof (cases "split_last c s")
    case None
    then have "c \<notin> set s" by (simp add: split_last_None_iff)
    with None Cons.prems show ?thesis by (auto split: if_splits)
  next
    case (Some p)
    then obtain a' b' where p: "split_last c s = Some (a', b')" by (cases p) auto
    from Cons.IH [OF p] p Cons.prems show ?thesis by auto
  qed
qed

lemma split_last_Some_iff: "split_last c s = Some (a, b) \<longleftrightarrow> s = a @ c # b \<and> c \<notin> set b"
  using split_last_append split_last_SomeD by blast

definition ascii_upper :: "char \<Rightarrow> bool" where
  "ascii_upper c = (65 \<le> (of_char c :: nat) \<and> (of_char c :: nat) \<le> 90)"

definition ascii_lower :: "char \<Rightarrow> bool" where
  "ascii_lower c = (97 \<le> (of_char c :: nat) \<and> (of_char c :: nat) \<le> 122)"

definition ascii_digit :: "char \<Rightarrow> bool" where
  "ascii_digit c = (48 \<le> (of_char c :: nat) \<and> (of_char c :: nat) \<le> 57)"

declare ascii_upper_def [go_defs] ascii_lower_def [go_defs] ascii_digit_def [go_defs]
  has_prefix_def [go_defs] has_suffix_def [go_defs] trim_prefix_def [go_defs]

section \<open>64-bit integers\<close>

text \<open>Go's \<open>int\<close> and \<open>int64\<close>: values of \<open>int\<close> in two's-complement range;
  \<open>wrap64\<close> is the wrap-around of an arithmetic result.\<close>

definition in_int64 :: "int \<Rightarrow> bool" where
  "in_int64 x = (- (2 ^ 63) \<le> x \<and> x < 2 ^ 63)"

definition wrap64 :: "int \<Rightarrow> int" where
  "wrap64 x = (x + 2 ^ 63) mod 2 ^ 64 - 2 ^ 63"

lemma wrap64_id: "in_int64 x \<Longrightarrow> wrap64 x = x"
  by (simp add: in_int64_def wrap64_def)

lemma in_int64_wrap64: "in_int64 (wrap64 x)"
proof -
  have "0 \<le> (x + 2 ^ 63) mod 2 ^ 64" "(x + 2 ^ 63) mod 2 ^ 64 < 2 ^ 64"
    by simp_all
  then show ?thesis by (simp add: in_int64_def wrap64_def)
qed

section \<open>Message texts\<close>

text \<open>
  The texts that \<open>fmt.Sprintf\<close> builds, kept as the list of their parts: literal text or
  a \<open>%s\<close> string, a \<open>%q\<close> string, a \<open>%d\<close> number, a \<open>%t\<close> truth value, the text
  of an error that a named package of the standard library returned.  How a
  part is rendered as bytes (quoting, decimal digits) is not modelled; which parts appear, and
  in which order, is.
\<close>

datatype part = Lit string | Quoted string | Num int | Truth bool | Cause string

type_synonym message = "part list"

text \<open>\<open>fmt.Errorf("PREFIX%w", err)\<close>\<close>

definition wrap_error :: "string \<Rightarrow> (message, 'a) result \<Rightarrow> (message, 'a) result" where
  "wrap_error prefix m = (case m of Inl e \<Rightarrow> Inl (Lit prefix # e) | Inr x \<Rightarrow> Inr x)"

lemma wrap_error_Inr_iff [result_simps]: "wrap_error prefix m = Inr x \<longleftrightarrow> m = Inr x"
  by (simp add: wrap_error_def split: sum.split)

end
