(* ===== verification/GoFloat.thy ===== *)
theory GoFloat
  imports Prelude Complex_Main
begin

text \<open>
  Go's \<open>float64\<close>: IEEE 754 binary64 with round to nearest, ties to even.  A finite value
  is the rational it denotes (the sign of zero is not kept: the program never observes it), and
  every operation is the exact rational operation followed by \<open>f64_of_rat\<close>, the rounding
  to 53 significant bits and exponents from -1074.  All definitions compute.

  Results: the error of a rounding (\<open>rne_value_error\<close>), the exactness of values that fit 53
  bits (\<open>f64_of_rat_exact\<close>), and \<open>math.Round\<close> of a quotient of integers being the
  integer quotient rounded half up (\<open>round_div_exact\<close>).
\<close>

datatype f64 = NaN | PInf | NInf | Fin rat

section \<open>Rounding a rational to binary64\<close>

fun bit_length :: "nat \<Rightarrow> nat" where
  "bit_length n = (if n = 0 then 0 else Suc (bit_length (n div 2)))"

declare bit_length.simps [simp del]

lemma bit_length_0 [simp]: "bit_length 0 = 0"
  by (simp add: bit_length.simps)

lemma bit_length_pos: "0 < n \<Longrightarrow> 0 < bit_length n"
  by (subst bit_length.simps) simp

lemma bit_length_bounds: "0 < n \<Longrightarrow> 2 ^ (bit_length n - 1) \<le> n \<and> n < 2 ^ bit_length n"
proof (induction n rule: bit_length.induct)
  case (1 n)
  show ?case
  proof (cases "n div 2 = 0")
    case True
    with "1.prems" have "n = 1" by auto
    then show ?thesis by (simp add: bit_length.simps)
  next
    case False
    let ?b = "bit_length (n div 2)"
    from "1.IH" "1.prems" False have ih: "2 ^ (?b - 1) \<le> n div 2" "n div 2 < 2 ^ ?b" by auto
    from False have "0 < ?b" by (simp add: bit_length_pos)
    then have "(2::nat) ^ ?b = 2 * 2 ^ (?b - 1)" by (metis power_eq_if neq0_conv)
    with ih have "2 ^ ?b \<le> n" "n < 2 * 2 ^ ?b" by linarith+
    moreover have "bit_length n = Suc ?b" using "1.prems" by (subst bit_length.simps) simp
    ultimately show ?thesis by simp
  qed
qed

text \<open>The exponent of a positive rational: \<open>2 powi e \<le> x < 2 powi (e + 1)\<close>.\<close>

definition exponent_of :: "rat \<Rightarrow> int" where
  "exponent_of x =
     (let (n, d) = quotient_of x; k = int (bit_length (nat n)) - int (bit_length (nat d))
      in if 2 powi k \<le> x then k else k - 1)"

lemma powi2_pos [simp]: "0 < (2::rat) powi k"
  by (simp add: zero_less_power_int)

lemma bit_length_powi:
  assumes "0 < (i::int)"
  shows "2 powi (int (bit_length (nat i)) - 1) \<le> (of_int i :: rat)"
    and "(of_int i :: rat) < 2 powi int (bit_length (nat i))"
proof -
  let ?b = "bit_length (nat i)"
  from assms have b: "2 ^ (?b - 1) \<le> nat i" "nat i < 2 ^ ?b" and "0 < ?b"
    using bit_length_bounds [of "nat i"] bit_length_pos by auto
  from b(1) have "(2::int) ^ (?b - 1) \<le> i" using assms by (simp add: le_nat_iff)
  then have "(of_int (2 ^ (?b - 1)) :: rat) \<le> of_int i" by (subst of_int_le_iff)
  moreover have "(2::rat) powi (int ?b - 1) = 2 ^ (?b - 1)"
    using \<open>0 < ?b\<close> by (metis Suc_leI int_ops(2) int_ops(6) linorder_not_le of_nat_diff One_nat_def power_int_of_nat)
  ultimately show "2 powi (int ?b - 1) \<le> (of_int i :: rat)" by simp
  from b(2) have "i < (2::int) ^ ?b" using assms by (simp add: nat_less_iff)
  then have "(of_int i :: rat) < of_int (2 ^ ?b)" by (subst of_int_less_iff)
  then show "(of_int i :: rat) < 2 powi int ?b" by simp
qed

lemma exponent_of_bounds:
  assumes "0 < x"
  shows "2 powi exponent_of x \<le> x" and "x < 2 powi (exponent_of x + 1)"
proof -
  obtain n d where q: "quotient_of x = (n, d)" by (cases "quotient_of x")
  then have d: "0 < d" by (rule quotient_of_denom_pos)
  have x: "x = of_int n / of_int d" by (rule quotient_of_div) (rule q)
  with assms d have n: "0 < n" by (simp add: zero_less_divide_iff)
  define a b where "a = int (bit_length (nat n))" and "b = int (bit_length (nat d))"
  have nb: "2 powi (a - 1) \<le> (of_int n :: rat)" "(of_int n :: rat) < 2 powi a"
    using bit_length_powi [OF n] by (simp_all add: a_def)
  have db: "2 powi (b - 1) \<le> (of_int d :: rat)" "(of_int d :: rat) < 2 powi b"
    using bit_length_powi [OF d] by (simp_all add: b_def)
  have "x < 2 powi a / 2 powi (b - 1)"
  proof -
    have "0 \<le> (of_int n :: rat)" using n by simp
    then show ?thesis unfolding x by (rule frac_less) (use nb db in simp_all)
  qed
  also have "\<dots> = 2 powi (a - b + 1)"
    by (simp add: power_int_diff power_int_add_1)
  finally have up: "x < 2 powi (a - b + 1)" .
  have "2 powi (a - 1) / 2 powi b \<le> x"
  proof -
    have "0 \<le> (of_int n :: rat)" "0 < (of_int d :: rat)" using n d by simp_all
    then show ?thesis unfolding x by (intro frac_le) (use nb db in simp_all)
  qed
  moreover have "(2::rat) powi (a - 1) / 2 powi b = 2 powi (a - b - 1)"
    by (simp add: power_int_diff)
  ultimately have lo: "2 powi (a - b - 1) \<le> x" by simp
  have e: "exponent_of x = (if 2 powi (a - b) \<le> x then a - b else a - b - 1)"
    by (simp add: exponent_of_def q a_def b_def)
  show "2 powi exponent_of x \<le> x" using lo by (simp add: e)
  show "x < 2 powi (exponent_of x + 1)" using up by (simp add: e)
qed

definition emin :: int where
  "emin = - 1074"

definition ulp_exp :: "rat \<Rightarrow> int" where
  "ulp_exp x = max (exponent_of x - 52) emin"

definition round_even :: "rat \<Rightarrow> int" where
  "round_even y =
     (let f = \<lfloor>y\<rfloor>; r = y - of_int f
      in if r < 1 / 2 then f else if 1 / 2 < r then f + 1 else if even f then f else f + 1)"

text \<open>The rounded magnitude of a positive rational, before the overflow check.\<close>

definition rne_value :: "rat \<Rightarrow> rat" where
  "rne_value x = of_int (round_even (x / 2 powi ulp_exp x)) * 2 powi ulp_exp x"

definition f64_of_rat :: "rat \<Rightarrow> f64" where
  "f64_of_rat x =
     (if x = 0 then Fin 0
      else let v = rne_value \<bar>x\<bar>
           in if 2 ^ 1024 \<le> v then (if 0 < x then PInf else NInf)
              else Fin (if 0 < x then v else - v))"

lemma round_even_error: "\<bar>of_int (round_even y) - y\<bar> \<le> 1 / 2"
proof -
  have "of_int \<lfloor>y\<rfloor> \<le> y" "y < of_int \<lfloor>y\<rfloor> + 1" by linarith+
  then show ?thesis unfolding round_even_def Let_def by (auto simp: abs_le_iff)
qed

lemma round_even_near: "of_int k - 1 / 2 < y \<Longrightarrow> y < of_int k + 1 / 2 \<Longrightarrow> round_even y = k"
proof -
  assume "of_int k - 1 / 2 < y" "y < of_int k + 1 / 2"
  moreover have "\<bar>of_int (round_even y) - y\<bar> \<le> 1 / 2" by (rule round_even_error)
  ultimately have "\<bar>of_int (round_even y) - of_int k\<bar> < (1 :: rat)" by linarith
  then have "\<bar>of_int (round_even y - k)\<bar> < (1 :: rat)" by simp
  then show ?thesis by linarith
qed

lemma round_even_of_int [simp]: "round_even (of_int k) = k"
  by (simp add: round_even_def)

lemma round_even_nonneg: "0 \<le> y \<Longrightarrow> 0 \<le> round_even y"
  by (auto simp: round_even_def Let_def)

lemma rne_value_nonneg: "0 < x \<Longrightarrow> 0 \<le> rne_value x"
  by (simp add: rne_value_def round_even_nonneg)

lemma rne_value_abs_error: "\<bar>rne_value x - x\<bar> \<le> 2 powi ulp_exp x / 2"
proof -
  let ?u = "2 powi ulp_exp x :: rat"
  have "\<bar>of_int (round_even (x / ?u)) - x / ?u\<bar> * ?u \<le> 1 / 2 * ?u"
    by (intro mult_right_mono round_even_error) (simp add: less_imp_le)
  moreover have "rne_value x - x = (of_int (round_even (x / ?u)) - x / ?u) * ?u"
    by (simp add: rne_value_def left_diff_distrib)
  ultimately show ?thesis by (simp add: abs_mult less_imp_le)
qed

section \<open>The subnormal grid and the relative error\<close>

text \<open>Every finite binary64 value is an integer multiple of \<open>2 powi -1074\<close>.\<close>

definition on_grid :: "rat \<Rightarrow> bool" where
  "on_grid x = (x / 2 powi emin \<in> \<int>)"

lemma on_grid_0 [simp]: "on_grid 0"
  by (simp add: on_grid_def)

lemma on_grid_add: "on_grid x \<Longrightarrow> on_grid y \<Longrightarrow> on_grid (x + y)"
  by (simp add: on_grid_def add_divide_distrib)

lemma on_grid_mult_int: "on_grid x \<Longrightarrow> on_grid (of_int k * x)"
proof -
  assume "on_grid x"
  then have "of_int k * (x / 2 powi emin) \<in> \<int>"
    unfolding on_grid_def by (intro Ints_mult Ints_of_int)
  then show ?thesis by (simp add: on_grid_def mult.assoc)
qed

lemma on_grid_powi: "emin \<le> p \<Longrightarrow> on_grid (of_int k * 2 powi p)"
proof -
  assume "emin \<le> p"
  then have "0 \<le> p - emin" by simp
  have "(2::rat) powi p / 2 powi emin = 2 powi (p - emin)"
    by (simp flip: power_int_diff)
  also have "\<dots> = of_int (2 ^ nat (p - emin))"
    using \<open>0 \<le> p - emin\<close> by (simp add: power_int_nonneg_exp)
  finally have "(2::rat) powi p / 2 powi emin = of_int (2 ^ nat (p - emin))" .
  then have "of_int k * 2 powi p / 2 powi emin = (of_int (k * 2 ^ nat (p - emin)) :: rat)"
    by (metis of_int_mult times_divide_eq_right)
  then show ?thesis by (metis Ints_of_int on_grid_def)
qed

lemma on_grid_rne_value: "on_grid (rne_value x)"
  unfolding rne_value_def by (rule on_grid_powi) (simp add: ulp_exp_def)

definition unit_roundoff :: rat where
  "unit_roundoff = 2 powi (- 53)"

lemma unit_roundoff_eq: "unit_roundoff = 1 / 9007199254740992"
  by (simp add: unit_roundoff_def)

lemma rne_value_error_normal:
  assumes "0 < x" and "ulp_exp x = exponent_of x - 52"
  shows "\<bar>rne_value x - x\<bar> \<le> x * unit_roundoff"
proof -
  have "(2::rat) powi (exponent_of x - 52) / 2 powi 1 = 2 powi (exponent_of x - 52 - 1)"
    by (rule power_int_diff [symmetric]) simp
  also have "exponent_of x - 52 - 1 = exponent_of x + (- 53)" by simp
  also have "(2::rat) powi (exponent_of x + (- 53)) = 2 powi (exponent_of x) * unit_roundoff"
    unfolding unit_roundoff_def by (rule power_int_add) simp
  also have "\<dots> \<le> x * unit_roundoff"
    using exponent_of_bounds(1) [OF assms(1)]
    by (intro mult_right_mono) (auto simp: unit_roundoff_def)
  finally show ?thesis using rne_value_abs_error [of x] assms(2) by simp
qed

lemma rne_value_error:
  assumes "0 < x" and "on_grid x"
  shows "\<bar>rne_value x - x\<bar> \<le> x * unit_roundoff"
proof (cases "ulp_exp x = exponent_of x - 52")
  case True
  with assms(1) show ?thesis by (rule rne_value_error_normal)
next
  case False
  then have e: "ulp_exp x = emin" by (simp add: ulp_exp_def max_def split: if_splits)
  from assms(2) obtain k where k: "x / 2 powi emin = of_int k"
    unfolding on_grid_def by (auto elim: Ints_cases)
  then have "rne_value x = of_int k * 2 powi emin"
    by (simp add: rne_value_def e)
  also have "\<dots> = x" using k by (metis eq_divide_eq less_numeral_extra(3) powi2_pos)
  finally show ?thesis using assms(1) by (simp add: unit_roundoff_def)
qed

lemma rne_value_error_large:
  assumes "2 powi (emin + 52) \<le> x"
  shows "\<bar>rne_value x - x\<bar> \<le> x * unit_roundoff"
proof -
  have x: "0 < x" using assms by (meson less_le_trans powi2_pos)
  have "(2::rat) powi (emin + 52) < 2 powi (exponent_of x + 1)"
    using assms exponent_of_bounds(2) [OF x] by linarith
  then have "emin + 52 < exponent_of x + 1"
    by (metis linorder_not_le one_le_numeral power_int_increasing zero_neq_numeral)
  then have "ulp_exp x = exponent_of x - 52" by (simp add: ulp_exp_def)
  with x show ?thesis by (rule rne_value_error_normal)
qed

section \<open>Exact values\<close>

lemma rne_value_exact:
  assumes "0 < x" and x: "x = of_int m * 2 powi j" and "\<bar>m\<bar> < 2 ^ 53" and "emin \<le> j"
  shows "rne_value x = x"
proof -
  let ?p = "ulp_exp x"
  have "?p \<le> j"
  proof (rule ccontr)
    assume "\<not> ?p \<le> j"
    with assms(4) have "j < exponent_of x - 52"
      by (auto simp: ulp_exp_def max_def split: if_splits)
    then have "(2::rat) powi (j + 53) \<le> 2 powi exponent_of x" by (intro power_int_increasing) auto
    also have "\<dots> \<le> of_int m * 2 powi j" using exponent_of_bounds(1) [OF assms(1)] x by simp
    finally have "(2 ^ 53 :: rat) * 2 powi j \<le> of_int m * 2 powi j"
      by (simp add: power_int_add mult.commute)
    then have "(2 ^ 53 :: rat) \<le> of_int m" by simp
    then have "(of_int (2 ^ 53) :: rat) \<le> of_int m" by simp
    then have "2 ^ 53 \<le> m" by (simp only: of_int_le_iff)
    with assms(3) show False by simp
  qed
  then have "x / 2 powi ?p = of_int m * 2 powi (j - ?p)"
    by (simp add: x power_int_diff)
  also have "\<dots> = of_int (m * 2 ^ nat (j - ?p))"
    using \<open>?p \<le> j\<close> by (simp add: power_int_nonneg_exp)
  finally have e: "x / 2 powi ?p = of_int (m * 2 ^ nat (j - ?p))" .
  then have "rne_value x = x / 2 powi ?p * 2 powi ?p"
    unfolding rne_value_def by (simp only: round_even_of_int)
  then show ?thesis by simp
qed

lemma f64_of_rat_0 [simp]: "f64_of_rat 0 = Fin 0"
  by (simp add: f64_of_rat_def)

lemma f64_of_rat_pos: "0 < x \<Longrightarrow> rne_value x < 2 ^ 1024 \<Longrightarrow> f64_of_rat x = Fin (rne_value x)"
  by (simp add: f64_of_rat_def Let_def)

lemma f64_of_rat_exact:
  assumes "x = of_int m * 2 powi j" and "\<bar>m\<bar> < 2 ^ 53" and "emin \<le> j" and "\<bar>x\<bar> < 2 ^ 1024"
  shows "f64_of_rat x = Fin x"
proof (cases "x = 0")
  case False
  then have "0 < \<bar>x\<bar>" by simp
  moreover have "\<bar>x\<bar> = of_int \<bar>m\<bar> * 2 powi j" by (simp add: assms(1) abs_mult less_imp_le)
  ultimately have "rne_value \<bar>x\<bar> = \<bar>x\<bar>"
    by (rule rne_value_exact) (use assms(2,3) in simp_all)
  with assms(4) False show ?thesis by (auto simp: f64_of_rat_def Let_def)
qed simp

lemma f64_of_rat_int: "\<bar>m\<bar> < 2 ^ 53 \<Longrightarrow> f64_of_rat (of_int m) = Fin (of_int m)"
proof -
  assume m: "\<bar>m\<bar> < 2 ^ 53"
  have "(of_int \<bar>m\<bar> :: rat) < of_int (2 ^ 53)" using m by (subst of_int_less_iff)
  then have "\<bar>of_int m\<bar> < (2 ^ 1024 :: rat)" by simp
  with m show ?thesis by (intro f64_of_rat_exact [where m = m and j = 0]) (auto simp: emin_def)
qed

section \<open>Monotonicity\<close>

lemma round_even_mono: "x \<le> y \<Longrightarrow> round_even x \<le> round_even y"
proof (cases "\<lfloor>x\<rfloor> = \<lfloor>y\<rfloor>")
  case True
  assume "x \<le> y"
  with True show ?thesis by (auto simp: round_even_def Let_def)
next
  case False
  assume "x \<le> y"
  then have "\<lfloor>x\<rfloor> \<le> \<lfloor>y\<rfloor>" by (rule floor_mono)
  with False have "\<lfloor>x\<rfloor> + 1 \<le> \<lfloor>y\<rfloor>" by simp
  moreover have "round_even x \<le> \<lfloor>x\<rfloor> + 1" "\<lfloor>y\<rfloor> \<le> round_even y"
    by (auto simp: round_even_def Let_def)
  ultimately show ?thesis by linarith
qed

lemma exponent_of_mono: "0 < x \<Longrightarrow> x \<le> y \<Longrightarrow> exponent_of x \<le> exponent_of y"
proof -
  assume x: "0 < x" and xy: "x \<le> y"
  have "(2::rat) powi exponent_of x < 2 powi (exponent_of y + 1)"
    using exponent_of_bounds(1) [OF x] exponent_of_bounds(2) [of y] x xy by linarith
  then have "exponent_of x < exponent_of y + 1"
    by (metis linorder_not_le one_le_numeral power_int_increasing zero_neq_numeral)
  then show ?thesis by simp
qed

lemma powi_nat_quotient: "i \<le> j \<Longrightarrow> (2::rat) powi j / 2 powi i = of_int (2 ^ nat (j - i))"
proof -
  assume "i \<le> j"
  have "(2::rat) powi j / 2 powi i = 2 powi (j - i)" by (simp flip: power_int_diff)
  also have "\<dots> = of_int (2 ^ nat (j - i))"
    using \<open>i \<le> j\<close> by (simp add: power_int_nonneg_exp)
  finally show ?thesis .
qed

lemma rne_value_le_powi: "x \<le> 2 powi j \<Longrightarrow> ulp_exp x \<le> j \<Longrightarrow> rne_value x \<le> 2 powi j"
proof -
  assume x: "x \<le> 2 powi j" and j: "ulp_exp x \<le> j"
  let ?u = "2 powi ulp_exp x :: rat"
  have "x / ?u \<le> 2 powi j / ?u" using x by (intro divide_right_mono) (simp_all add: less_imp_le)
  then have "round_even (x / ?u) \<le> 2 ^ nat (j - ulp_exp x)"
    using round_even_mono [of "x / ?u" "of_int (2 ^ nat (j - ulp_exp x))"]
    by (simp only: powi_nat_quotient [OF j] round_even_of_int)
  then have "(of_int (round_even (x / ?u)) :: rat) \<le> of_int (2 ^ nat (j - ulp_exp x))"
    by (simp only: of_int_le_iff)
  then have "of_int (round_even (x / ?u)) * ?u \<le> 2 powi j / ?u * ?u"
    unfolding powi_nat_quotient [OF j] by (intro mult_right_mono) (simp_all add: less_imp_le)
  then show ?thesis by (simp add: rne_value_def)
qed

lemma rne_value_ge_powi: "2 powi j \<le> x \<Longrightarrow> ulp_exp x \<le> j \<Longrightarrow> 2 powi j \<le> rne_value x"
proof -
  assume x: "2 powi j \<le> x" and j: "ulp_exp x \<le> j"
  let ?u = "2 powi ulp_exp x :: rat"
  have "2 powi j / ?u \<le> x / ?u" using x by (intro divide_right_mono) (simp_all add: less_imp_le)
  then have "2 ^ nat (j - ulp_exp x) \<le> round_even (x / ?u)"
    using round_even_mono [of "of_int (2 ^ nat (j - ulp_exp x))" "x / ?u"]
    by (simp only: powi_nat_quotient [OF j] round_even_of_int)
  then have "(of_int (2 ^ nat (j - ulp_exp x)) :: rat) \<le> of_int (round_even (x / ?u))"
    by (simp only: of_int_le_iff)
  then have "2 powi j / ?u * ?u \<le> of_int (round_even (x / ?u)) * ?u"
    unfolding powi_nat_quotient [OF j] by (intro mult_right_mono) (simp_all add: less_imp_le)
  then show ?thesis by (simp add: rne_value_def)
qed

lemma rne_value_mono:
  assumes "0 < x" and "x \<le> y"
  shows "rne_value x \<le> rne_value y"
proof (cases "ulp_exp x = ulp_exp y")
  case True
  let ?u = "2 powi ulp_exp y :: rat"
  have "x / ?u \<le> y / ?u" using assms(2) by (intro divide_right_mono) (simp_all add: less_imp_le)
  then have "(of_int (round_even (x / ?u)) :: rat) \<le> of_int (round_even (y / ?u))"
    by (simp add: round_even_mono)
  then show ?thesis unfolding rne_value_def True by (intro mult_right_mono) (simp_all add: less_imp_le)
next
  case False
  have e: "exponent_of x \<le> exponent_of y" using assms by (rule exponent_of_mono)
  with False have p: "ulp_exp y = exponent_of y - 52" "exponent_of x < exponent_of y"
      "ulp_exp x < ulp_exp y"
    by (auto simp: ulp_exp_def max_def split: if_splits)
  let ?g = "2 powi exponent_of y :: rat"
  have "x < 2 powi (exponent_of x + 1)" using assms(1) by (rule exponent_of_bounds)
  also have "\<dots> \<le> ?g" using p by (intro power_int_increasing) auto
  finally have "rne_value x \<le> ?g" using p by (intro rne_value_le_powi) auto
  moreover have "?g \<le> rne_value y"
    using assms p exponent_of_bounds(1) [of y] by (intro rne_value_ge_powi) auto
  ultimately show ?thesis by simp
qed

section \<open>Operations\<close>

fun f64_add :: "f64 \<Rightarrow> f64 \<Rightarrow> f64" where
  "f64_add NaN _ = NaN"
| "f64_add _ NaN = NaN"
| "f64_add PInf NInf = NaN"
| "f64_add NInf PInf = NaN"
| "f64_add PInf _ = PInf"
| "f64_add NInf _ = NInf"
| "f64_add _ PInf = PInf"
| "f64_add _ NInf = NInf"
| "f64_add (Fin a) (Fin b) = f64_of_rat (a + b)"

fun f64_mul :: "f64 \<Rightarrow> f64 \<Rightarrow> f64" where
  "f64_mul NaN _ = NaN"
| "f64_mul _ NaN = NaN"
| "f64_mul (Fin a) (Fin b) = f64_of_rat (a * b)"
| "f64_mul PInf (Fin b) = (if b = 0 then NaN else if 0 < b then PInf else NInf)"
| "f64_mul NInf (Fin b) = (if b = 0 then NaN else if 0 < b then NInf else PInf)"
| "f64_mul (Fin a) PInf = (if a = 0 then NaN else if 0 < a then PInf else NInf)"
| "f64_mul (Fin a) NInf = (if a = 0 then NaN else if 0 < a then NInf else PInf)"
| "f64_mul PInf PInf = PInf"
| "f64_mul NInf NInf = PInf"
| "f64_mul PInf NInf = NInf"
| "f64_mul NInf PInf = NInf"

text \<open>Division; a zero divisor is taken as positive zero, as the sign of zero is not kept.\<close>

fun f64_div :: "f64 \<Rightarrow> f64 \<Rightarrow> f64" where
  "f64_div NaN _ = NaN"
| "f64_div _ NaN = NaN"
| "f64_div (Fin a) (Fin b) =
     (if b = 0 then (if a = 0 then NaN else if 0 < a then PInf else NInf)
      else f64_of_rat (a / b))"
| "f64_div (Fin a) PInf = Fin 0"
| "f64_div (Fin a) NInf = Fin 0"
| "f64_div PInf (Fin b) = (if 0 \<le> b then PInf else NInf)"
| "f64_div NInf (Fin b) = (if 0 \<le> b then NInf else PInf)"
| "f64_div _ _ = NaN"

definition f64_of_int :: "int \<Rightarrow> f64" where
  "f64_of_int i = f64_of_rat (of_int i)"

fun f64_less :: "f64 \<Rightarrow> f64 \<Rightarrow> bool" where
  "f64_less (Fin a) (Fin b) = (a < b)"
| "f64_less (Fin a) PInf = True"
| "f64_less NInf (Fin b) = True"
| "f64_less NInf PInf = True"
| "f64_less _ _ = False"

text \<open>Go's \<open>==\<close>: a NaN differs from everything, itself included.\<close>

fun f64_eq :: "f64 \<Rightarrow> f64 \<Rightarrow> bool" where
  "f64_eq NaN _ = False"
| "f64_eq a b = (a = b)"

text \<open>\<open>math.Round\<close>: the nearest integer, halves away from zero.\<close>

definition round_half_away :: "rat \<Rightarrow> int" where
  "round_half_away q = (if 0 \<le> q then \<lfloor>q + 1 / 2\<rfloor> else - \<lfloor>- q + 1 / 2\<rfloor>)"

fun math_round :: "f64 \<Rightarrow> f64" where
  "math_round (Fin q) = Fin (of_int (round_half_away q))"
| "math_round x = x"

text \<open>
  The conversion \<open>int(x)\<close>: truncation towards zero.  For a NaN, an infinity or a value out
  of range Go leaves the result to the implementation; \<open>int_indefinite\<close> is the one of amd64.
\<close>

definition int_indefinite :: int where
  "int_indefinite = - (2 ^ 63)"

definition truncate_rat :: "rat \<Rightarrow> int" where
  "truncate_rat q = (if 0 \<le> q then \<lfloor>q\<rfloor> else - \<lfloor>- q\<rfloor>)"

fun int_of_f64 :: "f64 \<Rightarrow> int" where
  "int_of_f64 (Fin q) = (if in_int64 (truncate_rat q) then truncate_rat q else int_indefinite)"
| "int_of_f64 _ = int_indefinite"

text \<open>The finite values that binary64 can represent.\<close>

fun representable :: "f64 \<Rightarrow> bool" where
  "representable (Fin q) = (f64_of_rat q = Fin q)"
| "representable _ = True"

lemma representable_on_grid: "representable (Fin q) \<Longrightarrow> 0 < q \<Longrightarrow> on_grid q"
  by (auto simp: f64_of_rat_def Let_def split: if_splits) (metis on_grid_rne_value)

lemma truncate_rat_of_int [simp]: "truncate_rat (of_int k) = k"
proof -
  have "\<lfloor>- (of_int k :: rat)\<rfloor> = - k" by (metis floor_of_int of_int_minus)
  then show ?thesis by (simp add: truncate_rat_def)
qed

lemma round_half_away_0 [simp]: "round_half_away 0 = 0"
proof -
  have "\<lfloor>1 / 2 :: rat\<rfloor> = 0" by (rule floor_unique) simp_all
  then show ?thesis by (simp add: round_half_away_def)
qed

lemma int_of_math_round:
  "in_int64 (round_half_away q) \<Longrightarrow> int_of_f64 (math_round (Fin q)) = round_half_away q"
  by simp

text \<open>A rounding between two representable bounds stays between them.\<close>

lemma f64_of_rat_between:
  assumes "0 \<le> a" and "a \<le> x" and "x \<le> b" and "representable (Fin a)" and "representable (Fin b)"
  shows "\<exists>v. f64_of_rat x = Fin v \<and> a \<le> v \<and> v \<le> b"
proof (cases "x = 0")
  case True
  with assms show ?thesis by simp
next
  case False
  with assms have x: "0 < x" "0 < b" by auto
  have b: "rne_value b = b" "b < 2 ^ 1024"
    using assms(5) x(2) by (auto simp: f64_of_rat_def Let_def split: if_splits)
  have a: "a \<le> rne_value x"
  proof (cases "a = 0")
    case True
    then show ?thesis using rne_value_nonneg [OF x(1)] by simp
  next
    case False
    with assms(1) have "0 < a" by simp
    with assms(4) have "rne_value a = a" by (auto simp: f64_of_rat_def Let_def split: if_splits)
    with rne_value_mono [OF \<open>0 < a\<close> assms(2)] show ?thesis by simp
  qed
  have "rne_value x \<le> b" using rne_value_mono [OF x(1) assms(3)] b by simp
  with a b x show ?thesis by (intro exI [of _ "rne_value x"]) (simp add: f64_of_rat_pos)
qed

lemma representable_scaled:
  assumes "\<bar>m\<bar> < 2 ^ 53" and "k < 1000"
  shows "representable (Fin (of_int m / 2 ^ k))"
proof -
  have "(of_int \<bar>m\<bar> :: rat) < of_int (2 ^ 53)" using assms(1) by (subst of_int_less_iff)
  then have "\<bar>of_int m / 2 ^ k\<bar> < (2 ^ 1024 :: rat)"
  proof -
    assume m: "(of_int \<bar>m\<bar> :: rat) < of_int (2 ^ 53)"
    have "\<bar>of_int m / 2 ^ k\<bar> \<le> (\<bar>of_int m\<bar> / 1 :: rat)"
      unfolding abs_divide by (intro frac_le) simp_all
    also have "\<dots> < 2 ^ 1024" using m by simp
    finally show ?thesis .
  qed
  moreover have "of_int m / 2 ^ k = (of_int m * 2 powi (- int k) :: rat)"
    by (simp add: power_int_minus field_simps)
  ultimately show ?thesis using assms
    by (simp only: representable.simps)
      (rule f64_of_rat_exact [where m = m and j = "- int k"]; simp add: emin_def)
qed

lemma representable_int: "\<bar>m\<bar> < 2 ^ 53 \<Longrightarrow> representable (Fin (of_int m))"
  using representable_scaled [of m 0] by simp

lemma representable_simps [simp]:
  "representable (Fin 0)" "representable NaN" "representable PInf" "representable NInf"
  by simp_all

declare representable.simps [simp del]

section \<open>Rounded quotients of integers\<close>

lemma floor_half_quotient:
  assumes "0 < (n::int)"
  shows "\<lfloor>of_int s / of_int n + 1 / 2 :: rat\<rfloor> = (2 * s + n) div (2 * n)"
proof -
  have "of_int s / of_int n + 1 / 2 = (of_int (2 * s + n) / of_int (2 * n) :: rat)"
    using assms by (simp add: field_simps)
  then show ?thesis by (simp only: floor_divide_of_int_eq)
qed

lemma quotient_large:
  assumes "0 < s" and "0 < n" and "n < 2 ^ 40"
  shows "2 powi (emin + 52) \<le> (of_int s / of_int n :: rat)"
proof -
  have n: "(of_int n :: rat) < of_int (2 ^ 40)" using assms(3) by (subst of_int_less_iff)
  have "(2::rat) powi (emin + 52) \<le> 2 powi (- 40)"
    by (rule power_int_increasing) (simp_all add: emin_def)
  also have "\<dots> = 1 / 1099511627776" by simp
  also have "\<dots> \<le> of_int s / of_int n"
    using assms n by (intro frac_le) auto
  finally show ?thesis .
qed

text \<open>
  Rounding a quotient to binary64 and then to an integer gives the exactly rounded quotient: the
  rounding error is below half the distance to the next quotient, and the halves are exact.
\<close>

lemma round_div_exact:
  assumes "0 \<le> s" and "s < 2 ^ 52" and "0 < n" and "n < 2 ^ 40"
  shows "\<exists>v. f64_of_rat (of_int s / of_int n) = Fin v \<and> 0 \<le> v
           \<and> round_half_away v = (2 * s + n) div (2 * n)"
proof (cases "s = 0")
  case True
  then show ?thesis using assms by (intro exI [of _ 0]) simp
next
  case False
  define q :: rat where "q = of_int s / of_int n"
  define R where "R = (2 * s + n) div (2 * n)"
  have s: "0 < s" "(of_int s :: rat) < of_int (2 ^ 52)"
    using False assms by (simp, subst of_int_less_iff) simp
  have n: "1 \<le> (of_int n :: rat)" using assms(3) by simp
  have q0: "0 < q" using s assms(3) by (simp add: q_def)
  have R: "R = \<lfloor>q + 1 / 2\<rfloor>" using floor_half_quotient [OF assms(3), of s] by (simp add: R_def q_def)
  have err: "\<bar>rne_value q - q\<bar> \<le> q * unit_roundoff"
    by (rule rne_value_error_large) (use quotient_large [of s n] s assms in \<open>simp add: q_def\<close>)
  have gap: "q * unit_roundoff < 1 / (2 * of_int n)"
    using s n assms(3) by (simp add: q_def unit_roundoff_eq field_simps)
  define r where "r = (2 * s + n) mod (2 * n)"
  have dm: "2 * s + n = 2 * n * R + r" by (simp add: R_def r_def)
  have r: "0 \<le> r" "r < 2 * n" using assms(3) by (simp_all add: r_def)
  have "(of_int s :: rat) * 1 \<le> of_int s * of_int n" using s n by (intro mult_left_mono) simp_all
  then have "q \<le> of_int s" using assms(3) by (simp add: q_def divide_le_eq)
  with s have q52: "q < 2 ^ 52" by simp
  have "2 * s + n < 2 * n * (R + 1)" using dm r by (simp add: distrib_left)
  then have "2 * s + n + 1 \<le> 2 * n * (R + 1)" by simp
  then have "(of_int (2 * s + n + 1) :: rat) \<le> of_int (2 * n * (R + 1))" by (subst of_int_le_iff)
  then have up: "q + 1 / 2 + 1 / (2 * of_int n) \<le> of_int R + 1"
    using assms(3) by (simp add: q_def field_simps)
  have hi: "rne_value q + 1 / 2 < of_int R + 1" using up err gap by linarith
  have lo: "of_int R \<le> rne_value q + 1 / 2"
  proof (cases "q + 1 / 2 = of_int R")
    case True
    then have qR: "q = of_int (2 * R - 1) * 2 powi (- 1)" by simp
    have "\<bar>2 * R - 1\<bar> < 2 ^ 53"
    proof -
      from True q0 q52 have "(of_int R :: rat) < of_int (2 ^ 52 + 1)" "0 < (of_int R :: rat)" by simp_all
      then have "R < 2 ^ 52 + 1" "0 < R" by (simp_all only: of_int_less_iff of_int_0_less_iff)
      then show ?thesis by simp
    qed
    then have "rne_value q = q" by (rule rne_value_exact [OF q0 qR]) (simp add: emin_def)
    with True show ?thesis by simp
  next
    case False
    have "2 * n * R \<le> 2 * s + n" using dm r by simp
    moreover have "2 * n * R \<noteq> 2 * s + n"
    proof
      assume "2 * n * R = 2 * s + n"
      then have "(of_int (2 * n * R) :: rat) = of_int (2 * s + n)" by simp
      with False assms(3) show False by (simp add: q_def field_simps)
    qed
    ultimately have "2 * n * R + 1 \<le> 2 * s + n" by simp
    then have "(of_int (2 * n * R + 1) :: rat) \<le> of_int (2 * s + n)" by (subst of_int_le_iff)
    then have "(of_int (2 * n * R + 1) / of_int (2 * n) :: rat) \<le> of_int (2 * s + n) / of_int (2 * n)"
      using assms(3) by (intro divide_right_mono) simp_all
    then have "of_int R + 1 / (2 * of_int n) \<le> q + 1 / 2"
      using assms(3) by (simp add: q_def add_divide_distrib)
    with err gap show ?thesis by linarith
  qed
  have v0: "0 \<le> rne_value q" using q0 by (rule rne_value_nonneg)
  have "rne_value q < 2 ^ 1024"
  proof -
    note q52
    moreover have "q * unit_roundoff \<le> q * 1" using q0 by (intro mult_left_mono) (simp_all add: unit_roundoff_eq)
    ultimately show ?thesis using err by simp
  qed
  then have "f64_of_rat q = Fin (rne_value q)" using q0 by (intro f64_of_rat_pos)
  moreover have "round_half_away (rne_value q) = R"
    using v0 lo hi unfolding round_half_away_def by (simp add: floor_unique)
  ultimately show ?thesis using v0 by (auto simp: q_def R_def)
qed

end
