(* ===== verification/TrustDomain.thy ===== *)
theory TrustDomain
  imports Prelude GoFloat
begin

text \<open>
  The pure types of the program: \<open>internal/domain\<close> and the data of
  \<open>internal/port\<close>.  Go's open string types (\<open>Status\<close>, \<open>Dimension\<close>,
  \<open>SignalID\<close>, \<open>Attestation\<close>) stay strings with their constants and validity
  checks, since the code receives arbitrary strings at its boundaries; the closed output
  classification \<open>RecommendedProfile\<close> is a datatype.  Instants are nanoseconds of
  Unix time.
\<close>

type_synonym agent_id = string
type_synonym signal_id = string
type_synonym status = string
type_synonym dimension = string
type_synonym instant = int

section \<open>Agents\<close>

definition StatusActive :: status where "StatusActive = ''ACTIVE''"
definition StatusWarning :: status where "StatusWarning = ''WARNING''"
definition StatusDeprecated :: status where "StatusDeprecated = ''DEPRECATED''"
definition StatusExpired :: status where "StatusExpired = ''EXPIRED''"
definition StatusRevoked :: status where "StatusRevoked = ''REVOKED''"

lemmas status_defs [go_defs] =
  StatusActive_def StatusWarning_def StatusDeprecated_def StatusExpired_def StatusRevoked_def

definition status_valid :: "status \<Rightarrow> bool" where
  "status_valid s \<longleftrightarrow>
     s = StatusActive \<or> s = StatusWarning \<or> s = StatusDeprecated \<or> s = StatusExpired
     \<or> s = StatusRevoked"

record agent =
  a_id :: agent_id
  a_dns_name :: string
  a_display_name :: string
  a_description :: string
  a_provider :: string
  a_status :: status
  a_protocols :: "string list"
  a_transports :: "string list"
  a_tags :: "string list"
  a_capabilities :: "string list"
  a_first_seen :: instant
  a_last_updated :: instant

text \<open>Concrete data for the witnesses of the development.\<close>

definition example_agent :: agent where
  "example_agent =
     \<lparr>a_id = ''agent-1'', a_dns_name = ''ans://v1.0.0.booking.example.com'',
      a_display_name = ''Booking'', a_description = ''Books trips'', a_provider = ''p1'',
      a_status = ''ACTIVE'', a_protocols = [''A2A''], a_transports = [''HTTP''], a_tags = [],
      a_capabilities = [], a_first_seen = 0, a_last_updated = 0\<rparr>"

section \<open>Dimensions\<close>

definition DimensionIntegrity :: dimension where "DimensionIntegrity = ''integrity''"
definition DimensionIdentity :: dimension where "DimensionIdentity = ''identity''"
definition DimensionSolvency :: dimension where "DimensionSolvency = ''solvency''"
definition DimensionBehavior :: dimension where "DimensionBehavior = ''behavior''"
definition DimensionSafety :: dimension where "DimensionSafety = ''safety''"

lemmas dimension_defs [go_defs] =
  DimensionIntegrity_def DimensionIdentity_def DimensionSolvency_def DimensionBehavior_def
  DimensionSafety_def

definition all_dimensions :: "dimension list" where
  "all_dimensions =
     [DimensionIntegrity, DimensionIdentity, DimensionSolvency, DimensionBehavior, DimensionSafety]"

definition dimension_valid :: "dimension \<Rightarrow> bool" where
  "dimension_valid d \<longleftrightarrow> list_ex (\<lambda>known. d = known) all_dimensions"

lemma dimension_valid_iff: "dimension_valid d \<longleftrightarrow> d \<in> set all_dimensions"
  by (auto simp: dimension_valid_def list_ex_iff)

lemma distinct_all_dimensions: "distinct all_dimensions"
  by (simp add: all_dimensions_def dimension_defs)

lemma length_all_dimensions: "length all_dimensions = 5"
  by (simp add: all_dimensions_def)

section \<open>Signals and observations\<close>

datatype attestation = Unattested | TlAttested | CardAttested

fun attestation_string :: "attestation \<Rightarrow> string" where
  "attestation_string Unattested = ''unattested''"
| "attestation_string TlAttested = ''tl_attested''"
| "attestation_string CardAttested = ''card_attested''"

record provenance =
  p_aim_id :: string
  p_evidence_url :: string

record observation =
  o_agent :: agent_id
  o_signal :: signal_id
  o_observed_at :: instant
  o_value :: string
  o_provenance :: "provenance option"

definition example_observation :: "signal_id \<Rightarrow> string \<Rightarrow> observation" where
  "example_observation sid value =
     \<lparr>o_agent = ''agent-1'', o_signal = sid, o_observed_at = 0, o_value = value,
      o_provenance = None\<rparr>"

text \<open>What a signal reports (\<open>port.SignalResult\<close>).\<close>

record signal_result =
  r_raw :: int
  r_explanation :: message
  r_attestation :: attestation
  r_risks :: "string list"
  r_cap :: "int option"

text \<open>
  The plug-in interface \<open>port.Signal\<close>: a value of this record is one implementation.
  \<open>sig_absence\<close> is \<open>None\<close> when the implementation has no
  \<open>AbsenceInformative\<close> method.  The context argument, which only carries a deadline, is
  left out.
\<close>

record signal =
  sig_id :: signal_id
  sig_dimension :: dimension
  sig_derived :: bool
  sig_validate :: "string \<Rightarrow> message option"
  sig_evaluate :: "agent \<Rightarrow> observation option \<Rightarrow> (message, signal_result) result"
  sig_absence :: "bool option"

section \<open>Evaluations\<close>

datatype recommended_profile = Untrusted | ReadOnly | Transactional | Fiduciary

fun profile_string :: "recommended_profile \<Rightarrow> string" where
  "profile_string Untrusted = ''UNTRUSTED''"
| "profile_string ReadOnly = ''READ_ONLY''"
| "profile_string Transactional = ''TRANSACTIONAL''"
| "profile_string Fiduciary = ''FIDUCIARY''"

text \<open>The classifications, ordered by how much they entrust to the agent.\<close>

fun profile_rank :: "recommended_profile \<Rightarrow> nat" where
  "profile_rank Untrusted = 0"
| "profile_rank ReadOnly = 1"
| "profile_rank Transactional = 2"
| "profile_rank Fiduciary = 3"

lemma profile_rank_inject: "profile_rank p = profile_rank q \<longleftrightarrow> p = q"
  by (cases p; cases q) simp_all

instantiation recommended_profile :: linorder
begin

definition less_eq_recommended_profile :: "recommended_profile \<Rightarrow> recommended_profile \<Rightarrow> bool" where
  "p \<le> q \<longleftrightarrow> profile_rank p \<le> profile_rank q"

definition less_recommended_profile :: "recommended_profile \<Rightarrow> recommended_profile \<Rightarrow> bool" where
  "p < q \<longleftrightarrow> profile_rank p < profile_rank q"

instance
  by standard
    (auto simp: less_eq_recommended_profile_def less_recommended_profile_def profile_rank_inject)

end

datatype verification_tier = TierUnset | TierBronze | TierSilver | TierGold

fun tier_string :: "verification_tier \<Rightarrow> string" where
  "tier_string TierUnset = []"
| "tier_string TierBronze = ''BRONZE''"
| "tier_string TierSilver = ''SILVER''"
| "tier_string TierGold = ''GOLD''"

record trust_vector =
  tv_integrity :: int
  tv_identity :: int
  tv_solvency :: int
  tv_behavior :: int
  tv_safety :: int

record signal_score =
  s_signal :: signal_id
  s_dimension :: dimension
  s_raw :: int
  s_weight :: f64
  s_explanation :: message
  s_attestation :: attestation
  s_provenance :: "provenance option"

record dimension_score =
  d_dimension :: dimension
  d_score :: int
  d_signals :: "signal_score list"

record trust_evaluation =
  e_agent :: agent_id
  e_time :: instant
  e_vector :: trust_vector
  e_profile :: recommended_profile
  e_risks :: "string list"
  e_tier :: verification_tier
  e_dimensions :: "dimension_score list"
  e_scoring_profile :: string

text \<open>
  A scoring profile (\<open>domain.ScoringProfile\<close>): two maps; reading a missing key yields
  the zero weight.
\<close>

record scoring_profile =
  sp_name :: string
  sp_dimension_weights :: "dimension \<rightharpoonup> f64"
  sp_signal_weights :: "signal_id \<rightharpoonup> f64"

definition weight_of :: "('k \<rightharpoonup> f64) \<Rightarrow> 'k \<Rightarrow> f64" where
  "weight_of m k = (case m k of None \<Rightarrow> Fin 0 | Some w \<Rightarrow> w)"

text \<open>\<open>weight > 0\<close> as the code writes it; a NaN is not positive.\<close>

definition positive_weight :: "f64 \<Rightarrow> bool" where
  "positive_weight w = f64_less (Fin 0) w"

lemma positive_weight_simps [simp]:
  "positive_weight (Fin q) \<longleftrightarrow> 0 < q" "\<not> positive_weight NaN" "positive_weight PInf"
  "\<not> positive_weight NInf"
  by (simp_all add: positive_weight_def)

section \<open>Search requests and pages\<close>

record search_query =
  q_text :: string
  q_providers :: "string list"
  q_statuses :: "status list"
  q_domains :: "string list"
  q_protocols :: "string list"
  q_transports :: "string list"
  q_tags :: "string list"
  q_capabilities :: "string list"
  q_page :: int
  q_page_size :: int
  q_page_token :: string
  q_token_direction :: string
  q_total_required :: bool

record search_page =
  sp_items :: "agent list"
  sp_total_items :: int
  sp_total_pages :: int
  sp_prev_token :: string
  sp_next_token :: string

end
