(* ===== verification/GoJson.thy ===== *)
theory GoJson
  imports Prelude
begin

text \<open>
  The part of Go's \<open>encoding/json\<close>, \<open>unicode/utf8\<close> and \<open>strconv\<close> that the program
  uses: reading a JSON value from bytes (whitespace, escapes, surrogate pairs, replacement of
  invalid UTF-8, number syntax, the nesting limit), decoding a value into the fields of a struct
  (exact, then case-folded names; null leaves a field alone; a type mismatch is an error; strict
  decoding rejects unknown names), and writing values as \<open>json.Marshal\<close> does.  The main result
  is that reading undoes writing (\<open>unmarshal_marshal\<close>).
\<close>

section \<open>UTF-8\<close>

definition cont_byte :: "char \<Rightarrow> bool" where
  "cont_byte c = (128 \<le> ord c \<and> ord c \<le> 191)"

text \<open>The second byte allowed after a lead byte of a three- or four-byte sequence.\<close>

definition second_ok :: "char \<Rightarrow> char \<Rightarrow> bool" where
  "second_ok b0 b1 =
     (if ord b0 = 224 then 160 \<le> ord b1 \<and> ord b1 \<le> 191
      else if ord b0 = 237 then 128 \<le> ord b1 \<and> ord b1 \<le> 159
      else if ord b0 = 240 then 144 \<le> ord b1 \<and> ord b1 \<le> 191
      else if ord b0 = 244 then 128 \<le> ord b1 \<and> ord b1 \<le> 143
      else cont_byte b1)"

text \<open>
  The width of the UTF-8 sequence at the head of a string, 0 when there is none
  (\<open>utf8.DecodeRune\<close> then answers the replacement character and width 1).
\<close>

fun rune_width :: "string \<Rightarrow> nat" where
  "rune_width [] = 0"
| "rune_width (b0 # s) =
     (if ord b0 < 128 then 1
      else if ord b0 < 194 then 0
      else if ord b0 < 224 then
        (case s of b1 # _ \<Rightarrow> if cont_byte b1 then 2 else 0 | [] \<Rightarrow> 0)
      else if ord b0 < 240 then
        (case s of b1 # b2 # _ \<Rightarrow> if second_ok b0 b1 \<and> cont_byte b2 then 3 else 0 | _ \<Rightarrow> 0)
      else if ord b0 < 245 then
        (case s of b1 # b2 # b3 # _ \<Rightarrow>
           if second_ok b0 b1 \<and> cont_byte b2 \<and> cont_byte b3 then 4 else 0 | _ \<Rightarrow> 0)
      else 0)"

lemma rune_width_le: "rune_width s \<le> length s"
  by (cases s) (auto split: list.splits)

lemma rune_width_append: "0 < rune_width s \<Longrightarrow> rune_width (s @ r) = rune_width s"
  by (cases s) (auto split: list.splits if_splits)

definition replacement :: string where
  "replacement = [CHR 0xEF, CHR 0xBF, CHR 0xBD]"

text \<open>\<open>utf8.AppendRune\<close>: the encoding of a code point; surrogates become the replacement.\<close>

definition utf8_encode :: "nat \<Rightarrow> string" where
  "utf8_encode r =
     (if r < 128 then [char_of r]
      else if r < 2048 then [char_of (192 + r div 64), char_of (128 + r mod 64)]
      else if 55296 \<le> r \<and> r \<le> 57343 \<or> 1114111 < r then replacement
      else if r < 65536 then
        [char_of (224 + r div 4096), char_of (128 + r div 64 mod 64), char_of (128 + r mod 64)]
      else [char_of (240 + r div 262144), char_of (128 + r div 4096 mod 64),
            char_of (128 + r div 64 mod 64), char_of (128 + r mod 64)])"

function utf8_valid :: "string \<Rightarrow> bool" where
  "utf8_valid s =
     (if s = [] then True
      else if rune_width s = 0 then False else utf8_valid (drop (rune_width s) s))"
  by auto
termination
  by (relation "measure length") auto

declare utf8_valid.simps [simp del]

section \<open>Decimal integers\<close>

definition digit_value :: "char \<Rightarrow> int" where
  "digit_value c = int (ord c) - 48"

definition digits_value :: "string \<Rightarrow> int" where
  "digits_value ds = fold (\<lambda>c n. 10 * n + digit_value c) ds 0"

text \<open>\<open>strconv.Atoi\<close> and \<open>strconv.ParseInt(s, 10, 64)\<close>: an optional sign, at least one
  digit, nothing else, and a value of 64 bits.\<close>

definition atoi :: "string \<Rightarrow> int option" where
  "atoi s =
     (let (neg, ds) = (case s of c # r \<Rightarrow>
            if c = CHR ''-'' then (True, r) else if c = CHR ''+'' then (False, r) else (False, s)
          | [] \<Rightarrow> (False, s));
          n = (if neg then - digits_value ds else digits_value ds)
      in if ds \<noteq> [] \<and> list_all ascii_digit ds \<and> in_int64 n then Some n else None)"

lemma atoi_in_int64: "atoi s = Some n \<Longrightarrow> in_int64 n"
  by (auto simp: atoi_def Let_def split: prod.splits if_splits)

section \<open>Reading values\<close>

datatype json =
    JNull
  | JBool bool
  | JNum string
  | JStr string
  | JArr "json list"
  | JObj "(string \<times> json) list"

definition json_space :: "char \<Rightarrow> bool" where
  "json_space c = (ord c = 32 \<or> ord c = 9 \<or> ord c = 10 \<or> ord c = 13)"

definition skip_space :: "string \<Rightarrow> string" where
  "skip_space s = dropWhile json_space s"

lemma skip_space_length: "length (skip_space s) \<le> length s"
  by (simp add: skip_space_def length_dropWhile_le)

definition hex_value :: "char \<Rightarrow> nat option" where
  "hex_value c =
     (if ascii_digit c then Some (ord c - 48)
      else if 97 \<le> ord c \<and> ord c \<le> 102 then Some (ord c - 87)
      else if 65 \<le> ord c \<and> ord c \<le> 70 then Some (ord c - 55) else None)"

fun hex4 :: "string \<Rightarrow> (nat \<times> string) option" where
  "hex4 (a # b # c # d # r) =
     (case (hex_value a, hex_value b, hex_value c, hex_value d) of
        (Some w, Some x, Some y, Some z) \<Rightarrow> Some (4096 * w + 256 * x + 16 * y + z, r)
      | _ \<Rightarrow> None)"
| "hex4 _ = None"

lemma hex4_length: "hex4 s = Some (v, r) \<Longrightarrow> length s = length r + 4"
  by (cases s rule: hex4.cases) (auto split: option.splits prod.splits)

text \<open>A surrogate must pair with a following \<open>\u\<close> low surrogate, or is replaced.\<close>

definition unicode_escape :: "nat \<Rightarrow> string \<Rightarrow> string \<times> string" where
  "unicode_escape v r =
     (if 55296 \<le> v \<and> v \<le> 57343 then
        (case r of
           b # u # r2 \<Rightarrow>
             (if b = CHR 0x5C \<and> u = CHR ''u'' then
                (case hex4 r2 of
                   Some (v2, r3) \<Rightarrow>
                     (if v \<le> 56319 \<and> 56320 \<le> v2 \<and> v2 \<le> 57343
                      then (utf8_encode (65536 + (v - 55296) * 1024 + (v2 - 56320)), r3)
                      else (replacement, r))
                 | None \<Rightarrow> (replacement, r))
              else (replacement, r))
         | _ \<Rightarrow> (replacement, r))
      else (utf8_encode v, r))"

fun simple_escape :: "char \<Rightarrow> char option" where
  "simple_escape c =
     (if c = CHR 0x22 \<or> c = CHR 0x5C \<or> c = CHR ''/'' then Some c
      else if c = CHR ''b'' then Some (CHR 0x08)
      else if c = CHR ''f'' then Some (CHR 0x0C)
      else if c = CHR ''n'' then Some (CHR 0x0A)
      else if c = CHR ''r'' then Some (CHR 0x0D)
      else if c = CHR ''t'' then Some (CHR 0x09)
      else None)"

definition parse_escape :: "string \<Rightarrow> (string \<times> string) option" where
  "parse_escape s =
     (case s of
        [] \<Rightarrow> None
      | c # r \<Rightarrow>
          (if c = CHR ''u'' then map_option (\<lambda>(v, r'). unicode_escape v r') (hex4 r)
           else map_option (\<lambda>x. ([x], r)) (simple_escape c)))"

lemma unicode_escape_length: "length (snd (unicode_escape v r)) \<le> length r"
  by (auto simp: unicode_escape_def dest!: hex4_length split: list.splits option.splits)

lemma parse_escape_length: "parse_escape s = Some (bs, r) \<Longrightarrow> length r < length s"
proof -
  assume a: "parse_escape s = Some (bs, r)"
  then obtain c s' where s: "s = c # s'" by (cases s) (auto simp: parse_escape_def)
  show ?thesis
  proof (cases "c = CHR ''u''")
    case True
    with a s obtain v r' where h: "hex4 s' = Some (v, r')" and u: "unicode_escape v r' = (bs, r)"
      by (auto simp: parse_escape_def)
    from hex4_length [OF h] unicode_escape_length [of v r'] u s show ?thesis by simp
  next
    case False
    with a s show ?thesis by (auto simp: parse_escape_def simp del: simple_escape.simps)
  qed
qed

text \<open>
  The characters of a string literal after its opening quote: the unquoted bytes and the rest
  after the closing quote.
\<close>

function parse_chars :: "string \<Rightarrow> (string \<times> string) option" where
  "parse_chars s =
     (case s of
        [] \<Rightarrow> None
      | c # r \<Rightarrow>
          (if c = CHR 0x22 then Some ([], r)
           else if c = CHR 0x5C then
             (case parse_escape r of
                None \<Rightarrow> None
              | Some (bs, r') \<Rightarrow> map_option (apfst ((@) bs)) (parse_chars r'))
           else if ord c < 32 then None
           else if rune_width s = 0 then map_option (apfst ((@) replacement)) (parse_chars r)
           else map_option (apfst ((@) (take (rune_width s) s)))
                  (parse_chars (drop (rune_width s) s))))"
  by auto
termination
  by (relation "measure length")
    (auto dest: parse_escape_length split: if_splits simp: neq_Nil_conv)

declare parse_chars.simps [simp del]

lemma parse_chars_length: "parse_chars s = Some (bs, r) \<Longrightarrow> length r < length s"
proof (induction s arbitrary: bs r rule: parse_chars.induct)
  case (1 s)
  from "1.prems" obtain c s' where s: "s = c # s'"
    by (cases s) (auto simp: parse_chars.simps)
  have w: "rune_width s \<noteq> 0 \<Longrightarrow> length (drop (rune_width s) s) < length s" using s by simp
  from "1.prems" show ?case
    unfolding s parse_chars.simps [of "c # s'"]
    using "1.IH" [OF s] w s
    by (fastforce split: if_splits option.splits dest: parse_escape_length)
qed

definition parse_digits1 :: "string \<Rightarrow> (string \<times> string) option" where
  "parse_digits1 s =
     (let ds = takeWhile ascii_digit s in if ds = [] then None else Some (ds, dropWhile ascii_digit s))"

definition parse_int_part :: "string \<Rightarrow> (string \<times> string) option" where
  "parse_int_part s =
     (case s of
        [] \<Rightarrow> None
      | c # r \<Rightarrow> if c = CHR ''0'' then Some ([c], r) else parse_digits1 s)"

definition parse_frac_part :: "string \<Rightarrow> (string \<times> string) option" where
  "parse_frac_part s =
     (case s of
        c # r \<Rightarrow> if c = CHR ''.'' then map_option (apfst (Cons c)) (parse_digits1 r) else Some ([], s)
      | [] \<Rightarrow> Some ([], s))"

definition parse_exp_part :: "string \<Rightarrow> (string \<times> string) option" where
  "parse_exp_part s =
     (case s of
        c # r \<Rightarrow>
          if c = CHR ''e'' \<or> c = CHR ''E'' then
            (case r of
               d # r' \<Rightarrow> if d = CHR ''+'' \<or> d = CHR ''-''
                          then map_option (apfst (\<lambda>ds. c # d # ds)) (parse_digits1 r')
                          else map_option (apfst (Cons c)) (parse_digits1 r)
             | [] \<Rightarrow> None)
          else Some ([], s)
      | [] \<Rightarrow> Some ([], s))"

definition parse_number :: "string \<Rightarrow> (string \<times> string) option" where
  "parse_number s =
     (let (sign, s1) = (case s of c # r \<Rightarrow> if c = CHR ''-'' then ([c], r) else ([], s) | [] \<Rightarrow> ([], s))
      in case parse_int_part s1 of
           None \<Rightarrow> None
         | Some (i, s2) \<Rightarrow> (case parse_frac_part s2 of
             None \<Rightarrow> None
           | Some (f, s3) \<Rightarrow> (case parse_exp_part s3 of
               None \<Rightarrow> None
             | Some (e, s4) \<Rightarrow> Some (sign @ i @ f @ e, s4))))"

definition max_nesting :: nat where
  "max_nesting = 10000"

lemma skip_space_Cons_length: "skip_space s = c # r \<Longrightarrow> length r < length s"
  using skip_space_length [of s] by simp

text \<open>
  A value, the elements of an array after its opening bracket, the members of an object after its
  opening brace.  \<open>d\<close> is the number of containers already open.  The length tests in the
  two loops hold for every rest the value reader returns; they make the recursion well-founded.
\<close>

function parse_value :: "nat \<Rightarrow> string \<Rightarrow> (json \<times> string) option"
  and parse_elems :: "nat \<Rightarrow> string \<Rightarrow> (json list \<times> string) option"
  and parse_members :: "nat \<Rightarrow> string \<Rightarrow> ((string \<times> json) list \<times> string) option"
where
  "parse_value d s =
     (case skip_space s of
        [] \<Rightarrow> None
      | c # r \<Rightarrow>
          (if c = CHR 0x22 then map_option (apfst JStr) (parse_chars r)
           else if c = CHR ''{'' then
             (if max_nesting \<le> d then None
              else case skip_space r of
                     [] \<Rightarrow> None
                   | c2 # r2 \<Rightarrow>
                       if c2 = CHR ''}'' then Some (JObj [], r2)
                       else map_option (apfst JObj) (parse_members (Suc d) r))
           else if c = CHR ''['' then
             (if max_nesting \<le> d then None
              else case skip_space r of
                     [] \<Rightarrow> None
                   | c2 # r2 \<Rightarrow>
                       if c2 = CHR '']'' then Some (JArr [], r2)
                       else map_option (apfst JArr) (parse_elems (Suc d) r))
           else if has_prefix (c # r) ''true'' then Some (JBool True, drop 3 r)
           else if has_prefix (c # r) ''false'' then Some (JBool False, drop 4 r)
           else if has_prefix (c # r) ''null'' then Some (JNull, drop 3 r)
           else map_option (apfst JNum) (parse_number (c # r))))"
| "parse_elems d s =
     (case parse_value d s of
        None \<Rightarrow> None
      | Some (v, r) \<Rightarrow>
          (case skip_space r of
             [] \<Rightarrow> None
           | c # r2 \<Rightarrow>
               if length s < length r then None
               else if c = CHR '']'' then Some ([v], r2)
               else if c = CHR '','' then map_option (apfst (Cons v)) (parse_elems d r2)
               else None))"
| "parse_members d s =
     (case skip_space s of
        [] \<Rightarrow> None
      | q # r \<Rightarrow>
          if q \<noteq> CHR 0x22 then None
          else (case parse_chars r of
             None \<Rightarrow> None
           | Some (k, r1) \<Rightarrow>
               (case skip_space r1 of
                  [] \<Rightarrow> None
                | colon # r2 \<Rightarrow>
                    if colon \<noteq> CHR '':'' then None
                    else (case parse_value d r2 of
                       None \<Rightarrow> None
                     | Some (v, r3) \<Rightarrow>
                         (case skip_space r3 of
                            [] \<Rightarrow> None
                          | c # r4 \<Rightarrow>
                              if length s < length r3 then None
                              else if c = CHR ''}'' then Some ([(k, v)], r4)
                              else if c = CHR '','' then
                                map_option (apfst (Cons (k, v))) (parse_members d r4)
                              else None)))))"
  by pat_completeness auto

termination
proof (relation "measure (\<lambda>x. case x of Inl (d, s) \<Rightarrow> 2 * length s
         | Inr (Inl (d, s)) \<Rightarrow> 2 * length s + 1 | Inr (Inr (d, s)) \<Rightarrow> 2 * length s + 1)",
       goal_cases)
qed (auto dest!: skip_space_Cons_length parse_chars_length)

declare parse_value.simps [simp del] parse_elems.simps [simp del] parse_members.simps [simp del]

text \<open>\<open>json.Unmarshal\<close> reads one value and only whitespace after it; \<open>Decoder.Decode\<close>
  reads one value and leaves what follows.\<close>

definition parse_json :: "string \<Rightarrow> json option" where
  "parse_json s =
     (case parse_value 0 s of
        Some (v, r) \<Rightarrow> if skip_space r = [] then Some v else None
      | None \<Rightarrow> None)"

definition parse_json_prefix :: "string \<Rightarrow> json option" where
  "parse_json_prefix s = map_option fst (parse_value 0 s)"

section \<open>Decoding a value into a struct\<close>

text \<open>
  A struct is decoded member by member.  A member's name selects the field of exactly that name,
  or else the field whose case-folded name is the member's: folding is ASCII, plus the two
  characters whose simple fold is an ASCII letter (long s and the Kelvin sign).
\<close>

fun fold_name :: "string \<Rightarrow> string" where
  "fold_name [] = []"
| "fold_name (c # s) =
     (if c = CHR 0xC5 \<and> take 1 s = [CHR 0xBF] then CHR ''S'' # fold_name (drop 1 s)
      else if c = CHR 0xE2 \<and> take 2 s = [CHR 0x84, CHR 0xAA] then CHR ''K'' # fold_name (drop 2 s)
      else (if ascii_lower c then char_of (ord c - 32) else c) # fold_name s)"

type_synonym 'r field_decoder = "json \<Rightarrow> 'r \<Rightarrow> 'r option"

definition find_field :: "(string \<times> 'f) list \<Rightarrow> string \<Rightarrow> 'f option" where
  "find_field fs k =
     (case map_of fs k of
        Some dec \<Rightarrow> Some dec
      | None \<Rightarrow> map_of (map (apfst fold_name) fs) (fold_name k))"

fun decode_members ::
  "bool \<Rightarrow> (string \<times> 'r field_decoder) list \<Rightarrow> (string \<times> json) list \<Rightarrow> 'r \<Rightarrow> 'r option" where
  "decode_members strict fs [] r = Some r"
| "decode_members strict fs ((k, v) # ms) r =
     (case find_field fs k of
        None \<Rightarrow> if strict then None else decode_members strict fs ms r
      | Some dec \<Rightarrow> (case dec v r of None \<Rightarrow> None | Some r' \<Rightarrow> decode_members strict fs ms r'))"

definition decode_struct ::
  "bool \<Rightarrow> (string \<times> 'r field_decoder) list \<Rightarrow> json \<Rightarrow> 'r \<Rightarrow> 'r option" where
  "decode_struct strict fs j r =
     (case j of JNull \<Rightarrow> Some r | JObj ms \<Rightarrow> decode_members strict fs ms r | _ \<Rightarrow> None)"

definition unmarshal :: "(string \<times> 'r field_decoder) list \<Rightarrow> 'r \<Rightarrow> string \<Rightarrow> 'r option" where
  "unmarshal fs zero raw =
     (case parse_json raw of None \<Rightarrow> None | Some j \<Rightarrow> decode_struct False fs j zero)"

definition decode_strict :: "(string \<times> 'r field_decoder) list \<Rightarrow> 'r \<Rightarrow> string \<Rightarrow> 'r option" where
  "decode_strict fs zero raw =
     (case parse_json_prefix raw of None \<Rightarrow> None | Some j \<Rightarrow> decode_struct True fs j zero)"

text \<open>Decoders of the field types the program uses; \<open>old\<close> is the field's value so far.\<close>

fun string_value :: "json \<Rightarrow> string \<Rightarrow> string option" where
  "string_value (JStr s) old = Some s"
| "string_value JNull old = Some old"
| "string_value _ old = None"

fun bool_value :: "json \<Rightarrow> bool \<Rightarrow> bool option" where
  "bool_value (JBool b) old = Some b"
| "bool_value JNull old = Some old"
| "bool_value _ old = None"

fun int_value :: "json \<Rightarrow> int \<Rightarrow> int option" where
  "int_value (JNum l) old = atoi l"
| "int_value JNull old = Some old"
| "int_value _ old = None"

fun int_ptr_value :: "json \<Rightarrow> int option option" where
  "int_ptr_value (JNum l) = map_option Some (atoi l)"
| "int_ptr_value JNull = Some None"
| "int_ptr_value _ = None"

text \<open>A slice of strings: decoding writes over the slice held so far, element by element.\<close>

fun string_elems :: "json list \<Rightarrow> string list \<Rightarrow> string list option" where
  "string_elems [] old = Some []"
| "string_elems (j # js) old =
     (case string_value j (case old of [] \<Rightarrow> [] | s # _ \<Rightarrow> s) of
        None \<Rightarrow> None
      | Some s \<Rightarrow> map_option (Cons s) (string_elems js (tl old)))"

fun strings_value :: "json \<Rightarrow> string list \<Rightarrow> string list option" where
  "strings_value (JArr js) old = string_elems js old"
| "strings_value JNull old = Some []"
| "strings_value _ old = None"

section \<open>Writing values\<close>

definition hex_digit :: "nat \<Rightarrow> char" where
  "hex_digit n = (if n < 10 then char_of (48 + n) else char_of (87 + n))"

definition u_escape :: "nat \<Rightarrow> string" where
  "u_escape v =
     [CHR 0x5C, CHR ''u'', hex_digit (v div 4096 mod 16), hex_digit (v div 256 mod 16),
      hex_digit (v div 16 mod 16), hex_digit (v mod 16)]"

definition quote_ascii :: "char \<Rightarrow> string" where
  "quote_ascii c =
     (if c = CHR 0x22 \<or> c = CHR 0x5C then [CHR 0x5C, c]
      else if c = CHR 0x08 then [CHR 0x5C, CHR ''b'']
      else if c = CHR 0x0C then [CHR 0x5C, CHR ''f'']
      else if c = CHR 0x0A then [CHR 0x5C, CHR ''n'']
      else if c = CHR 0x0D then [CHR 0x5C, CHR ''r'']
      else if c = CHR 0x09 then [CHR 0x5C, CHR ''t'']
      else if ord c < 32 \<or> c = CHR ''<'' \<or> c = CHR ''>'' \<or> c = CHR ''&'' then u_escape (ord c)
      else [c])"

definition line_separator :: string where
  "line_separator = [CHR 0xE2, CHR 0x80, CHR 0xA8]"

definition paragraph_separator :: string where
  "paragraph_separator = [CHR 0xE2, CHR 0x80, CHR 0xA9]"

function quote_chars :: "string \<Rightarrow> string" where
  "quote_chars s =
     (case s of
        [] \<Rightarrow> []
      | c # r \<Rightarrow>
          (if ord c < 128 then quote_ascii c @ quote_chars r
           else if rune_width s = 0 then u_escape 65533 @ quote_chars r
           else if take 3 s = line_separator then u_escape 8232 @ quote_chars (drop 3 s)
           else if take 3 s = paragraph_separator then u_escape 8233 @ quote_chars (drop 3 s)
           else take (rune_width s) s @ quote_chars (drop (rune_width s) s)))"
  by auto
termination
  by (relation "measure length") (auto simp: neq_Nil_conv)

declare quote_chars.simps [simp del]

definition quote_string :: "string \<Rightarrow> string" where
  "quote_string s = CHR 0x22 # quote_chars s @ [CHR 0x22]"

fun join_with :: "string \<Rightarrow> string list \<Rightarrow> string" where
  "join_with sep [] = []"
| "join_with sep [x] = x"
| "join_with sep (x # xs) = x @ sep @ join_with sep xs"

fun marshal :: "json \<Rightarrow> string" where
  "marshal JNull = ''null''"
| "marshal (JBool b) = (if b then ''true'' else ''false'')"
| "marshal (JNum l) = l"
| "marshal (JStr s) = quote_string s"
| "marshal (JArr vs) = ''['' @ join_with '','' (map marshal vs) @ '']''"
| "marshal (JObj ms) =
     ''{'' @ join_with '','' (map (\<lambda>(k, v). quote_string k @ '':'' @ marshal v) ms) @ ''}''"

text \<open>Values that survive a round trip: valid UTF-8, no number lexemes, nesting in bounds.\<close>

fun plain_json :: "nat \<Rightarrow> json \<Rightarrow> bool" where
  "plain_json d JNull = True"
| "plain_json d (JBool b) = True"
| "plain_json d (JNum l) = False"
| "plain_json d (JStr s) = utf8_valid s"
| "plain_json d (JArr vs) = (d < max_nesting \<and> list_all (plain_json (Suc d)) vs)"
| "plain_json d (JObj ms) =
     (d < max_nesting \<and> list_all (\<lambda>(k, v). utf8_valid k \<and> plain_json (Suc d) v) ms)"

section \<open>Reading undoes writing\<close>

lemma hex_value_digit: "n < 16 \<Longrightarrow> hex_value (hex_digit n) = Some n"
proof -
  assume "n < 16"
  then have "n \<in> set [0..<16]" by simp
  then show ?thesis
    by (simp add: upt_rec hex_value_def hex_digit_def ascii_digit_def)
      (elim disjE; simp add: hex_value_def hex_digit_def ascii_digit_def)
qed

lemma hex4_digits:
  assumes "v < 65536"
  shows "hex4 (hex_digit (v div 4096 mod 16) # hex_digit (v div 256 mod 16)
               # hex_digit (v div 16 mod 16) # hex_digit (v mod 16) # X) = Some (v, X)"
proof -
  have "v div 4096 mod 16 = v div 4096" using assms by simp
  moreover have "v div 256 = 16 * (v div 4096) + v div 256 mod 16"
    using mult_div_mod_eq [of 16 "v div 256"] by (simp flip: div_mult2_eq)
  moreover have "v div 16 = 16 * (v div 256) + v div 16 mod 16"
    using mult_div_mod_eq [of 16 "v div 16"] by (simp flip: div_mult2_eq)
  moreover have "v = 16 * (v div 16) + v mod 16" by simp
  ultimately have
    "4096 * (v div 4096 mod 16) + 256 * (v div 256 mod 16) + 16 * (v div 16 mod 16) + v mod 16 = v"
    by linarith
  moreover have "k mod 16 < 16" for k :: nat by simp
  ultimately show ?thesis
    by (simp only: hex4.simps hex_value_digit option.case prod.case)
qed

lemma parse_escape_u:
  assumes "v < 65536" and "v < 55296 \<or> 57343 < v"
  shows "parse_escape (tl (u_escape v) @ X) = Some (utf8_encode v, X)"
proof -
  have "unicode_escape v X = (utf8_encode v, X)"
    using assms(2) by (auto simp: unicode_escape_def)
  then show ?thesis
    unfolding parse_escape_def u_escape_def list.sel append.simps list.case
    by (simp only: hex4_digits [OF assms(1)] option.map prod.case simp_thms if_True)
qed

lemma parse_chars_u_escape:
  assumes "v < 65536" and "v < 55296 \<or> 57343 < v"
  shows "parse_chars (u_escape v @ X) = map_option (apfst ((@) (utf8_encode v))) (parse_chars X)"
proof -
  have "u_escape v @ X = CHR 0x5C # (tl (u_escape v) @ X)" by (simp add: u_escape_def)
  moreover have "parse_chars (CHR 0x5C # Y) =
      (case parse_escape Y of
         None \<Rightarrow> None | Some (bs, r) \<Rightarrow> map_option (apfst ((@) bs)) (parse_chars r))" for Y
    by (subst parse_chars.simps) simp
  ultimately show ?thesis
    by (simp only: parse_escape_u [OF assms] option.case prod.case)
qed

lemma utf8_encode_separators:
  "utf8_encode 8232 = line_separator" "utf8_encode 8233 = paragraph_separator"
  by (simp_all add: utf8_encode_def line_separator_def paragraph_separator_def char_of_def bit_iff_odd)

lemma parse_chars_quote_ascii:
  assumes "ord c < 128"
  shows "parse_chars (quote_ascii c @ X) = map_option (apfst (Cons c)) (parse_chars X)"
proof -
  let ?short = "{CHR 0x22, CHR 0x5C, CHR 0x08, CHR 0x0C, CHR 0x0A, CHR 0x0D, CHR 0x09}"
  let ?long = "ord c < 32 \<or> c = CHR ''<'' \<or> c = CHR ''>'' \<or> c = CHR ''&''"
  have one: "(@) [x] = Cons x" for x :: char by (simp add: fun_eq_iff)
  show ?thesis
  proof (cases "c \<in> ?short")
    case True
    then show ?thesis
      by (subst parse_chars.simps) (auto simp: quote_ascii_def parse_escape_def one)
  next
    case short: False
    show ?thesis
    proof (cases ?long)
      case True
      with short have "quote_ascii c = u_escape (ord c)" by (simp add: quote_ascii_def)
      moreover have "utf8_encode (ord c) = [c]" using assms by (simp add: utf8_encode_def)
      ultimately show ?thesis using assms by (simp add: parse_chars_u_escape one)
    next
      case False
      with short have "quote_ascii c = [c]" by (simp add: quote_ascii_def)
      with short False assms show ?thesis by (subst parse_chars.simps) (simp add: one)
    qed
  qed
qed

lemma rune_width_take:
  "0 < rune_width s \<Longrightarrow> rune_width (take (rune_width s) s) = rune_width s"
  by (cases s) (auto split: list.splits if_splits)

lemma parse_chars_rune:
  assumes "s = c # r" and "\<not> ord c < 128" and "0 < rune_width s"
  shows "parse_chars (take (rune_width s) s @ X)
           = map_option (apfst ((@) (take (rune_width s) s))) (parse_chars X)"
proof -
  let ?w = "rune_width s"
  have w: "rune_width (take ?w s @ X) = ?w"
    using assms(3) rune_width_take [of s] rune_width_append [of "take ?w s" X] by simp
  obtain r' where t: "take ?w s = c # r'" using assms(1,3) by (cases ?w) auto
  have len: "length (take ?w s) = ?w" using rune_width_le [of s] by simp
  have "take ?w (take ?w s @ X) = take ?w s" "drop ?w (take ?w s @ X) = X"
    using len by simp_all
  moreover have "c \<noteq> CHR 0x22" "c \<noteq> CHR 0x5C" "\<not> ord c < 32"
    using assms(2) by auto
  ultimately show ?thesis
    using w assms(3) t by (subst parse_chars.simps) simp
qed

lemma parse_quote_chars:
  "utf8_valid s \<Longrightarrow> parse_chars (quote_chars s @ CHR 0x22 # rest) = Some (s, rest)"
proof (induction s rule: quote_chars.induct)
  case (1 s)
  show ?case
  proof (cases s)
    case Nil
    then show ?thesis by (simp add: quote_chars.simps parse_chars.simps)
  next
    case (Cons c r)
    then have "s \<noteq> []" by simp
    with "1.prems" have w: "0 < rune_width s" and v: "utf8_valid (drop (rune_width s) s)"
      using utf8_valid.simps [of s] by (simp_all split: if_splits)
    let ?Y = "CHR 0x22 # rest"
    show ?thesis
    proof (cases "ord c < 128")
      case True
      with Cons v have "utf8_valid r" by simp
      with "1.IH"(1) [OF Cons True] have "parse_chars (quote_chars r @ ?Y) = Some (r, rest)" by simp
      with Cons True show ?thesis
        by (subst quote_chars.simps) (simp add: parse_chars_quote_ascii)
    next
      case False
      consider "take 3 s = line_separator" | "take 3 s = paragraph_separator"
        | "take 3 s \<noteq> line_separator" "take 3 s \<noteq> paragraph_separator" by blast
      then show ?thesis
      proof cases
        case 1
        then obtain r3 where s: "s = line_separator @ r3"
          by (metis append_take_drop_id)
        then have w3: "rune_width s = 3" and d3: "drop 3 s = r3"
          by (simp_all add: line_separator_def second_ok_def cont_byte_def)
        from "1.IH"(3) [OF Cons False _ 1] w v w3 d3
        have "parse_chars (quote_chars r3 @ ?Y) = Some (r3, rest)" by simp
        moreover have "quote_chars s = u_escape 8232 @ quote_chars r3"
          using Cons False w3 1 d3 by (subst quote_chars.simps) simp
        ultimately show ?thesis using s by (simp add: parse_chars_u_escape utf8_encode_separators)
      next
        case 2
        then obtain r3 where s: "s = paragraph_separator @ r3"
          by (metis append_take_drop_id)
        then have w3: "rune_width s = 3" and d3: "drop 3 s = r3"
          by (simp_all add: paragraph_separator_def second_ok_def cont_byte_def)
        have ne: "take 3 s \<noteq> line_separator"
          using 2 by (simp add: paragraph_separator_def line_separator_def)
        from "1.IH"(4) [OF Cons False _ ne 2] w v w3 d3
        have "parse_chars (quote_chars r3 @ ?Y) = Some (r3, rest)" by simp
        moreover have "quote_chars s = u_escape 8233 @ quote_chars r3"
          using Cons False w3 2 ne d3 by (subst quote_chars.simps) simp
        ultimately show ?thesis using s by (simp add: parse_chars_u_escape utf8_encode_separators)
      next
        case 3
        from "1.IH"(5) [OF Cons False _ 3] w v
        have "parse_chars (quote_chars (drop (rune_width s) s) @ ?Y)
                = Some (drop (rune_width s) s, rest)" by simp
        moreover have "quote_chars s = take (rune_width s) s @ quote_chars (drop (rune_width s) s)"
          using Cons False w 3 by (subst quote_chars.simps) (simp del: rune_width.simps)
        ultimately show ?thesis
          by (simp add: parse_chars_rune [OF Cons False w] del: rune_width.simps)
      qed
    qed
  qed
qed


lemma parse_chars_quote_string:
  "utf8_valid s \<Longrightarrow> parse_chars (tl (quote_string s) @ rest) = Some (s, rest)"
  by (simp add: quote_string_def parse_quote_chars)

lemma skip_space_Cons [simp]: "\<not> json_space c \<Longrightarrow> skip_space (c # s) = c # s"
  by (simp add: skip_space_def)

lemma skip_space_Nil [simp]: "skip_space [] = []"
  by (simp add: skip_space_def)

lemma json_space_punct [simp]:
  "\<not> json_space (CHR 0x22)" "\<not> json_space (CHR ''{'')" "\<not> json_space (CHR ''}'')"
  "\<not> json_space (CHR ''['')" "\<not> json_space (CHR '']'')" "\<not> json_space (CHR '','')"
  "\<not> json_space (CHR '':'')" "\<not> json_space (CHR ''t'')" "\<not> json_space (CHR ''f'')"
  "\<not> json_space (CHR ''n'')"
  by (simp_all add: json_space_def)

text \<open>The first byte of a written value, which decides how the reader continues.\<close>

lemma marshal_Cons:
  assumes "plain_json d v"
  obtains c r where "marshal v = c # r"
    and "c \<in> {CHR 0x22, CHR ''{'', CHR ''['', CHR ''t'', CHR ''f'', CHR ''n''}"
proof (cases v)
  case (JBool b)
  with that show thesis by (cases b) auto
qed (use assms that in \<open>auto simp: quote_string_def\<close>)

lemma marshal_skip_space:
  assumes "plain_json d v"
  shows "\<exists>c r. skip_space (marshal v @ rest) = c # r \<and> c \<noteq> CHR '']'' \<and> c \<noteq> CHR ''}''"
proof -
  obtain c r where m: "marshal v = c # r"
    and c: "c \<in> {CHR 0x22, CHR ''{'', CHR ''['', CHR ''t'', CHR ''f'', CHR ''n''}"
    using assms by (rule marshal_Cons)
  from c have "\<not> json_space c \<and> c \<noteq> CHR '']'' \<and> c \<noteq> CHR ''}''" by auto
  with m show ?thesis by simp
qed

lemma marshal_nonempty: "plain_json d v \<Longrightarrow> marshal v \<noteq> []"
  by (auto elim: marshal_Cons)

text \<open>An array's elements and an object's members, given that each value reads back.\<close>

lemma parse_elems_marshal:
  assumes "vs \<noteq> []"
    and "\<And>v rest. v \<in> set vs \<Longrightarrow> parse_value d (marshal v @ rest) = Some (v, rest)"
  shows "parse_elems d (join_with '','' (map marshal vs) @ CHR '']'' # rest) = Some (vs, rest)"
  using assms
proof (induction vs rule: list_nonempty_induct)
  case (single v)
  then show ?case by (subst parse_elems.simps) simp
next
  case (cons v vs)
  then obtain v' vs' where vs: "vs = v' # vs'" by (cases vs) auto
  let ?rest = "join_with '','' (map marshal vs) @ CHR '']'' # rest"
  have "join_with '','' (map marshal (v # vs)) @ CHR '']'' # rest = marshal v @ CHR '','' # ?rest"
    by (simp add: vs)
  moreover have "parse_value d (marshal v @ CHR '','' # ?rest) = Some (v, CHR '','' # ?rest)"
    using cons.prems by simp
  moreover have "parse_elems d ?rest = Some (vs, rest)" using cons by simp
  ultimately show ?case by (subst parse_elems.simps) simp
qed

definition member_text :: "string \<times> json \<Rightarrow> string" where
  "member_text m = (case m of (k, v) \<Rightarrow> quote_string k @ '':'' @ marshal v)"

lemma parse_member_step:
  assumes "utf8_valid k"
    and "\<And>rest. parse_value d (marshal v @ rest) = Some (v, rest)"
  shows "parse_members d (member_text (k, v) @ CHR ''}'' # rest) = Some ([(k, v)], rest)"
    and "parse_members d (member_text (k, v) @ CHR '','' # rest)
           = map_option (apfst (Cons (k, v))) (parse_members d rest)"
proof -
  have e: "member_text (k, v) @ c # rest
             = CHR 0x22 # quote_chars k @ CHR 0x22 # CHR '':'' # marshal v @ c # rest" for c
    by (simp add: member_text_def quote_string_def)
  show "parse_members d (member_text (k, v) @ CHR ''}'' # rest) = Some ([(k, v)], rest)"
    unfolding e by (subst parse_members.simps) (simp add: parse_quote_chars [OF assms(1)] assms(2))
  show "parse_members d (member_text (k, v) @ CHR '','' # rest)
          = map_option (apfst (Cons (k, v))) (parse_members d rest)"
    unfolding e by (subst parse_members.simps) (simp add: parse_quote_chars [OF assms(1)] assms(2))
qed

lemma parse_members_marshal:
  assumes "ms \<noteq> []"
    and "\<And>k v. (k, v) \<in> set ms \<Longrightarrow> utf8_valid k"
    and "\<And>k v rest. (k, v) \<in> set ms \<Longrightarrow> parse_value d (marshal v @ rest) = Some (v, rest)"
  shows "parse_members d (join_with '','' (map member_text ms) @ CHR ''}'' # rest) = Some (ms, rest)"
  using assms
proof (induction ms rule: list_nonempty_induct)
  case (single m)
  then obtain k v where "m = (k, v)" by (cases m)
  with single show ?case by (simp add: parse_member_step)
next
  case (cons m ms)
  then obtain k v where m: "m = (k, v)" by (cases m)
  from cons obtain m' ms' where ms: "ms = m' # ms'" by (cases ms) auto
  let ?rest = "join_with '','' (map member_text ms) @ CHR ''}'' # rest"
  have "join_with '','' (map member_text (m # ms)) @ CHR ''}'' # rest
          = member_text (k, v) @ CHR '','' # ?rest"
    by (simp add: ms m)
  moreover have "parse_members d ?rest = Some (ms, rest)"
    by (rule cons.IH) (use cons.prems in \<open>blast intro: list.set_intros\<close>)+
  moreover have "utf8_valid k" by (rule cons.prems(1) [of k v]) (simp add: m)
  moreover have "parse_value d (marshal v @ rest) = Some (v, rest)" for rest
    by (rule cons.prems(2) [of k v]) (simp add: m)
  ultimately show ?case by (simp only: parse_member_step) (simp add: m)
qed

lemma marshal_JObj: "marshal (JObj ms) = ''{'' @ join_with '','' (map member_text ms) @ ''}''"
proof -
  have "(\<lambda>(k, v). quote_string k @ '':'' @ marshal v) = member_text"
    by (simp add: fun_eq_iff member_text_def)
  then show ?thesis by simp
qed

lemma parse_value_marshal: "plain_json d v \<Longrightarrow> parse_value d (marshal v @ rest) = Some (v, rest)"
proof (induction v arbitrary: d rest)
  case (JArr vs)
  show ?case
  proof (cases "vs = []")
    case True
    with JArr.prems show ?thesis by (subst parse_value.simps) simp
  next
    case False
    let ?es = "join_with '','' (map marshal vs)"
    have ok: "v \<in> set vs \<Longrightarrow> parse_value (Suc d) (marshal v @ rest) = Some (v, rest)" for v rest
      using JArr by (auto simp: list_all_iff)
    have "parse_elems (Suc d) (?es @ CHR '']'' # rest) = Some (vs, rest)"
      by (rule parse_elems_marshal [OF False ok])
    moreover obtain v vs' where vs: "vs = v # vs'" using False by (cases vs) auto
    moreover have "\<exists>c r. skip_space (?es @ CHR '']'' # rest) = c # r \<and> c \<noteq> CHR '']''"
    proof -
      obtain tl where "?es = marshal v @ tl" using vs by (cases vs') auto
      then show ?thesis using marshal_skip_space [of "Suc d" v] JArr.prems vs by fastforce
    qed
    ultimately show ?thesis using JArr.prems by (subst parse_value.simps) auto
  qed
next
  case (JObj ms)
  show ?case
  proof (cases "ms = []")
    case True
    with JObj.prems show ?thesis by (subst parse_value.simps) simp
  next
    case False
    let ?es = "join_with '','' (map member_text ms)"
    have ok: "(k, v) \<in> set ms \<Longrightarrow> parse_value (Suc d) (marshal v @ rest) = Some (v, rest)"
      and key: "(k, v) \<in> set ms \<Longrightarrow> utf8_valid k" for k v rest
      using JObj by (auto simp: list_all_iff)
    have "parse_members (Suc d) (?es @ CHR ''}'' # rest) = Some (ms, rest)"
      by (rule parse_members_marshal [OF False key ok])
    moreover obtain k v ms' where "ms = (k, v) # ms'" using False by (cases ms) auto
    moreover from this obtain tl where "?es = CHR 0x22 # tl"
      by (cases ms') (auto simp: member_text_def quote_string_def)
    ultimately show ?thesis using JObj.prems
      unfolding marshal_JObj by (subst parse_value.simps) auto
  qed
qed (subst parse_value.simps; simp add: has_prefix_def quote_string_def parse_quote_chars)+

lemma parse_json_marshal: "plain_json 0 v \<Longrightarrow> parse_json (marshal v) = Some v"
  using parse_value_marshal [of 0 v "[]"] by (simp add: parse_json_def)

lemma unmarshal_marshal:
  "plain_json 0 v \<Longrightarrow> unmarshal fs zero (marshal v) = decode_struct False fs v zero"
  by (simp add: unmarshal_def parse_json_marshal)

text \<open>A struct keeps whatever each of its field decoders keeps.\<close>

lemma unmarshal_keeps:
  assumes "\<And>f dec j r r'. (f, dec) \<in> set fs \<Longrightarrow> dec j r = Some r' \<Longrightarrow> P r \<Longrightarrow> P r'"
    and "unmarshal fs zero raw = Some r" and "P zero"
  shows "P r"
proof -
  have found: "\<exists>f. (f, dec) \<in> set fs" if "find_field fs k = Some dec" for dec k
    using that by (auto simp: find_field_def dest!: map_of_SomeD split: option.splits) blast+
  have mem: "decode_members s fs ms r = Some r' \<Longrightarrow> P r \<Longrightarrow> P r'" for s ms r r'
  proof (induction ms arbitrary: r)
    case (Cons m ms)
    obtain k v where m: "m = (k, v)" by (cases m)
    show ?case
    proof (cases "find_field fs k")
      case None
      with Cons m show ?thesis by (simp split: if_splits)
    next
      case (Some dec)
      with Cons.prems m obtain r1 where r1: "dec v r = Some r1" "decode_members s fs ms r1 = Some r'"
        by (auto split: option.splits)
      from found [OF Some] obtain f where "(f, dec) \<in> set fs" by blast
      then have "P r1" using assms(1) r1(1) Cons.prems(2) by blast
      with Cons.IH r1(2) show ?thesis by blast
    qed
  qed simp
  from assms(2) obtain j where "decode_struct False fs j zero = Some r"
    by (auto simp: unmarshal_def split: option.splits)
  with assms(3) show ?thesis by (cases j) (auto simp: decode_struct_def dest: mem)
qed

end
