(* ===== verification/GoTime.thy ===== *)
theory GoTime
  imports TrustDomain GoJson "HOL-Library.Char_ord" "HOL-Library.List_Lexorder" "HOL-Library.Monad_Syntax"
begin

text \<open>
  The part of Go's \<open>time\<close> package the program uses: RFC 3339 timestamps of the proleptic
  Gregorian calendar, read by \<open>time.Parse\<close> (with the leniencies of its general path: a
  one-digit hour, a comma before the fraction, offsets up to 24:60) and written in UTC with whole
  seconds.  An instant counts nanoseconds from 1970-01-01T00:00:00Z.

  Results: for the years 0 to 9999, reading undoes writing, and the written texts compare, byte by
  byte, the way the instants do.
\<close>

section \<open>The calendar\<close>

definition leap_year :: "int \<Rightarrow> bool" where
  "leap_year y \<longleftrightarrow> y mod 4 = 0 \<and> (y mod 100 \<noteq> 0 \<or> y mod 400 = 0)"

definition days_in_month :: "int \<Rightarrow> int \<Rightarrow> int" where
  "days_in_month y m =
     (if m = 2 then (if leap_year y then 29 else 28)
      else if m = 4 \<or> m = 6 \<or> m = 9 \<or> m = 11 then 30 else 31)"

text \<open>Days from 0001-01-01 to the first day of a year.\<close>

definition days_before_year :: "int \<Rightarrow> int" where
  "days_before_year y = 365 * (y - 1) + (y - 1) div 4 - (y - 1) div 100 + (y - 1) div 400"

text \<open>Days from the first day of the year to the first day of a month, skipping \<open>m\<close> months.\<close>

fun days_before_month :: "int \<Rightarrow> nat \<Rightarrow> int" where
  "days_before_month y 0 = 0"
| "days_before_month y (Suc m) = days_before_month y m + days_in_month y (int m + 1)"

definition unix_epoch_day :: int where
  "unix_epoch_day = 719162"

text \<open>The day number of a date; day 0 is 1970-01-01.\<close>

definition day_number :: "int \<Rightarrow> int \<Rightarrow> int \<Rightarrow> int" where
  "day_number y m d =
     days_before_year y + days_before_month y (nat (m - 1)) + (d - 1) - unix_epoch_day"

lemma year_length:
  "days_before_year (y + 1) = days_before_year y + (if leap_year y then 366 else 365)"
proof -
  have step: "y div k = (y - 1) div k + (if y mod k = 0 then 1 else 0)" if "0 < k" for k
  proof -
    define q r where "q = y div k" and "r = y mod k"
    have y: "y = k * q + r" "0 \<le> r" "r < k" using that by (simp_all add: q_def r_def)
    have "(y - 1) div k = (if r = 0 then q - 1 else q)"
    proof (cases "r = 0")
      case True
      have "y - 1 = k * (q - 1) + (k - 1)" using y True by (simp add: right_diff_distrib)
      then have "(y - 1) div k = q - 1" by (rule int_div_pos_eq) (use that in simp_all)
      with True show ?thesis by simp
    next
      case False
      have "y - 1 = k * q + (r - 1)" using y by simp
      then have "(y - 1) div k = q" by (rule int_div_pos_eq) (use y False in simp_all)
      with False show ?thesis by simp
    qed
    then show ?thesis by (simp add: q_def r_def)
  qed
  have "y mod 400 = 0 \<Longrightarrow> y mod 100 = 0" "y mod 100 = 0 \<Longrightarrow> y mod 4 = 0" by presburger+
  then have leap: "(if y mod 4 = 0 then 1 else 0) - (if y mod 100 = 0 then 1 else 0)
      + (if y mod 400 = 0 then 1 else 0) = (if leap_year y then 1 else 0 :: int)"
    unfolding leap_year_def by (cases "y mod 4 = 0"; cases "y mod 100 = 0"; cases "y mod 400 = 0") simp_all
  have "days_before_year (y + 1) = 365 * y + y div 4 - y div 100 + y div 400"
    by (simp add: days_before_year_def)
  also have "\<dots> = 365 * y
      + ((y - 1) div 4 + (if y mod 4 = 0 then 1 else 0))
      - ((y - 1) div 100 + (if y mod 100 = 0 then 1 else 0))
      + ((y - 1) div 400 + (if y mod 400 = 0 then 1 else 0))"
    using step [of 4] step [of 100] step [of 400] by (simp only: zero_less_numeral)
  also have "\<dots> = days_before_year y + 365 + (if leap_year y then 1 else 0)"
    unfolding days_before_year_def leap [symmetric] by (simp add: algebra_simps split del: if_split)
  finally show ?thesis by simp
qed

lemma days_in_month_bounds: "28 \<le> days_in_month y m" "days_in_month y m \<le> 31"
  by (simp_all add: days_in_month_def)

lemma days_before_month_12: "days_before_month y 12 = (if leap_year y then 366 else 365)"
  by (simp add: numeral_eq_Suc days_in_month_def)

lemma days_before_month_mono: "i \<le> j \<Longrightarrow> days_before_month y i \<le> days_before_month y j"
proof (induction rule: dec_induct)
  case (step n)
  then show ?case using days_in_month_bounds(1) [of y "int n + 1"] by simp
qed simp

lemma days_before_year_mono: "y \<le> y' \<Longrightarrow> days_before_year y \<le> days_before_year y'"
proof (induction rule: int_ge_induct)
  case (step i)
  then show ?case using year_length [of i] by simp
qed simp

definition valid_date :: "int \<Rightarrow> int \<Rightarrow> int \<Rightarrow> bool" where
  "valid_date y m d \<longleftrightarrow> 1 \<le> m \<and> m \<le> 12 \<and> 1 \<le> d \<and> d \<le> days_in_month y m"

text \<open>The date of a day number: search for the year, then for the month.\<close>

function year_from :: "int \<Rightarrow> int \<Rightarrow> int" where
  "year_from y n = (if days_before_year (y + 1) \<le> n then year_from (y + 1) n else y)"
  by auto
termination
proof (relation "measure (\<lambda>(y, n). nat (n - days_before_year y + 1))")
  show "((y + 1, n), y, n) \<in> measure (\<lambda>(y, n). nat (n - days_before_year y + 1))"
    if "days_before_year (y + 1) \<le> n" for y n
    using that year_length [of y] by (auto split: if_splits)
qed simp

declare year_from.simps [simp del]

function month_from :: "int \<Rightarrow> nat \<Rightarrow> int \<Rightarrow> int \<times> int" where
  "month_from y m r =
     (if m < 11 \<and> days_in_month y (int m + 1) \<le> r
      then month_from y (Suc m) (r - days_in_month y (int m + 1)) else (int m + 1, r + 1))"
  by auto
termination
  by (relation "measure (\<lambda>(y, m, r). 12 - m)") auto

declare month_from.simps [simp del]

definition civil :: "int \<Rightarrow> int \<times> int \<times> int" where
  "civil day =
     (let n = day + unix_epoch_day; y = year_from (400 * n div 146097) n
      in (y, month_from y 0 (n - days_before_year y)))"

lemma year_from_bounds:
  "days_before_year y \<le> n \<Longrightarrow> days_before_year (year_from y n) \<le> n \<and> n < days_before_year (year_from y n + 1)"
proof (induction y n rule: year_from.induct)
  case (1 y n)
  then show ?case by (subst (1 2) year_from.simps) auto
qed

lemma year_estimate: "days_before_year (400 * n div 146097) \<le> n"
proof -
  define k where "k = 400 * n div 146097 - 1"
  have "146097 * (k + 1) \<le> 400 * n" by (simp add: k_def)
  moreover define A B C where "A = k div 4" and "B = k div 100" and "C = k div 400"
  then have "4 * A \<le> k" "k - 99 \<le> 100 * B" "400 * C \<le> k" by linarith+
  then have "400 * (365 * k + A - B + C) \<le> 146097 * k + 396" by (simp add: algebra_simps)
  ultimately have "365 * k + A - B + C \<le> n" by simp
  then have "365 * k + k div 4 - k div 100 + k div 400 \<le> n" by (simp add: A_def B_def C_def)
  then show ?thesis by (simp add: days_before_year_def k_def)
qed

lemma month_from_date:
  assumes "m \<le> 11" and "0 \<le> r" and "days_before_month y m + r < days_before_month y 12"
    and "month_from y m r = (m', d)"
  shows "valid_date y m' d \<and> days_before_month y (nat (m' - 1)) + (d - 1) = days_before_month y m + r"
  using assms
proof (induction y m r rule: month_from.induct)
  case (1 y m r)
  show ?case
  proof (cases "m < 11 \<and> days_in_month y (int m + 1) \<le> r")
    case True
    then show ?thesis
      using "1.IH" [OF True] "1.prems" by (subst (asm) (2) month_from.simps) (auto simp: algebra_simps)
  next
    case False
    have "r < days_in_month y (int m + 1)"
    proof (cases "m < 11")
      case True
      with False show ?thesis by simp
    next
      case m: False
      with "1.prems"(1) have "m = 11" by simp
      moreover have "days_before_month y 12 = days_before_month y 11 + days_in_month y 12"
        by (simp add: numeral_eq_Suc)
      ultimately show ?thesis using "1.prems"(3) by simp
    qed
    moreover from False "1.prems"(4) have "m' = int m + 1" "d = r + 1"
      by (auto simp: month_from.simps [of y m r])
    ultimately show ?thesis using "1.prems" by (auto simp: valid_date_def)
  qed
qed

lemma civil_date:
  assumes "civil n = (y, m, d)"
  shows "valid_date y m d" and "day_number y m d = n"
proof -
  let ?k = "n + unix_epoch_day"
  from assms have y: "y = year_from (400 * ?k div 146097) ?k"
    and md: "month_from y 0 (?k - days_before_year y) = (m, d)"
    by (auto simp: civil_def Let_def)
  have "days_before_year y \<le> ?k \<and> ?k < days_before_year (y + 1)"
    unfolding y by (rule year_from_bounds) (rule year_estimate)
  then have r: "0 \<le> ?k - days_before_year y"
    "days_before_month y 0 + (?k - days_before_year y) < days_before_month y 12"
    using year_length [of y] days_before_month_12 [of y] by auto
  from month_from_date [OF _ r md] show "valid_date y m d" and "day_number y m d = n"
    by (auto simp: day_number_def)
qed

lemma day_number_bounds:
  assumes "valid_date y m d"
  shows "days_before_year y - unix_epoch_day \<le> day_number y m d"
    and "day_number y m d < days_before_year (y + 1) - unix_epoch_day"
proof -
  have m: "0 \<le> m - 1" "nat (m - 1) < 12" using assms by (auto simp: valid_date_def nat_less_iff)
  have "days_before_month y (Suc (nat (m - 1))) \<le> days_before_month y 12"
    using m by (intro days_before_month_mono) simp
  then have "days_before_month y (nat (m - 1)) + days_in_month y m \<le> days_before_month y 12"
    using m by simp
  moreover have "0 \<le> days_before_month y (nat (m - 1))"
    using days_before_month_mono [of 0 "nat (m - 1)" y] by simp
  ultimately show "days_before_year y - unix_epoch_day \<le> day_number y m d"
    and "day_number y m d < days_before_year (y + 1) - unix_epoch_day"
    using assms year_length [of y] days_before_month_12 [of y]
    by (auto simp: day_number_def valid_date_def)
qed

text \<open>Dates in calendar order have day numbers in that order.\<close>

lemma day_number_less:
  assumes "valid_date y m d" and "valid_date y' m' d'"
    and "y < y' \<or> y = y' \<and> (m < m' \<or> m = m' \<and> d < d')"
  shows "day_number y m d < day_number y' m' d'"
proof -
  consider "y < y'" | "y = y'" "m < m'" | "y = y'" "m = m'" "d < d'" using assms(3) by blast
  then show ?thesis
  proof cases
    case 1
    then have "days_before_year (y + 1) \<le> days_before_year y'" by (intro days_before_year_mono) simp
    with day_number_bounds [OF assms(1)] day_number_bounds [OF assms(2)] show ?thesis by linarith
  next
    case 2
    have m: "0 \<le> m - 1" "Suc (nat (m - 1)) \<le> nat (m' - 1)" using 2 assms(1) by (auto simp: valid_date_def)
    have "days_before_month y (Suc (nat (m - 1))) \<le> days_before_month y (nat (m' - 1))"
      using m by (intro days_before_month_mono) simp
    with m have "days_before_month y (nat (m - 1)) + days_in_month y m \<le> days_before_month y (nat (m' - 1))"
      by simp
    with 2 assms show ?thesis by (auto simp: day_number_def valid_date_def)
  next
    case 3
    then show ?thesis by (simp add: day_number_def)
  qed
qed

lemma civil_eqI:
  assumes "valid_date y m d" and "day_number y m d = n"
  shows "civil n = (y, m, d)"
proof -
  obtain y' m' d' where c: "civil n = (y', m', d')" by (metis prod_cases3)
  note c' = civil_date [OF c]
  have "\<not> (y < y' \<or> y = y' \<and> (m < m' \<or> m = m' \<and> d < d'))"
    "\<not> (y' < y \<or> y' = y \<and> (m' < m \<or> m' = m \<and> d' < d))"
    using day_number_less [OF assms(1) c'(1)] day_number_less [OF c'(1) assms(1)] c'(2) assms(2) by auto
  then have "y' = y" "m' = m" "d' = d" by auto
  with c show ?thesis by simp
qed

section \<open>Decimal digits\<close>

definition digit_char :: "nat \<Rightarrow> char" where
  "digit_char d = char_of (48 + d)"

text \<open>\<open>strconv.Itoa\<close> of a natural number, and the fixed-width form with leading zeros.\<close>

fun itoa :: "nat \<Rightarrow> string" where
  "itoa n = (if n < 10 then [digit_char n] else itoa (n div 10) @ [digit_char (n mod 10)])"

declare itoa.simps [simp del]

fun pad_digits :: "nat \<Rightarrow> nat \<Rightarrow> string" where
  "pad_digits 0 n = []"
| "pad_digits (Suc w) n = pad_digits w (n div 10) @ [digit_char (n mod 10)]"

text \<open>Evaluation on numerals.\<close>

lemma pad_digits_numeral: "pad_digits (numeral k) n = pad_digits (pred_numeral k) (n div 10) @ [digit_char (n mod 10)]"
  by (simp only: numeral_eq_Suc [of k] pad_digits.simps)

lemma digit_chars:
  "digit_char 0 = CHR ''0''" "digit_char (Suc 0) = CHR ''1''" "digit_char 1 = CHR ''1''" "digit_char 2 = CHR ''2''"
  "digit_char 3 = CHR ''3''" "digit_char 4 = CHR ''4''" "digit_char 5 = CHR ''5''" "digit_char 6 = CHR ''6''"
  "digit_char 7 = CHR ''7''" "digit_char 8 = CHR ''8''" "digit_char 9 = CHR ''9''"
  by (simp_all add: digit_char_def char_of_def bit_iff_odd)

lemmas decimal_simps = pad_digits_numeral digit_chars

lemma digit_char_props:
  assumes "d < 10"
  shows "ascii_digit (digit_char d)" and "digit_value (digit_char d) = int d" and "ord (digit_char d) = 48 + d"
proof -
  have "ord (digit_char d) = 48 + d" using assms by (simp add: digit_char_def)
  then show "ascii_digit (digit_char d)" "digit_value (digit_char d) = int d" "ord (digit_char d) = 48 + d"
    using assms by (simp_all add: ascii_digit_def digit_value_def)
qed

lemma digits_value_snoc: "digits_value (ds @ [c]) = 10 * digits_value ds + digit_value c"
  by (simp add: digits_value_def)

lemma digits_value_Nil [simp]: "digits_value [] = 0"
  by (simp add: digits_value_def)

lemma itoa_digits: "list_all ascii_digit (itoa n) \<and> itoa n \<noteq> [] \<and> digits_value (itoa n) = int n"
proof (induction n rule: itoa.induct)
  case (1 n)
  have "digits_value [c] = digit_value c" for c using digits_value_snoc [of "[]" c] by simp
  with 1 show ?case
    by (subst (1 2 3) itoa.simps) (auto simp: digit_char_props digits_value_snoc zdiv_int zmod_int)
qed

lemma atoi_itoa: "int n < 2 ^ 63 \<Longrightarrow> atoi (itoa n) = Some (int n)"
proof -
  assume n: "int n < 2 ^ 63"
  obtain c r where c: "itoa n = c # r" "ascii_digit c" using itoa_digits [of n] by (cases "itoa n") auto
  then have "c \<noteq> CHR ''-''" "c \<noteq> CHR ''+''" by (auto simp: ascii_digit_def)
  with c n itoa_digits [of n] show ?thesis by (auto simp: atoi_def Let_def in_int64_def)
qed

lemma pad_digits_length [simp]: "length (pad_digits w n) = w"
  by (induction w arbitrary: n) simp_all

lemma pad_digits_digits: "list_all ascii_digit (pad_digits w n)"
  by (induction w arbitrary: n) (simp_all add: digit_char_props)

lemma pad_digits_value: "n < 10 ^ w \<Longrightarrow> digits_value (pad_digits w n) = int n"
proof (induction w arbitrary: n)
  case (Suc w)
  then have "n div 10 < 10 ^ w" by (simp add: less_mult_imp_div_less mult.commute)
  with Suc show ?case by (simp add: digits_value_snoc digit_char_props zdiv_int zmod_int)
qed simp

text \<open>Fixed-width numbers compare like their texts.\<close>

lemma append_less:
  fixes x x' r r' :: string
  assumes "length x = length x'"
  shows "x @ r < x' @ r' \<longleftrightarrow> x < x' \<or> x = x' \<and> r < r'"
  using assms by (induction x x' rule: list_induct2) auto

lemma digit_char_less: "d < 10 \<Longrightarrow> d' < 10 \<Longrightarrow> digit_char d < digit_char d' \<longleftrightarrow> d < d'"
  by (simp add: less_char_def digit_char_props)

lemma less_div_mod_int:
  assumes "0 < (k::int)"
  shows "n < n' \<longleftrightarrow> n div k < n' div k \<or> n div k = n' div k \<and> n mod k < n' mod k"
proof (cases "n div k" "n' div k" rule: linorder_cases)
  case less
  then have "\<not> n' \<le> n" using zdiv_mono1 [of n' n k] assms by auto
  with less show ?thesis by simp
next
  case equal
  with mult_div_mod_eq [of k n] mult_div_mod_eq [of k n'] show ?thesis
    by (metis add_less_cancel_left less_irrefl)
next
  case greater
  then have "\<not> n \<le> n'" using zdiv_mono1 [of n n' k] assms by auto
  with greater show ?thesis by simp
qed

lemma less_div_mod_nat:
  "n < n' \<longleftrightarrow> n div k < n' div k \<or> n div k = n' div k \<and> n mod k < n' mod (k::nat)"
proof (cases "n div k" "n' div k" rule: linorder_cases)
  case less
  then have "\<not> n' \<le> n" using div_le_mono [of n' n k] by auto
  with less show ?thesis by simp
next
  case equal
  with mult_div_mod_eq [of k n] mult_div_mod_eq [of k n'] show ?thesis
    by (metis add_less_cancel_left less_irrefl)
next
  case greater
  then have "\<not> n \<le> n'" using div_le_mono [of n n' k] by auto
  with greater show ?thesis by simp
qed

text \<open>The clock fields of a second of the day.\<close>

lemma div_3600: "r div 3600 = r div 60 div (60::int)"
  by (simp flip: zdiv_zmult2_eq)

lemma clock_sum: "r div 3600 * 3600 + r div 60 mod 60 * 60 + r mod 60 = (r::int)"
proof -
  have "r div 60 div 60 * 60 + r div 60 mod 60 = r div 60" "r div 60 * 60 + r mod 60 = r" by simp_all
  then show ?thesis unfolding div_3600 by linarith
qed

lemma clock_less:
  "a < b \<longleftrightarrow> a div 3600 < b div 3600 \<or> a div 3600 = b div 3600
     \<and> (a div 60 mod 60 < b div 60 mod 60 \<or> a div 60 mod 60 = b div 60 mod 60 \<and> a mod 60 < b mod (60::int))"
proof -
  have "a div 60 = b div 60 \<longleftrightarrow> a div 60 div 60 = b div 60 div 60 \<and> a div 60 mod 60 = b div 60 mod 60"
    by (metis div_mult_mod_eq)
  then show ?thesis
    unfolding div_3600 less_div_mod_int [of 60 a b, simplified] less_div_mod_int [of 60 "a div 60" "b div 60", simplified]
    by blast
qed

lemma digit_char_mod_eq: "digit_char (n mod 10) = digit_char (n' mod 10) \<longleftrightarrow> n mod 10 = n' mod 10"
proof
  assume "digit_char (n mod 10) = digit_char (n' mod 10)"
  then have "ord (digit_char (n mod 10)) = ord (digit_char (n' mod 10))" by (rule arg_cong)
  then show "n mod 10 = n' mod 10" by (simp add: digit_char_props(3))
qed (rule arg_cong)

lemma eq_div_mod_nat: "n = n' \<longleftrightarrow> n div k = n' div k \<and> n mod k = n' mod (k::nat)"
  by (metis div_mult_mod_eq)

lemma pad_digits_less:
  "n < 10 ^ w \<Longrightarrow> n' < 10 ^ w \<Longrightarrow> (pad_digits w n < pad_digits w n' \<longleftrightarrow> n < n')
     \<and> (pad_digits w n = pad_digits w n' \<longleftrightarrow> n = n')"
proof (induction w arbitrary: n n')
  case (Suc w)
  have d: "n div 10 < 10 ^ w" "n' div 10 < 10 ^ w" using Suc.prems by (simp_all add: less_mult_imp_div_less mult.commute)
  note lt = conjunct1 [OF Suc.IH [OF d]] and eq = conjunct2 [OF Suc.IH [OF d]]
  have "pad_digits (Suc w) n < pad_digits (Suc w) n' \<longleftrightarrow> pad_digits w (n div 10) < pad_digits w (n' div 10)
      \<or> pad_digits w (n div 10) = pad_digits w (n' div 10) \<and> n mod 10 < n' mod 10"
    by (simp add: append_less pad_digits_length digit_char_less)
  then have "pad_digits (Suc w) n < pad_digits (Suc w) n' \<longleftrightarrow> n < n'"
    by (simp only: lt eq less_div_mod_nat [of n n' 10])
  moreover have "pad_digits (Suc w) n = pad_digits (Suc w) n' \<longleftrightarrow> pad_digits w (n div 10) = pad_digits w (n' div 10)
      \<and> digit_char (n mod 10) = digit_char (n' mod 10)" by simp
  then have "pad_digits (Suc w) n = pad_digits (Suc w) n' \<longleftrightarrow> n = n'"
    by (simp only: eq digit_char_mod_eq eq_div_mod_nat [of n n' 10])
  ultimately show ?case by blast
qed simp

section \<open>Writing\<close>

definition append_year :: "int \<Rightarrow> string" where
  "append_year y =
     (let n = nat \<bar>y\<bar>; ds = (if n < 10000 then pad_digits 4 n else itoa n)
      in if y < 0 then CHR ''-'' # ds else ds)"

definition seconds_of :: "instant \<Rightarrow> int" where
  "seconds_of t = t div 1000000000"

definition format_seconds :: "int \<Rightarrow> string" where
  "format_seconds s =
     (let (y, m, d) = civil (s div 86400); r = s mod 86400
      in append_year y @ CHR ''-'' # pad_digits 2 (nat m) @ CHR ''-'' # pad_digits 2 (nat d)
         @ CHR ''T'' # pad_digits 2 (nat (r div 3600)) @ CHR '':'' # pad_digits 2 (nat (r div 60 mod 60))
         @ CHR '':'' # pad_digits 2 (nat (r mod 60)) @ ''Z'')"

text \<open>\<open>t.UTC().Truncate(time.Second).Format(time.RFC3339)\<close>\<close>

definition format_rfc3339 :: "instant \<Rightarrow> string" where
  "format_rfc3339 t = format_seconds (seconds_of t)"

section \<open>Reading\<close>

definition fixed :: "nat \<Rightarrow> string \<Rightarrow> (int \<times> string) option" where
  "fixed w s = (if length (take w s) = w \<and> list_all ascii_digit (take w s)
                then Some (digits_value (take w s), drop w s) else None)"

fun expect :: "char \<Rightarrow> string \<Rightarrow> string option" where
  "expect c [] = None"
| "expect c (x # s) = (if x = c then Some s else None)"

definition parse_hour :: "string \<Rightarrow> (int \<times> string) option" where
  "parse_hour s = (case fixed 2 s of Some r \<Rightarrow> Some r | None \<Rightarrow> fixed 1 s)"

text \<open>Digits after the ninth are dropped.\<close>

definition parse_fraction :: "string \<Rightarrow> int \<times> string" where
  "parse_fraction s =
     (case s of
        c # d # r \<Rightarrow>
          if (c = CHR ''.'' \<or> c = CHR '','') \<and> ascii_digit d
          then let ds = take 9 (takeWhile ascii_digit (d # r))
               in (digits_value ds * 10 ^ (9 - length ds), dropWhile ascii_digit (d # r))
          else (0, s)
      | _ \<Rightarrow> (0, s))"

text \<open>The offset in seconds.\<close>

definition parse_zone :: "string \<Rightarrow> int option" where
  "parse_zone s =
     (if s = ''Z'' then Some 0
      else case s of
        [] \<Rightarrow> None
      | sign # r \<Rightarrow>
          do {
            (h, r) \<leftarrow> fixed 2 r;
            r \<leftarrow> expect (CHR '':'') r;
            (m, r) \<leftarrow> fixed 2 r;
            if r = [] \<and> h \<le> 24 \<and> m \<le> 60 \<and> (sign = CHR ''+'' \<or> sign = CHR ''-'')
            then Some (if sign = CHR ''-'' then - (h * 60 + m) * 60 else (h * 60 + m) * 60)
            else None
          })"

definition parse_rfc3339 :: "string \<Rightarrow> instant option" where
  "parse_rfc3339 s = do {
     (y, s) \<leftarrow> fixed 4 s; s \<leftarrow> expect (CHR ''-'') s;
     (m, s) \<leftarrow> fixed 2 s; s \<leftarrow> expect (CHR ''-'') s;
     (d, s) \<leftarrow> fixed 2 s; s \<leftarrow> expect (CHR ''T'') s;
     (h, s) \<leftarrow> parse_hour s; s \<leftarrow> expect (CHR '':'') s;
     (mi, s) \<leftarrow> fixed 2 s; s \<leftarrow> expect (CHR '':'') s;
     (sec, s) \<leftarrow> fixed 2 s;
     let (nsec, s) = parse_fraction s;
     offset \<leftarrow> parse_zone s;
     if valid_date y m d \<and> h \<le> 23 \<and> mi \<le> 59 \<and> sec \<le> 59
     then Some ((day_number y m d * 86400 + h * 3600 + mi * 60 + sec - offset) * 1000000000 + nsec)
     else None
   }"

section \<open>Round trip and order\<close>

definition four_digit_year :: "instant \<Rightarrow> bool" where
  "four_digit_year t \<longleftrightarrow> 0 \<le> fst (civil (seconds_of t div 86400)) \<and> fst (civil (seconds_of t div 86400)) < 10000"

lemma fixed_pad [simp]: "n < 10 ^ w \<Longrightarrow> fixed w (pad_digits w n @ s) = Some (int n, s)"
  by (simp add: fixed_def pad_digits_digits pad_digits_value)

lemma fixed_4: "n < 10000 \<Longrightarrow> fixed 4 (pad_digits 4 n @ s) = Some (int n, s)"
  and fixed_2: "n < 100 \<Longrightarrow> fixed 2 (pad_digits 2 n @ s) = Some (int n, s)"
  and parse_hour_2: "n < 100 \<Longrightarrow> parse_hour (pad_digits 2 n @ s) = Some (int n, s)"
  by (simp_all add: parse_hour_def)

lemma format_fields:
  assumes "four_digit_year t" and "civil (seconds_of t div 86400) = (y, m, d)"
    and "r = seconds_of t mod 86400"
  shows "format_rfc3339 t = pad_digits 4 (nat y) @ CHR ''-'' # pad_digits 2 (nat m) @ CHR ''-'' # pad_digits 2 (nat d)
         @ CHR ''T'' # pad_digits 2 (nat (r div 3600)) @ CHR '':'' # pad_digits 2 (nat (r div 60 mod 60))
         @ CHR '':'' # pad_digits 2 (nat (r mod 60)) @ ''Z''"
    and "nat y < 10000" and "nat m < 100" and "nat d < 100" and "nat (r div 3600) < 100"
    and "nat (r div 60 mod 60) < 100" and "nat (r mod 60) < 100"
    and "0 \<le> y" and "valid_date y m d" and "0 \<le> r" and "r < 86400"
proof -
  have y: "0 \<le> y" "y < 10000" using assms(1,2) by (simp_all add: four_digit_year_def)
  have r: "0 \<le> r" "r < 86400" by (simp_all add: assms(3))
  have date: "valid_date y m d" using civil_date(1) assms(2) .
  then show "nat m < 100" "nat d < 100" "valid_date y m d"
    using days_in_month_bounds(2) [of y m] by (simp_all add: valid_date_def nat_less_iff)
  show "nat (r div 3600) < 100" "nat (r div 60 mod 60) < 100" "nat (r mod 60) < 100" "nat y < 10000"
    "0 \<le> y" "0 \<le> r" "r < 86400"
    using r y by (simp_all add: nat_less_iff)
  show "format_rfc3339 t = pad_digits 4 (nat y) @ CHR ''-'' # pad_digits 2 (nat m) @ CHR ''-'' # pad_digits 2 (nat d)
         @ CHR ''T'' # pad_digits 2 (nat (r div 3600)) @ CHR '':'' # pad_digits 2 (nat (r div 60 mod 60))
         @ CHR '':'' # pad_digits 2 (nat (r mod 60)) @ ''Z''"
    using y assms by (simp add: format_rfc3339_def format_seconds_def append_year_def Let_def nat_less_iff)
qed

lemma parse_format:
  assumes "four_digit_year t"
  shows "parse_rfc3339 (format_rfc3339 t) = Some (seconds_of t * 1000000000)"
proof -
  obtain y m d where c: "civil (seconds_of t div 86400) = (y, m, d)" by (metis prod_cases3)
  define r where "r = seconds_of t mod 86400"
  note f = format_fields [OF assms c r_def]
  have s: "seconds_of t = day_number y m d * 86400 + r"
    using civil_date(2) [OF c] by (simp add: r_def)
  note r = clock_sum [of r]
  have z: "parse_fraction ''Z'' = (0, ''Z'')" "parse_zone ''Z'' = Some 0"
    by (simp_all add: parse_fraction_def parse_zone_def)
  have n: "int (nat y) = y" "int (nat m) = m" "int (nat d) = d" "int (nat (r div 3600)) = r div 3600"
    "int (nat (r div 60 mod 60)) = r div 60 mod 60" "int (nat (r mod 60)) = r mod 60"
    using f(8-10) by (simp_all add: valid_date_def pos_imp_zdiv_nonneg_iff)
  have b: "r div 3600 \<le> 23" "r div 60 mod 60 \<le> 59" "r mod 60 \<le> 59" using f(11) by simp_all
  have "parse_rfc3339 (format_rfc3339 t)
      = Some ((day_number y m d * 86400 + r div 3600 * 3600 + r div 60 mod 60 * 60 + r mod 60 - 0) * 1000000000 + 0)"
    unfolding f(1) parse_rfc3339_def
    by (simp only: fixed_4 [OF f(2)] fixed_2 [OF f(3)] fixed_2 [OF f(4)] parse_hour_2 [OF f(5)]
        fixed_2 [OF f(6)] fixed_2 [OF f(7)] expect.simps if_True bind.bind_lunit prod.case n z Let_def
        f(9) b simp_thms)
  also have "\<dots> = Some ((day_number y m d * 86400 + r) * 1000000000)"
    using r by (simp only: add.assoc diff_zero add_0_right)
  finally show ?thesis by (simp only: s)
qed

lemma format_less:
  assumes "four_digit_year t" and "four_digit_year t'" and "seconds_of t < seconds_of t'"
  shows "format_rfc3339 t < format_rfc3339 t'"
proof -
  obtain y m d where c: "civil (seconds_of t div 86400) = (y, m, d)" by (metis prod_cases3)
  obtain y' m' d' where c': "civil (seconds_of t' div 86400) = (y', m', d')" by (metis prod_cases3)
  define r r' where "r = seconds_of t mod 86400" and "r' = seconds_of t' mod 86400"
  note f = format_fields [OF assms(1) c r_def(1)] and f' = format_fields [OF assms(2) c' r'_def]
  have "civil (seconds_of t div 86400) = civil (seconds_of t' div 86400) \<and> r < r'
      \<or> seconds_of t div 86400 < seconds_of t' div 86400"
    using assms(3) less_div_mod_int [of 86400 "seconds_of t" "seconds_of t'"]
    unfolding r_def r'_def by auto
  then have lex: "y < y' \<or> y = y' \<and> (m < m' \<or> m = m' \<and> (d < d' \<or> d = d' \<and> r < r'))"
  proof
    assume "seconds_of t div 86400 < seconds_of t' div 86400"
    then have "day_number y m d < day_number y' m' d'" using civil_date(2) c c' by metis
    with day_number_less [OF f'(9) f(9)]
    have "\<not> (y' < y \<or> y' = y \<and> (m' < m \<or> m' = m \<and> d' < d))" "y \<noteq> y' \<or> m \<noteq> m' \<or> d \<noteq> d'" by auto
    then show ?thesis
      by (cases y y' rule: linorder_cases; cases m m' rule: linorder_cases;
          cases d d' rule: linorder_cases) auto
  qed (use c c' in simp)
  have n: "nat a < nat b \<longleftrightarrow> a < b" "nat a = nat b \<longleftrightarrow> a = b" if "0 \<le> a" "0 \<le> b" for a b
    using that by (auto simp: nat_less_eq_zless)
  have nn: "0 \<le> m" "0 \<le> d" "0 \<le> m'" "0 \<le> d'" "0 \<le> r div 3600" "0 \<le> r' div 3600"
    using f(9,10) f'(9,10) by (simp_all add: valid_date_def pos_imp_zdiv_nonneg_iff)
  have field: "(pad_digits w (nat i) < pad_digits w (nat j) \<longleftrightarrow> i < j)
      \<and> (pad_digits w (nat i) = pad_digits w (nat j) \<longleftrightarrow> i = j)"
    if "nat i < 10 ^ w" "nat j < 10 ^ w" "0 \<le> i" "0 \<le> j" for w i j
    using pad_digits_less [OF that(1,2)] n [OF that(3,4)] by simp
  have y: "(pad_digits 4 (nat y) < pad_digits 4 (nat y') \<longleftrightarrow> y < y') \<and> (pad_digits 4 (nat y) = pad_digits 4 (nat y') \<longleftrightarrow> y = y')"
    by (rule field) (use f(2,8) f'(2,8) in simp_all)
  have two: "(pad_digits 2 (nat i) < pad_digits 2 (nat j) \<longleftrightarrow> i < j) \<and> (pad_digits 2 (nat i) = pad_digits 2 (nat j) \<longleftrightarrow> i = j)"
    if "nat i < 100" "nat j < 100" "0 \<le> i" "0 \<le> j" for i j
    by (rule field) (use that in simp_all)
  have "r div 3600 < r' div 3600 \<or> r div 3600 = r' div 3600
     \<and> (r div 60 mod 60 < r' div 60 mod 60 \<or> r div 60 mod 60 = r' div 60 mod 60 \<and> r mod 60 < r' mod 60)"
    if "r < r'" using that by (simp only: clock_less [of r r'])
  with lex show ?thesis
    unfolding f(1) f'(1)
    using y two [OF f(3) f'(3) nn(1,3)] two [OF f(4) f'(4) nn(2,4)] two [OF f(5) f'(5) nn(5,6)]
      two [OF f(6) f'(6)] two [OF f(7) f'(7)]
    by (simp only: append_less pad_digits_length Cons_less_Cons pos_mod_sign zero_less_numeral) blast
qed

end
