(* ===== verification/Store.thy ===== *)
theory Store
  imports GoTime
begin

text \<open>
  The SQLite store (\<open>internal/adapter/sqlitestore\<close>): the column encodings of
  \<open>encode.go\<close>, the tables of the two migrations with their constraints, indexes and
  triggers, and the statements of \<open>agentstore.go\<close> over them.  A text column compares
  byte by byte.  A statement fails when it violates a constraint; failures of the driver or the
  disk are not modelled.  A transaction works on a copy of the tables and is dropped on the first
  error.
\<close>

section \<open>Column encodings (encode.go)\<close>

datatype store_error =
    UpsertFailed agent_id
  | AppendFailed agent_id signal_id
  | BadStrings
  | BadTime string
  | BadProvenance
  | GetFailed agent_id store_error

definition marshal_strings :: "string list \<Rightarrow> string" where
  "marshal_strings ss = (if ss = [] then ''[]'' else marshal (JArr (map JStr ss)))"

definition unmarshal_strings :: "string \<Rightarrow> (store_error, string list) result" where
  "unmarshal_strings s =
     (if s = [] then Inr []
      else case parse_json s of
             None \<Rightarrow> Inl BadStrings
           | Some j \<Rightarrow> (case strings_value j [] of None \<Rightarrow> Inl BadStrings | Some ss \<Rightarrow> Inr ss))"

definition format_time :: "instant \<Rightarrow> string" where
  "format_time t = format_rfc3339 t"

definition parse_time :: "string \<Rightarrow> (store_error, instant) result" where
  "parse_time s = (case parse_rfc3339 s of None \<Rightarrow> Inl (BadTime s) | Some t \<Rightarrow> Inr t)"

definition provenance_fields :: "(string \<times> provenance field_decoder) list" where
  "provenance_fields =
     [(''aimId'', \<lambda>j r. map_option (\<lambda>s. r\<lparr>p_aim_id := s\<rparr>) (string_value j (p_aim_id r))),
      (''evidenceUrl'', \<lambda>j r. map_option (\<lambda>s. r\<lparr>p_evidence_url := s\<rparr>) (string_value j (p_evidence_url r)))]"

definition provenance_json :: "provenance \<Rightarrow> json" where
  "provenance_json p =
     JObj ((''aimId'', JStr (p_aim_id p))
           # (if p_evidence_url p = [] then [] else [(''evidenceUrl'', JStr (p_evidence_url p))]))"

definition marshal_provenance :: "provenance option \<Rightarrow> string option" where
  "marshal_provenance p = map_option (\<lambda>q. marshal (provenance_json q)) p"

definition unmarshal_provenance :: "string option \<Rightarrow> (store_error, provenance option) result" where
  "unmarshal_provenance ns =
     (case ns of
        None \<Rightarrow> Inr None
      | Some s \<Rightarrow>
          if s = [] then Inr None
          else (case unmarshal provenance_fields \<lparr>p_aim_id = [], p_evidence_url = []\<rparr> s of
                  None \<Rightarrow> Inl BadProvenance
                | Some p \<Rightarrow> Inr (Some p)))"

lemma string_elems_JStr: "string_elems (map JStr ss) old = Some ss"
  by (induction ss arbitrary: old) auto

lemma unmarshal_marshal_strings:
  assumes "list_all utf8_valid ss"
  shows "unmarshal_strings (marshal_strings ss) = Inr ss"
proof (cases "ss = []")
  case True
  have "parse_json ''[]'' = Some (JArr [])" by code_simp
  with True show ?thesis by (simp add: marshal_strings_def unmarshal_strings_def)
next
  case False
  have "plain_json 0 (JArr (map JStr ss))"
    using assms by (simp add: max_nesting_def list_all_iff)
  then have "parse_json (marshal (JArr (map JStr ss))) = Some (JArr (map JStr ss))"
    by (rule parse_json_marshal)
  moreover have "marshal (JArr (map JStr ss)) \<noteq> []" by simp
  ultimately show ?thesis
    using False by (simp add: marshal_strings_def unmarshal_strings_def string_elems_JStr del: marshal.simps)
qed

lemma unmarshal_marshal_provenance:
  assumes "\<And>q. p = Some q \<Longrightarrow> utf8_valid (p_aim_id q) \<and> utf8_valid (p_evidence_url q)"
  shows "unmarshal_provenance (marshal_provenance p) = Inr p"
proof (cases p)
  case None
  then show ?thesis by (simp add: marshal_provenance_def unmarshal_provenance_def)
next
  case (Some q)
  have k: "utf8_valid ''aimId'' \<and> utf8_valid ''evidenceUrl''" by code_simp
  have "plain_json 0 (provenance_json q)"
    using assms [OF Some] k by (simp add: provenance_json_def max_nesting_def)
  then have "unmarshal provenance_fields z (marshal (provenance_json q))
      = decode_struct False provenance_fields (provenance_json q) z" for z
    by (rule unmarshal_marshal)
  moreover have "decode_struct False provenance_fields (provenance_json q) \<lparr>p_aim_id = [], p_evidence_url = []\<rparr> = Some q"
    by (cases q) (simp add: decode_struct_def provenance_json_def provenance_fields_def find_field_def)
  moreover have "marshal (provenance_json q) \<noteq> []" by (simp add: provenance_json_def)
  ultimately show ?thesis
    using Some by (simp add: marshal_provenance_def unmarshal_provenance_def)
qed

lemma parse_format_time:
  "four_digit_year t \<Longrightarrow> parse_time (format_time t) = Inr (seconds_of t * 1000000000)"
  by (simp add: parse_time_def format_time_def parse_format)

section \<open>The tables (0001_init.sql, 0002_observations_dedup.sql)\<close>

record agent_row =
  ar_id :: string
  ar_dns_name :: string
  ar_display_name :: string
  ar_description :: string
  ar_provider :: string
  ar_status :: string
  ar_protocols :: string
  ar_transports :: string
  ar_tags :: string
  ar_capabilities :: string
  ar_first_seen :: string
  ar_last_updated :: string

record fts_row =
  fr_id :: string
  fr_dns_name :: string
  fr_display_name :: string
  fr_description :: string
  fr_tags :: string
  fr_capabilities :: string

record obs_row =
  or_id :: nat
  or_agent :: string
  or_signal :: string
  or_observed_at :: string
  or_value :: string
  or_prov :: "string option"

text \<open>The tables, and the next automatic \<open>obs_id\<close>, of which only the order is used.\<close>

record db =
  db_agents :: "agent_row list"
  db_fts :: "fts_row list"
  db_obs :: "obs_row list"
  db_next_obs :: nat

definition empty_db :: db where
  "empty_db = \<lparr>db_agents = [], db_fts = [], db_obs = [], db_next_obs = 1\<rparr>"

definition fts_of :: "agent_row \<Rightarrow> fts_row" where
  "fts_of r =
     \<lparr>fr_id = ar_id r, fr_dns_name = ar_dns_name r, fr_display_name = ar_display_name r,
      fr_description = ar_description r, fr_tags = ar_tags r, fr_capabilities = ar_capabilities r\<rparr>"

text \<open>Trigger \<open>agents_au\<close>: every index row of the agent takes the new texts.\<close>

definition fts_update :: "agent_row \<Rightarrow> fts_row \<Rightarrow> fts_row" where
  "fts_update r f =
     (if fr_id f = ar_id r
      then f\<lparr>fr_dns_name := ar_dns_name r, fr_display_name := ar_display_name r,
             fr_description := ar_description r, fr_tags := ar_tags r,
             fr_capabilities := ar_capabilities r\<rparr>
      else f)"

text \<open>\<open>INSERT INTO agents ... ON CONFLICT(agent_id) DO UPDATE\<close>, with the status check and
  the index triggers.\<close>

definition upsert_row :: "agent_row \<Rightarrow> db \<Rightarrow> db option" where
  "upsert_row r d =
     (if \<not> status_valid (ar_status r) then None
      else if list_ex (\<lambda>x. ar_id x = ar_id r) (db_agents d)
      then Some (d\<lparr>db_agents := map (\<lambda>x. if ar_id x = ar_id r then r else x) (db_agents d),
                   db_fts := map (fts_update r) (db_fts d)\<rparr>)
      else Some (d\<lparr>db_agents := db_agents d @ [r], db_fts := db_fts d @ [fts_of r]\<rparr>))"

text \<open>\<open>INSERT INTO signal_observations ... ON CONFLICT(agent_id, signal_id, observed_at) DO
  NOTHING\<close>, with the foreign key on the agent.\<close>

definition same_key :: "obs_row \<Rightarrow> obs_row \<Rightarrow> bool" where
  "same_key x y \<longleftrightarrow>
     or_agent x = or_agent y \<and> or_signal x = or_signal y \<and> or_observed_at x = or_observed_at y"

definition insert_obs :: "obs_row \<Rightarrow> db \<Rightarrow> db option" where
  "insert_obs r d =
     (if list_ex (same_key r) (db_obs d) then Some d
      else if list_ex (\<lambda>x. ar_id x = or_agent r) (db_agents d)
      then Some (d\<lparr>db_obs := db_obs d @ [r\<lparr>or_id := db_next_obs d\<rparr>], db_next_obs := Suc (db_next_obs d)\<rparr>)
      else None)"

section \<open>The operations (agentstore.go)\<close>

definition row_of_agent :: "agent \<Rightarrow> agent_row" where
  "row_of_agent a =
     \<lparr>ar_id = a_id a, ar_dns_name = a_dns_name a, ar_display_name = a_display_name a,
      ar_description = a_description a, ar_provider = a_provider a, ar_status = a_status a,
      ar_protocols = marshal_strings (a_protocols a), ar_transports = marshal_strings (a_transports a),
      ar_tags = marshal_strings (a_tags a), ar_capabilities = marshal_strings (a_capabilities a),
      ar_first_seen = format_time (a_first_seen a), ar_last_updated = format_time (a_last_updated a)\<rparr>"

definition upsert_agent :: "agent \<Rightarrow> db \<Rightarrow> (store_error, db) result" where
  "upsert_agent a d =
     (case upsert_row (row_of_agent a) d of None \<Rightarrow> Inl (UpsertFailed (a_id a)) | Some d' \<Rightarrow> Inr d')"

definition row_of_obs :: "observation \<Rightarrow> obs_row" where
  "row_of_obs ob =
     \<lparr>or_id = 0, or_agent = o_agent ob, or_signal = o_signal ob,
      or_observed_at = format_time (o_observed_at ob), or_value = o_value ob,
      or_prov = marshal_provenance (o_provenance ob)\<rparr>"

definition append_observation :: "observation \<Rightarrow> db \<Rightarrow> (store_error, db) result" where
  "append_observation ob d =
     (case insert_obs (row_of_obs ob) d of
        None \<Rightarrow> Inl (AppendFailed (o_agent ob) (o_signal ob)) | Some d' \<Rightarrow> Inr d')"

text \<open>The body of a transaction: row after row, stopping at the first error.\<close>

fun run_rows :: "('a \<Rightarrow> 'd \<Rightarrow> ('e, 'd) result) \<Rightarrow> 'a list \<Rightarrow> 'd \<Rightarrow> ('e, 'd) result" where
  "run_rows step [] d = Inr d"
| "run_rows step (x # xs) d = (case step x d of Inl e \<Rightarrow> Inl e | Inr d' \<Rightarrow> run_rows step xs d')"

text \<open>A batch: the tables afterwards and the error, if any; the rollback drops the copy.\<close>

definition in_transaction ::
  "('a \<Rightarrow> 'd \<Rightarrow> ('e, 'd) result) \<Rightarrow> 'a list \<Rightarrow> 'd \<Rightarrow> 'd \<times> 'e option" where
  "in_transaction step xs d =
     (case run_rows step xs d of Inl e \<Rightarrow> (d, Some e) | Inr d' \<Rightarrow> (d', None))"

definition upsert_agents :: "agent list \<Rightarrow> db \<Rightarrow> db \<times> store_error option" where
  "upsert_agents as d = (if as = [] then (d, None) else in_transaction upsert_agent as d)"

definition append_observations :: "observation list \<Rightarrow> db \<Rightarrow> db \<times> store_error option" where
  "append_observations obs d = (if obs = [] then (d, None) else in_transaction append_observation obs d)"

definition scan_agent :: "agent_row \<Rightarrow> (store_error, agent) result" where
  "scan_agent r =
     try_bind (unmarshal_strings (ar_protocols r)) (\<lambda>protocols.
     try_bind (unmarshal_strings (ar_transports r)) (\<lambda>transports.
     try_bind (unmarshal_strings (ar_tags r)) (\<lambda>tags.
     try_bind (unmarshal_strings (ar_capabilities r)) (\<lambda>capabilities.
     try_bind (parse_time (ar_first_seen r)) (\<lambda>first_seen.
     try_bind (parse_time (ar_last_updated r)) (\<lambda>last_updated.
       Inr \<lparr>a_id = ar_id r, a_dns_name = ar_dns_name r, a_display_name = ar_display_name r,
            a_description = ar_description r, a_provider = ar_provider r, a_status = ar_status r,
            a_protocols = protocols, a_transports = transports, a_tags = tags,
            a_capabilities = capabilities, a_first_seen = first_seen,
            a_last_updated = last_updated\<rparr>))))))"

definition get_agent :: "agent_id \<Rightarrow> db \<Rightarrow> (store_error, agent option) result" where
  "get_agent i d =
     (case find (\<lambda>r. ar_id r = i) (db_agents d) of
        None \<Rightarrow> Inr None
      | Some r \<Rightarrow>
          (case scan_agent r of Inl e \<Rightarrow> Inl (GetFailed i e) | Inr a \<Rightarrow> Inr (Some a)))"

text \<open>\<open>ORDER BY observed_at DESC, obs_id DESC\<close>: whether a row comes before another.\<close>

definition newer :: "obs_row \<Rightarrow> obs_row \<Rightarrow> bool" where
  "newer x y \<longleftrightarrow>
     or_observed_at y < or_observed_at x \<or> or_observed_at x = or_observed_at y \<and> or_id y < or_id x"

definition same_pair :: "obs_row \<Rightarrow> obs_row \<Rightarrow> bool" where
  "same_pair x y \<longleftrightarrow> or_agent x = or_agent y \<and> or_signal x = or_signal y"

fun first_in_order :: "obs_row list \<Rightarrow> obs_row option" where
  "first_in_order [] = None"
| "first_in_order (r # rs) =
     (case first_in_order rs of None \<Rightarrow> Some r | Some s \<Rightarrow> Some (if newer s r then s else r))"

definition latest_observation ::
  "agent_id \<Rightarrow> signal_id \<Rightarrow> db \<Rightarrow> (store_error, observation option) result" where
  "latest_observation a s d =
     (case first_in_order (filter (\<lambda>r. or_agent r = a \<and> or_signal r = s) (db_obs d)) of
        None \<Rightarrow> Inr None
      | Some r \<Rightarrow>
          try_bind (parse_time (or_observed_at r)) (\<lambda>t.
          try_bind (unmarshal_provenance (or_prov r)) (\<lambda>p.
            Inr (Some \<lparr>o_agent = or_agent r, o_signal = or_signal r, o_observed_at = t,
                       o_value = or_value r, o_provenance = p\<rparr>))))"

text \<open>\<open>ROW_NUMBER() OVER (PARTITION BY agent_id, signal_id ORDER BY observed_at DESC, obs_id
  DESC)\<close>: one more than the number of rows of the pair that come before.\<close>

definition row_number :: "obs_row list \<Rightarrow> obs_row \<Rightarrow> nat" where
  "row_number rs r = Suc (length (filter (\<lambda>x. same_pair x r \<and> newer x r) rs))"

definition prune_observations :: "int \<Rightarrow> db \<Rightarrow> db \<times> nat" where
  "prune_observations keep d =
     (if keep \<le> 0 then (d, 0)
      else let kept = filter (\<lambda>r. \<not> keep < int (row_number (db_obs d) r)) (db_obs d)
           in (d\<lparr>db_obs := kept\<rparr>, length (db_obs d) - length kept))"

section \<open>Migrations (sqlite.go)\<close>

text \<open>
  The runner records each applied file name.  The embedded directory is \<open>entries\<close> with
  \<open>read\<close>; \<open>exec\<close> runs a script on the schema and fails as a whole.
\<close>

datatype migration_error = ReadFailed string | ApplyFailed string | RecordFailed string

record 's migrated =
  mg_schema :: 's
  mg_versions :: "string list"

definition migration_files :: "string list \<Rightarrow> string list" where
  "migration_files entries = sort (filter (\<lambda>n. has_suffix n ''.sql'') entries)"

text \<open>One migration in its own transaction; the version is a primary key.\<close>

definition apply_migration ::
  "(string \<Rightarrow> string option) \<Rightarrow> (string \<Rightarrow> 's \<Rightarrow> 's option) \<Rightarrow> string \<Rightarrow> 's migrated
   \<Rightarrow> (migration_error, 's migrated) result" where
  "apply_migration read exec name st =
     (case read name of
        None \<Rightarrow> Inl (ReadFailed name)
      | Some script \<Rightarrow>
          (case exec script (mg_schema st) of
             None \<Rightarrow> Inl (ApplyFailed name)
           | Some schema \<Rightarrow>
               if name \<in> set (mg_versions st) then Inl (RecordFailed name)
               else Inr (st\<lparr>mg_schema := schema, mg_versions := mg_versions st @ [name]\<rparr>)))"

text \<open>The loop: the state after the last commit, and the error that stopped it, if any.\<close>

fun migrate_files ::
  "(string \<Rightarrow> string option) \<Rightarrow> (string \<Rightarrow> 's \<Rightarrow> 's option) \<Rightarrow> string list \<Rightarrow> string list \<Rightarrow> 's migrated
   \<Rightarrow> 's migrated \<times> migration_error option" where
  "migrate_files read exec applied [] st = (st, None)"
| "migrate_files read exec applied (f # fs) st =
     (if f \<in> set applied then migrate_files read exec applied fs st
      else case apply_migration read exec f st of
             Inl e \<Rightarrow> (st, Some e)
           | Inr st' \<Rightarrow> migrate_files read exec applied fs st')"

definition migrate ::
  "(string \<Rightarrow> string option) \<Rightarrow> (string \<Rightarrow> 's \<Rightarrow> 's option) \<Rightarrow> string list \<Rightarrow> 's migrated
   \<Rightarrow> 's migrated \<times> migration_error option" where
  "migrate read exec entries st = migrate_files read exec (mg_versions st) (migration_files entries) st"

end
