(* ===== verification/TlEvent.thy ===== *)
theory TlEvent
  imports Store
begin

text \<open>
  Transparency-log events (\<open>internal/tlevent\<close>): the schema shared by the producers, its
  validation, and the loading of a directory of fixtures.  The YAML decoder (with unknown fields
  refused) and the file system are arguments.
\<close>

section \<open>The schema (event.go)\<close>

record tl_endpoint =
  ep_protocol :: string
  ep_transport :: string
  ep_url :: string

record tl_agent =
  ta_host :: string
  ta_version :: string
  ta_name :: string
  ta_description :: string
  ta_protocols :: "string list"
  ta_transports :: "string list"
  ta_tags :: "string list"
  ta_capabilities :: "string list"
  ta_endpoints :: "tl_endpoint list"

record dns_records =
  dn_ans :: string
  dn_ans_badge :: string

record attestations =
  at_server_fingerprint :: string
  at_identity_fingerprint :: string
  at_dns :: dns_records
  at_dnssec_status :: string

record tl_event =
  ev_ans_id :: string
  ev_status :: string
  ev_provider :: string
  ev_first_seen :: string
  ev_last_updated :: string
  ev_agent :: tl_agent
  ev_attestations :: attestations

definition no_attestations :: attestations where
  "no_attestations =
     \<lparr>at_server_fingerprint = [], at_identity_fingerprint = [],
      at_dns = \<lparr>dn_ans = [], dn_ans_badge = []\<rparr>, at_dnssec_status = []\<rparr>"

section \<open>Validation\<close>

definition require_rfc3339 :: "string \<Rightarrow> string \<Rightarrow> string \<Rightarrow> message option" where
  "require_rfc3339 ans_id field raw =
     (if raw = [] then Some [Lit ''tlevent '', Quoted ans_id, Lit '': '', Lit field, Lit '' is required'']
      else if parse_rfc3339 raw = None
      then Some [Lit ''tlevent '', Quoted ans_id, Lit '': '', Lit field, Lit '' '', Quoted raw,
                 Lit '' is not an RFC 3339 timestamp'']
      else None)"

definition validate_event :: "tl_event \<Rightarrow> message option" where
  "validate_event e =
     (if ev_ans_id e = [] then Some [Lit ''tlevent: ansId is required'']
      else if ta_host (ev_agent e) = [] \<or> ta_version (ev_agent e) = [] \<or> ta_name (ev_agent e) = []
      then Some [Lit ''tlevent '', Quoted (ev_ans_id e), Lit '': agent.host, agent.version and agent.name are required'']
      else if \<not> status_valid (ev_status e)
      then Some [Lit ''tlevent '', Quoted (ev_ans_id e), Lit '': status '', Quoted (ev_status e),
                 Lit '' is not a valid lifecycle status'']
      else case require_rfc3339 (ev_ans_id e) ''firstSeen'' (ev_first_seen e) of
             Some err \<Rightarrow> Some err
           | None \<Rightarrow> require_rfc3339 (ev_ans_id e) ''lastUpdated'' (ev_last_updated e))"

text \<open>\<open>decode\<close> is the strict YAML decoder.\<close>

definition parse_event :: "(string \<Rightarrow> (string, tl_event) result) \<Rightarrow> string \<Rightarrow> (message, tl_event) result" where
  "parse_event decode b =
     (case decode b of
        Inl c \<Rightarrow> Inl [Lit ''tlevent: parse: '', Cause c]
      | Inr e \<Rightarrow> (case validate_event e of Some err \<Rightarrow> Inl err | None \<Rightarrow> Inr e))"

section \<open>Loading a directory (load.go)\<close>

text \<open>A directory entry is its name and whether it is a directory; the files are read in the order
  of their names.\<close>

definition yaml_names :: "(string \<times> bool) list \<Rightarrow> string list" where
  "yaml_names entries = sort (map fst (filter (\<lambda>e. \<not> snd e \<and> has_suffix (fst e) ''.yaml'') entries))"

definition load_file ::
  "string \<Rightarrow> (string \<Rightarrow> (string, string) result) \<Rightarrow> (string \<Rightarrow> (message, 'a) result) \<Rightarrow> string
     \<Rightarrow> (message, 'a) result" where
  "load_file pkg read parse name =
     (case read name of
        Inl c \<Rightarrow> Inl [Lit pkg, Lit '': read '', Lit name, Lit '': '', Cause c]
      | Inr b \<Rightarrow> (case parse b of Inl m \<Rightarrow> Inl ([Lit pkg, Lit '': '', Lit name, Lit '': ''] @ m) | Inr x \<Rightarrow> Inr x))"

definition load_dir ::
  "string \<Rightarrow> (string, (string \<times> bool) list) result \<Rightarrow> (string \<Rightarrow> (string, string) result)
     \<Rightarrow> (string \<Rightarrow> (string, tl_event) result) \<Rightarrow> (message, tl_event list) result" where
  "load_dir dir entries read decode =
     (case entries of
        Inl c \<Rightarrow> Inl [Lit ''tlevent: read dir '', Lit dir, Lit '': '', Cause c]
      | Inr es \<Rightarrow> collect (load_file ''tlevent'' read (parse_event decode)) (yaml_names es))"

section \<open>Facts\<close>

definition event_valid :: "tl_event \<Rightarrow> bool" where
  "event_valid e \<longleftrightarrow>
     ev_ans_id e \<noteq> [] \<and> ta_host (ev_agent e) \<noteq> [] \<and> ta_version (ev_agent e) \<noteq> [] \<and> ta_name (ev_agent e) \<noteq> []
     \<and> status_valid (ev_status e)
     \<and> ev_first_seen e \<noteq> [] \<and> parse_rfc3339 (ev_first_seen e) \<noteq> None
     \<and> ev_last_updated e \<noteq> [] \<and> parse_rfc3339 (ev_last_updated e) \<noteq> None"

lemma validate_event_None_iff: "validate_event e = None \<longleftrightarrow> event_valid e"
  by (auto simp: validate_event_def event_valid_def require_rfc3339_def)

lemma parse_event_valid: "parse_event decode b = Inr e \<Longrightarrow> event_valid e"
  by (auto simp: parse_event_def validate_event_None_iff split: sum.splits option.splits)

lemma load_dir_valid:
  assumes "load_dir dir entries read decode = Inr es" and "e \<in> set es"
  shows "event_valid e"
proof -
  obtain xs where "collect (load_file ''tlevent'' read (parse_event decode)) xs = Inr es"
    using assms(1) by (auto simp: load_dir_def split: sum.splits)
  from collect_set [OF this assms(2)] obtain n where "load_file ''tlevent'' read (parse_event decode) n = Inr e"
    by blast
  then obtain b where "parse_event decode b = Inr e"
    by (auto simp: load_file_def split: sum.splits)
  then show ?thesis by (rule parse_event_valid)
qed

definition example_event :: tl_event where
  "example_event =
     \<lparr>ev_ans_id = ''a'', ev_status = ''ACTIVE'', ev_provider = [],
      ev_first_seen = ''2025-01-01T00:00:00Z'', ev_last_updated = ''2025-01-01T00:00:00Z'',
      ev_agent = \<lparr>ta_host = ''h'', ta_version = ''v1'', ta_name = ''n'', ta_description = [],
        ta_protocols = [], ta_transports = [], ta_tags = [], ta_capabilities = [], ta_endpoints = []\<rparr>,
      ev_attestations = no_attestations\<lparr>at_dns := \<lparr>dn_ans = ''v=ans1'', dn_ans_badge = []\<rparr>\<rparr>\<rparr>"

end
