(* ===== verification/GoUrl.thy ===== *)
theory GoUrl
  imports Prelude
begin

text \<open>
  What the program reads of \<open>net/url\<close>: whether \<open>url.Parse\<close> accepts a text, and the
  scheme, the host and the presence of userinfo of the result.  The syntax of the host part
  (ports, bracketed IP literals, host escapes) is the argument \<open>parse_host\<close>, which gives the
  decoded host or \<open>None\<close> for an invalid one; no other part of the parser is left open.
\<close>

record url =
  u_scheme :: string
  u_host :: string
  u_has_user :: bool

text \<open>\<open>strings.Cut\<close> around a byte.\<close>

definition before :: "char \<Rightarrow> string \<Rightarrow> string" where
  "before c s = takeWhile (\<lambda>x. x \<noteq> c) s"

definition after :: "char \<Rightarrow> string \<Rightarrow> string" where
  "after c s = drop 1 (dropWhile (\<lambda>x. x \<noteq> c) s)"

definition ascii_letter :: "char \<Rightarrow> bool" where
  "ascii_letter c \<longleftrightarrow> ascii_lower c \<or> ascii_upper c"

definition hex_byte :: "char \<Rightarrow> bool" where
  "hex_byte c \<longleftrightarrow> ascii_digit c \<or> 97 \<le> ord c \<and> ord c \<le> 102 \<or> 65 \<le> ord c \<and> ord c \<le> 70"

fun escapes_ok :: "string \<Rightarrow> bool" where
  "escapes_ok [] = True"
| "escapes_ok (c # s) =
     (if c = CHR ''%'' then
        (case s of a # b # r \<Rightarrow> hex_byte a \<and> hex_byte b \<and> escapes_ok r | _ \<Rightarrow> False)
      else escapes_ok s)"

definition ctl_byte :: "char \<Rightarrow> bool" where
  "ctl_byte c \<longleftrightarrow> ord c < 32 \<or> ord c = 127"

text \<open>\<open>getScheme\<close>: the scheme and the rest, no scheme, or an error for a leading colon.\<close>

fun scheme_from :: "string \<Rightarrow> string \<Rightarrow> string \<Rightarrow> (string \<times> string) option" where
  "scheme_from seen [] raw = Some ([], raw)"
| "scheme_from seen (c # s) raw =
     (if ascii_letter c then scheme_from (seen @ [c]) s raw
      else if ascii_digit c \<or> c = CHR ''+'' \<or> c = CHR ''-'' \<or> c = CHR ''.'' then
        (if seen = [] then Some ([], raw) else scheme_from (seen @ [c]) s raw)
      else if c = CHR '':'' then (if seen = [] then None else Some (seen, s))
      else Some ([], raw))"

definition lower_byte :: "char \<Rightarrow> char" where
  "lower_byte c = (if ascii_upper c then char_of (ord c + 32) else c)"

definition userinfo_byte :: "char \<Rightarrow> bool" where
  "userinfo_byte c \<longleftrightarrow> ascii_letter c \<or> ascii_digit c \<or> c \<in> set (CHR 0x27 # ''-._:~!$&()*+,;=%@'')"

text \<open>\<open>parseAuthority\<close>: the host, and whether there is userinfo.\<close>

definition parse_authority :: "(string \<Rightarrow> string option) \<Rightarrow> string \<Rightarrow> (string \<times> bool) option" where
  "parse_authority parse_host authority =
     (case split_last (CHR ''@'') authority of
        None \<Rightarrow> map_option (\<lambda>h. (h, False)) (parse_host authority)
      | Some (userinfo, host) \<Rightarrow>
          (case parse_host host of
             None \<Rightarrow> None
           | Some h \<Rightarrow>
               if list_all userinfo_byte userinfo
                  \<and> escapes_ok (before (CHR '':'') userinfo) \<and> escapes_ok (after (CHR '':'') userinfo)
               then Some (h, True) else None))"

text \<open>Without the query: a trailing lone question mark, or everything from the first one.\<close>

definition drop_query :: "string \<Rightarrow> string" where
  "drop_query s = before (CHR ''?'') s"

text \<open>The part of the text in front of the fragment.\<close>

definition parse_no_fragment :: "(string \<Rightarrow> string option) \<Rightarrow> string \<Rightarrow> url option" where
  "parse_no_fragment parse_host raw =
     (if list_ex ctl_byte raw then None
      else if raw = ''*'' then Some \<lparr>u_scheme = [], u_host = [], u_has_user = False\<rparr>
      else case scheme_from [] raw raw of
        None \<Rightarrow> None
      | Some (scheme, r) \<Rightarrow>
          (let sch = map lower_byte scheme; rest = drop_query r in
           if \<not> has_prefix rest ''/'' then
             (if sch \<noteq> [] then Some \<lparr>u_scheme = sch, u_host = [], u_has_user = False\<rparr>
              else if CHR '':'' \<in> set (before (CHR ''/'') rest) then None
              else if escapes_ok rest then Some \<lparr>u_scheme = [], u_host = [], u_has_user = False\<rparr>
              else None)
           else if (sch \<noteq> [] \<or> \<not> has_prefix rest ''///'') \<and> has_prefix rest ''//'' then
             (let authority = before (CHR ''/'') (drop 2 rest);
                  path = dropWhile (\<lambda>x. x \<noteq> CHR ''/'') (drop 2 rest)
              in case parse_authority parse_host authority of
                   None \<Rightarrow> None
                 | Some (h, user) \<Rightarrow>
                     if escapes_ok path
                     then Some \<lparr>u_scheme = sch, u_host = h, u_has_user = user\<rparr> else None)
           else if escapes_ok rest then Some \<lparr>u_scheme = sch, u_host = [], u_has_user = False\<rparr>
           else None))"

definition url_parse :: "(string \<Rightarrow> string option) \<Rightarrow> string \<Rightarrow> url option" where
  "url_parse parse_host raw =
     (case parse_no_fragment parse_host (before (CHR ''#'') raw) of
        None \<Rightarrow> None
      | Some u \<Rightarrow> if escapes_ok (after (CHR ''#'') raw) then Some u else None)"

section \<open>The shape of an accepted absolute URL\<close>

lemma scheme_from_parts:
  "scheme_from seen s raw = Some (scheme, r) \<Longrightarrow> scheme \<noteq> [] \<Longrightarrow> seen @ s = scheme @ CHR '':'' # r"
  by (induction seen s raw rule: scheme_from.induct) (auto split: if_splits)

lemma before_rest:
  obtains t where "s = before c s @ t" and "t = [] \<or> hd t = c"
proof
  show "s = before c s @ dropWhile (\<lambda>x. x \<noteq> c) s" by (simp add: before_def)
  show "dropWhile (\<lambda>x. x \<noteq> c) s = [] \<or> hd (dropWhile (\<lambda>x. x \<noteq> c) s) = c"
    using hd_dropWhile [of "\<lambda>x. x \<noteq> c" s] by blast
qed

text \<open>Scheme, colon, two slashes and an authority that runs to the next slash, question mark or
  hash; its part behind the last at sign is what \<open>parse_host\<close> accepted.\<close>

lemma url_parse_absolute:
  assumes "url_parse parse_host raw = Some u" and "u_scheme u \<noteq> []" and "u_host u \<noteq> []"
  shows "\<exists>scheme authority rest. raw = scheme @ ''://'' @ authority @ rest
    \<and> u_scheme u = map lower_byte scheme
    \<and> (rest = [] \<or> hd rest \<in> {CHR ''/'', CHR ''?'', CHR ''#''})
    \<and> CHR ''/'' \<notin> set authority
    \<and> (u_has_user u \<longleftrightarrow> CHR ''@'' \<in> set authority)
    \<and> (\<not> u_has_user u \<longrightarrow> parse_host authority = Some (u_host u))"
proof -
  let ?raw = "before (CHR ''#'') raw"
  from assms(1) have "parse_no_fragment parse_host ?raw = Some u"
    by (auto simp: url_parse_def split: option.splits if_splits)
  then obtain scheme r h user where sch: "scheme_from [] ?raw ?raw = Some (scheme, r)"
    and pre: "has_prefix (drop_query r) ''//''"
    and auth: "parse_authority parse_host (before (CHR ''/'') (drop 2 (drop_query r))) = Some (h, user)"
    and u: "u = \<lparr>u_scheme = map lower_byte scheme, u_host = h, u_has_user = user\<rparr>"
    using assms(2,3)
    by (auto simp: parse_no_fragment_def Let_def split: option.splits if_splits prod.splits)
  have "scheme \<noteq> []" using assms(2) u by auto
  then have raw1: "?raw = scheme @ CHR '':'' # r" using scheme_from_parts [OF sch] by simp
  obtain q where r: "r = drop_query r @ q" "q = [] \<or> hd q = CHR ''?''"
    unfolding drop_query_def by (rule before_rest)
  obtain x where x: "drop_query r = ''//'' @ x" using pre by (auto simp: has_prefix_iff)
  let ?a = "before (CHR ''/'') x"
  obtain p where p: "x = ?a @ p" "p = [] \<or> hd p = CHR ''/''"
    by (rule before_rest)
  obtain f where f: "raw = ?raw @ f" "f = [] \<or> hd f = CHR ''#''"
    by (rule before_rest)
  have "raw = scheme @ ''://'' @ ?a @ (p @ q @ f)"
    by (subst f(1), subst raw1, subst r(1), subst x, subst p(1)) simp
  moreover have "p @ q @ f = [] \<or> hd (p @ q @ f) \<in> {CHR ''/'', CHR ''?'', CHR ''#''}"
    using p(2) r(2) f(2) by (cases p; cases q; cases f) auto
  moreover have "CHR ''/'' \<notin> set ?a" by (auto simp: before_def dest: set_takeWhileD)
  moreover have "(user \<longleftrightarrow> CHR ''@'' \<in> set ?a) \<and> (\<not> user \<longrightarrow> parse_host ?a = Some h)"
    using auth x split_last_None_iff [of "CHR ''@''" ?a] split_last_SomeD [of "CHR ''@''" ?a]
    by (fastforce simp: parse_authority_def split: option.splits if_splits prod.splits)
  ultimately show ?thesis using u by auto
qed

end
