(* ===== verification/RaSync.thy ===== *)
theory RaSync
  imports TlEvent GoUrl
begin

text \<open>
  The RA event feed and its producer (\<open>internal/raclient\<close>, \<open>internal/rasync\<close>): draining
  the feed page by page, folding lifecycle events into the current set of agents, enriching every
  agent with its transparency-log badge, and writing the fixtures.  The HTTP fetches are
  arguments; the iteration order of Go maps is the argument \<open>order\<close>.
\<close>

section \<open>The feed (raclient)\<close>

record ra_endpoint =
  re_url :: string
  re_protocol :: string
  re_transports :: "string list"

record event_item =
  it_event_type :: string
  it_created_at :: string
  it_agent :: string
  it_ans_name :: string
  it_host :: string
  it_display_name :: string
  it_description :: string
  it_version :: string
  it_endpoints :: "ra_endpoint list"

record event_page =
  pg_items :: "event_item list"
  pg_last_log_id :: string

definition EventTypeAgentRegistered :: string where "EventTypeAgentRegistered = ''AGENT_REGISTERED''"
definition EventTypeAgentRenewed :: string where "EventTypeAgentRenewed = ''AGENT_RENEWED''"
definition EventTypeAgentRevoked :: string where "EventTypeAgentRevoked = ''AGENT_REVOKED''"
definition EventTypeAgentDeprecated :: string where "EventTypeAgentDeprecated = ''AGENT_DEPRECATED''"

lemmas event_type_defs = EventTypeAgentRegistered_def EventTypeAgentRenewed_def
  EventTypeAgentRevoked_def EventTypeAgentDeprecated_def

definition reached_end :: "string \<Rightarrow> event_page \<Rightarrow> bool" where
  "reached_end prev p \<longleftrightarrow> pg_last_log_id p = [] \<or> pg_last_log_id p = prev \<or> pg_items p = []"

section \<open>Folding (fold.go)\<close>

definition max_feed_pages :: nat where "max_feed_pages = 10000"

record folded_agent =
  fa_id :: string
  fa_ans_name :: string
  fa_host :: string
  fa_version :: string
  fa_display_name :: string
  fa_description :: string
  fa_status :: string
  fa_first_seen :: string
  fa_last_updated :: string
  fa_endpoints :: "ra_endpoint list"

definition zero_folded :: folded_agent where
  "zero_folded =
     \<lparr>fa_id = [], fa_ans_name = [], fa_host = [], fa_version = [], fa_display_name = [],
      fa_description = [], fa_status = [], fa_first_seen = [], fa_last_updated = [], fa_endpoints = []\<rparr>"

definition status_for_event_type :: "string \<Rightarrow> status" where
  "status_for_event_type t =
     (if t = EventTypeAgentRegistered \<or> t = EventTypeAgentRenewed then StatusActive
      else if t = EventTypeAgentRevoked then StatusRevoked
      else if t = EventTypeAgentDeprecated then StatusDeprecated else [])"

type_synonym agent_set = "string \<rightharpoonup> folded_agent"

text \<open>A field is overwritten only when the event carries a value.\<close>

definition or_keep :: "'a list \<Rightarrow> 'a list \<Rightarrow> 'a list" where
  "or_keep new old = (if new = [] then old else new)"

definition fold_into :: "event_item \<Rightarrow> folded_agent \<Rightarrow> folded_agent" where
  "fold_into it fa =
     \<lparr>fa_id = it_agent it, fa_ans_name = or_keep (it_ans_name it) (fa_ans_name fa),
      fa_host = or_keep (it_host it) (fa_host fa), fa_version = or_keep (it_version it) (fa_version fa),
      fa_display_name = or_keep (it_display_name it) (fa_display_name fa),
      fa_description = or_keep (it_description it) (fa_description fa),
      fa_status = status_for_event_type (it_event_type it),
      fa_first_seen =
        (if it_event_type it = EventTypeAgentRegistered \<and> fa_first_seen fa = [] \<and> it_created_at it \<noteq> []
         then it_created_at it else fa_first_seen fa),
      fa_last_updated = or_keep (it_created_at it) (fa_last_updated fa),
      fa_endpoints = or_keep (it_endpoints it) (fa_endpoints fa)\<rparr>"

definition recognized :: "event_item \<Rightarrow> bool" where
  "recognized it \<longleftrightarrow> status_for_event_type (it_event_type it) \<noteq> [] \<and> it_agent it \<noteq> []"

definition apply_event :: "event_item \<Rightarrow> agent_set \<Rightarrow> agent_set" where
  "apply_event it agents =
     (if status_for_event_type (it_event_type it) = [] \<or> it_agent it = [] then agents
      else agents(it_agent it \<mapsto>
             fold_into it (case agents (it_agent it) of Some fa \<Rightarrow> fa | None \<Rightarrow> zero_folded)))"

text \<open>\<open>fetch cursor\<close> is one page of the feed; \<open>n\<close> pages are left.\<close>

fun drain_pages ::
  "int \<Rightarrow> (string \<Rightarrow> (message, event_page) result) \<Rightarrow> nat \<Rightarrow> string \<Rightarrow> agent_set \<Rightarrow> (message, agent_set) result" where
  "drain_pages psize fetch 0 cursor agents =
     Inl [Lit ''rasync: feed did not terminate after '', Num (int max_feed_pages), Lit '' pages (pageSize='',
          Num psize, Lit ''); aborting unbounded drain'']"
| "drain_pages psize fetch (Suc n) cursor agents =
     (case fetch cursor of
        Inl m \<Rightarrow> Inl ([Lit ''rasync: fetch events (cursor='', Quoted cursor, Lit ''): ''] @ m)
      | Inr page \<Rightarrow>
          (let agents' = fold apply_event (pg_items page) agents
           in if reached_end cursor page then Inr agents'
              else drain_pages psize fetch n (pg_last_log_id page) agents'))"

definition drain_and_fold ::
  "int \<Rightarrow> (string \<Rightarrow> (message, event_page) result) \<Rightarrow> (message, agent_set) result" where
  "drain_and_fold psize fetch = drain_pages psize fetch max_feed_pages [] Map.empty"

section \<open>Projection (rasync.go)\<close>

definition default_feed_page_size :: int where "default_feed_page_size = 100"
definition max_feed_page_size :: int where "max_feed_page_size = 200"

definition normalize_page_size :: "int \<Rightarrow> int" where
  "normalize_page_size n =
     (if n \<le> 0 then default_feed_page_size else if max_feed_page_size < n then max_feed_page_size else n)"

definition protocols_of :: "ra_endpoint list \<Rightarrow> string list" where
  "protocols_of eps = dedupe_from [] (filter (\<lambda>p. p \<noteq> []) (map re_protocol eps))"

definition transports_of :: "ra_endpoint list \<Rightarrow> string list" where
  "transports_of eps = dedupe_from [] (filter (\<lambda>t. t \<noteq> []) (concat (map re_transports eps)))"

definition project_endpoints :: "ra_endpoint list \<Rightarrow> tl_endpoint list" where
  "project_endpoints eps =
     concat (map (\<lambda>e.
       if re_transports e = [] then
         (if re_protocol e = [] \<and> re_url e = [] then []
          else [\<lparr>ep_protocol = re_protocol e, ep_transport = [], ep_url = re_url e\<rparr>])
       else map (\<lambda>t. \<lparr>ep_protocol = re_protocol e, ep_transport = t, ep_url = re_url e\<rparr>) (re_transports e)) eps)"

text \<open>\<open>badge\<close> is the transparency-log event when the fetch succeeded.\<close>

definition to_event :: "folded_agent \<Rightarrow> tl_event option \<Rightarrow> tl_event" where
  "to_event fa badge =
     (let name = (if fa_display_name fa = [] then fa_host fa else fa_display_name fa);
          ag = \<lparr>ta_host = fa_host fa, ta_version = fa_version fa, ta_name = name,
                ta_description = fa_description fa, ta_protocols = protocols_of (fa_endpoints fa),
                ta_transports = transports_of (fa_endpoints fa), ta_tags = [], ta_capabilities = [],
                ta_endpoints = project_endpoints (fa_endpoints fa)\<rparr>;
          ev0 = \<lparr>ev_ans_id = fa_id fa, ev_status = fa_status fa, ev_provider = [], ev_first_seen = [],
                 ev_last_updated = fa_last_updated fa, ev_agent = ag, ev_attestations = no_attestations\<rparr>;
          ev1 = (case badge of
                   None \<Rightarrow> ev0
                 | Some b \<Rightarrow>
                     ev0\<lparr>ev_status := or_keep (ev_status b) (ev_status ev0),
                         ev_first_seen := ev_first_seen b, ev_attestations := ev_attestations b,
                         ev_agent := ag\<lparr>ta_host := or_keep (ta_host (ev_agent b)) (ta_host ag),
                                        ta_version := or_keep (ta_version (ev_agent b)) (ta_version ag)\<rparr>\<rparr>);
          ev2 = (if ev_first_seen ev1 = [] then ev1\<lparr>ev_first_seen := fa_first_seen fa\<rparr> else ev1)
      in if ev_last_updated ev2 = [] then ev2\<lparr>ev_last_updated := ev_first_seen ev2\<rparr> else ev2)"

text \<open>\<open>strings.Map\<close> over the characters: an invalid byte counts as one, so every byte sequence
  of a character outside the safe set becomes one underscore.\<close>

definition safe_byte :: "char \<Rightarrow> bool" where
  "safe_byte c \<longleftrightarrow> ascii_letter c \<or> ascii_digit c \<or> c \<in> set ''-_.''"

function safe_runes :: "string \<Rightarrow> string" where
  "safe_runes s =
     (case s of
        [] \<Rightarrow> []
      | c # r \<Rightarrow> if safe_byte c then c # safe_runes r
                 else CHR ''_'' # safe_runes (drop (max 1 (rune_width s)) s))"
  by auto
termination
  by (relation "measure length") (auto simp: neq_Nil_conv)

declare safe_runes.simps [simp del]

definition safe_file_name :: "string \<Rightarrow> string" where
  "safe_file_name s = (if s = [] then ''unnamed'' else safe_runes s)"

section \<open>One run\<close>

text \<open>The directory \<open>tl-events\<close>: its entries by name.  Failures to create, list or clear it are
  not modelled; \<open>disk name\<close> is the failure of writing a file, if any.\<close>

datatype dir_item = Fixture tl_event | OtherFile | Subdirectory

type_synonym fixture_dir = "string \<rightharpoonup> dir_item"

definition prepare_out_dir :: "fixture_dir \<Rightarrow> fixture_dir" where
  "prepare_out_dir d =
     (\<lambda>name. if d name = Some Subdirectory \<or> \<not> has_suffix name ''.yaml'' then d name else None)"

definition fixture_name :: "tl_event \<Rightarrow> string" where
  "fixture_name ev = safe_file_name (ev_ans_id ev) @ ''.yaml''"

definition write_fixture ::
  "(string \<Rightarrow> string option) \<Rightarrow> tl_event \<Rightarrow> fixture_dir \<Rightarrow> (message, fixture_dir) result" where
  "write_fixture disk ev d =
     (case disk (fixture_name ev) of
        Some c \<Rightarrow> Inl [Lit ''write '', Lit (fixture_name ev), Lit '': '', Cause c]
      | None \<Rightarrow> Inr (d(fixture_name ev \<mapsto> Fixture ev)))"

datatype badge_error = Cancelled string | BadgeMiss string

record sync_summary =
  sy_captured :: int
  sy_tl_errors :: int
  sy_drops :: int

definition zero_summary :: sync_summary where
  "zero_summary = \<lparr>sy_captured = 0, sy_tl_errors = 0, sy_drops = 0\<rparr>"

type_synonym badge_fetch = "string \<Rightarrow> (badge_error, tl_event) result"

text \<open>The loop over the agents: the counts, the directory and the error that ended it, if any.\<close>

fun sync_agents ::
  "badge_fetch \<Rightarrow> (string \<Rightarrow> string option) \<Rightarrow> int \<Rightarrow> (string \<times> folded_agent) list
     \<Rightarrow> sync_summary \<Rightarrow> fixture_dir \<Rightarrow> sync_summary \<times> fixture_dir \<times> message option" where
  "sync_agents fetch disk n_all [] s d = (s, d, None)"
| "sync_agents fetch disk n_all ((i, fa) # rest) s d =
     (case fetch i of
        Inl (Cancelled c) \<Rightarrow>
          (s, d, Some [Lit ''rasync: tl enrichment aborted after '', Num (sy_captured s), Lit ''/'', Num n_all,
                       Lit '' agents: '', Cause c])
      | outcome \<Rightarrow>
          (let badge = (case outcome of Inr b \<Rightarrow> Some b | Inl _ \<Rightarrow> None);
               s1 = (if badge = None then s\<lparr>sy_tl_errors := sy_tl_errors s + 1\<rparr> else s);
               ev = to_event fa badge
           in if validate_event ev \<noteq> None
              then sync_agents fetch disk n_all rest (s1\<lparr>sy_drops := sy_drops s1 + 1\<rparr>) d
              else case write_fixture disk ev d of
                     Inl m \<Rightarrow> (s1, d, Some ([Lit ''rasync: write '', Lit (ev_ans_id ev), Lit '': ''] @ m))
                   | Inr d' \<Rightarrow>
                       sync_agents fetch disk n_all rest (s1\<lparr>sy_captured := sy_captured s1 + 1\<rparr>) d'))"

definition run_sync ::
  "int \<Rightarrow> (string \<Rightarrow> (message, event_page) result) \<Rightarrow> badge_fetch \<Rightarrow> (string \<Rightarrow> string option)
     \<Rightarrow> (agent_set \<Rightarrow> (string \<times> folded_agent) list) \<Rightarrow> fixture_dir
     \<Rightarrow> sync_summary \<times> fixture_dir \<times> message option" where
  "run_sync psize feed fetch disk order d =
     (case drain_and_fold (normalize_page_size psize) feed of
        Inl e \<Rightarrow> (zero_summary, d, Some e)
      | Inr agents \<Rightarrow>
          (let pairs = order agents; n_all = int (length pairs)
           in if n_all = 0
              then (zero_summary, d, Some [Lit ''rasync: feed returned no agents in the retention window; refusing to produce an empty fixture set''])
              else (case sync_agents fetch disk n_all pairs zero_summary (prepare_out_dir d) of
                      (s, d', Some e) \<Rightarrow> (s, d', Some e)
                    | (s, d', None) \<Rightarrow>
                        if sy_tl_errors s = n_all
                        then (s, d', Some [Lit ''rasync: all '', Num n_all, Lit '' TL fetches failed; refusing all-degraded capture''])
                        else if sy_captured s = 0
                        then (s, d', Some [Lit ''rasync: '', Num n_all, Lit '' folded agents but 0 written; refusing to produce empty snapshot''])
                        else (s, d', None))))"

end
