(* ===== verification/GoText.thy ===== *)
theory GoText
  imports GoUrl GoTime "HOL-Library.List_Lexorder" "HOL-Library.Char_ord"
begin

text \<open>
  Text encodings of Go's standard library that the read API uses: \<open>base64.RawURLEncoding\<close>
  (page tokens), \<open>url.Values\<close> with \<open>url.ParseQuery\<close> and \<open>Values.Encode\<close> (query
  strings and pagination links), and \<open>strings.Fields\<close> (free-text search).  Each pair of a
  writer and a reader comes with its round trip.
\<close>

section \<open>base64.RawURLEncoding\<close>

definition b64_char :: "nat \<Rightarrow> char" where
  "b64_char n =
     (if n < 26 then char_of (65 + n) else if n < 52 then char_of (71 + n)
      else if n < 62 then char_of (n - 4) else if n = 62 then CHR ''-'' else CHR ''_'')"

definition b64_value :: "char \<Rightarrow> nat option" where
  "b64_value c =
     (if ascii_upper c then Some (ord c - 65) else if ascii_lower c then Some (ord c - 71)
      else if ascii_digit c then Some (ord c + 4)
      else if c = CHR ''-'' then Some 62 else if c = CHR ''_'' then Some 63 else None)"

fun b64_encode :: "string \<Rightarrow> string" where
  "b64_encode [] = []"
| "b64_encode [a] = [b64_char (ord a div 4), b64_char (ord a mod 4 * 16)]"
| "b64_encode [a, b] =
     [b64_char (ord a div 4), b64_char (ord a mod 4 * 16 + ord b div 16), b64_char (ord b mod 16 * 4)]"
| "b64_encode (a # b # c # s) =
     b64_char (ord a div 4) # b64_char (ord a mod 4 * 16 + ord b div 16)
     # b64_char (ord b mod 16 * 4 + ord c div 64) # b64_char (ord c mod 64) # b64_encode s"

text \<open>The bytes of a sequence of six-bit values; spare low bits of the last one are dropped (the
  decoder is not strict).\<close>

fun b64_bytes :: "nat list \<Rightarrow> string option" where
  "b64_bytes [] = Some []"
| "b64_bytes [a] = None"
| "b64_bytes [a, b] = Some [char_of (a * 4 + b div 16)]"
| "b64_bytes [a, b, c] = Some [char_of (a * 4 + b div 16), char_of (b mod 16 * 16 + c div 4)]"
| "b64_bytes (a # b # c # d # s) =
     map_option (\<lambda>t. char_of (a * 4 + b div 16) # char_of (b mod 16 * 16 + c div 4)
                       # char_of (c mod 4 * 64 + d) # t) (b64_bytes s)"

text \<open>Carriage returns and line feeds are skipped, any other byte outside the alphabet (padding
  included) is an error.\<close>

definition b64_decode :: "string \<Rightarrow> string option" where
  "b64_decode s =
     (case those (map b64_value (filter (\<lambda>c. c \<noteq> CHR 0x0D \<and> c \<noteq> CHR 0x0A) s)) of
        None \<Rightarrow> None | Some vs \<Rightarrow> b64_bytes vs)"

lemma b64_value_char:
  assumes "n < 64"
  shows "b64_value (b64_char n) = Some n" and "b64_char n \<noteq> CHR 0x0D" and "b64_char n \<noteq> CHR 0x0A"
proof -
  have o: "ord (b64_char n)
      = (if n < 26 then 65 + n else if n < 52 then 71 + n else if n < 62 then n - 4
         else if n = 62 then 45 else 95)"
    using assms by (simp add: b64_char_def)
  have eq: "b64_char n = c \<longleftrightarrow> ord (b64_char n) = ord c" for c by auto
  show "b64_char n \<noteq> CHR 0x0D" "b64_char n \<noteq> CHR 0x0A"
    unfolding eq using o by (simp_all split: if_splits)
  show "b64_value (b64_char n) = Some n"
    unfolding b64_value_def eq ascii_upper_def ascii_lower_def ascii_digit_def o
    using assms by auto
qed

fun b64_values :: "string \<Rightarrow> nat list" where
  "b64_values [] = []"
| "b64_values [a] = [ord a div 4, ord a mod 4 * 16]"
| "b64_values [a, b] = [ord a div 4, ord a mod 4 * 16 + ord b div 16, ord b mod 16 * 4]"
| "b64_values (a # b # c # s) =
     ord a div 4 # (ord a mod 4 * 16 + ord b div 16) # (ord b mod 16 * 4 + ord c div 64)
     # (ord c mod 64) # b64_values s"

lemma ord_less: "ord c < 256"
  using nat_of_char_less_256 [of c] by simp

lemma ord_div_less: "256 \<le> k * n \<Longrightarrow> ord c div n < k"
  using ord_less [of c] by (intro less_mult_imp_div_less) (rule less_le_trans)

lemma b64_values_small: "v \<in> set (b64_values s) \<Longrightarrow> v < 64"
proof (induction s rule: b64_values.induct)
  case (2 a)
  then show ?case using ord_div_less [of 64 4 a] by auto
next
  case (3 a b)
  then show ?case using ord_div_less [of 64 4 a] ord_div_less [of 16 16 b] by auto
next
  case (4 a b c s)
  then show ?case using ord_div_less [of 64 4 a] ord_div_less [of 16 16 b] ord_div_less [of 4 64 c] by auto
qed simp

lemma b64_encode_values: "b64_encode s = map b64_char (b64_values s)"
  by (induction s rule: b64_encode.induct) simp_all

lemma char_of_ord_eq: "n = ord c \<Longrightarrow> char_of n = c"
  by simp

lemma b64_bytes_values: "b64_bytes (b64_values s) = Some s"
proof (induction s rule: b64_values.induct)
  case (3 a b)
  have "ord b div 16 < 16" using ord_div_less [of 16 16 b] by simp
  then show ?case by simp
next
  case (4 a b c s)
  have "ord b div 16 < 16" "ord c div 64 < 4"
    using ord_div_less [of 16 16 b] ord_div_less [of 4 64 c] by simp_all
  with 4 show ?case by simp
qed simp_all

lemma those_map_Some: "(\<And>x. x \<in> set xs \<Longrightarrow> f x = Some (g x)) \<Longrightarrow> those (map f xs) = Some (map g xs)"
  by (induction xs) simp_all

lemma b64_decode_encode: "b64_decode (b64_encode s) = Some s"
proof -
  have "filter (\<lambda>c. c \<noteq> CHR 0x0D \<and> c \<noteq> CHR 0x0A) (b64_encode s) = b64_encode s"
    unfolding b64_encode_values using b64_value_char(2,3) b64_values_small
    by (intro filter_True) auto
  moreover have "those (map b64_value (b64_encode s)) = Some (b64_values s)"
    unfolding b64_encode_values map_map using b64_value_char(1) b64_values_small
    by (subst those_map_Some [where g = "\<lambda>v. v"]) auto
  ultimately show ?thesis by (simp add: b64_decode_def b64_bytes_values)
qed

section \<open>url.Values\<close>

text \<open>
  A multimap from keys to values, as the list of its pairs in the order in which the values of a key
  were added.
\<close>

type_synonym url_values = "(string \<times> string) list"

definition values_all :: "url_values \<Rightarrow> string \<Rightarrow> string list" where
  "values_all vs key = map snd (filter (\<lambda>p. fst p = key) vs)"

definition values_get :: "url_values \<Rightarrow> string \<Rightarrow> string" where
  "values_get vs key = (case values_all vs key of [] \<Rightarrow> [] | v # _ \<Rightarrow> v)"

definition values_add :: "string \<Rightarrow> string \<Rightarrow> url_values \<Rightarrow> url_values" where
  "values_add key v vs = vs @ [(key, v)]"

definition values_del :: "string \<Rightarrow> url_values \<Rightarrow> url_values" where
  "values_del key vs = filter (\<lambda>p. fst p \<noteq> key) vs"

definition values_set :: "string \<Rightarrow> string \<Rightarrow> url_values \<Rightarrow> url_values" where
  "values_set key v vs = values_del key vs @ [(key, v)]"

text \<open>\<open>url.QueryEscape\<close> and \<open>url.QueryUnescape\<close>.\<close>

definition query_plain :: "char \<Rightarrow> bool" where
  "query_plain c \<longleftrightarrow> ascii_letter c \<or> ascii_digit c \<or> c \<in> set ''-_.~''"

definition upper_hex :: "nat \<Rightarrow> char" where
  "upper_hex n = (if n < 10 then char_of (48 + n) else char_of (55 + n))"

fun query_escape :: "string \<Rightarrow> string" where
  "query_escape [] = []"
| "query_escape (c # s) =
     (if query_plain c then c # query_escape s
      else if c = CHR '' '' then CHR ''+'' # query_escape s
      else CHR ''%'' # upper_hex (ord c div 16) # upper_hex (ord c mod 16) # query_escape s)"

fun query_unescape :: "string \<Rightarrow> string option" where
  "query_unescape [] = Some []"
| "query_unescape (c # s) =
     (if c = CHR ''%'' then
        (case s of
           a # b # r \<Rightarrow>
             (case (hex_value a, hex_value b) of
                (Some x, Some y) \<Rightarrow> map_option (Cons (char_of (16 * x + y))) (query_unescape r)
              | _ \<Rightarrow> None)
         | _ \<Rightarrow> None)
      else map_option (Cons (if c = CHR ''+'' then CHR '' '' else c)) (query_unescape s))"

text \<open>\<open>url.ParseQuery\<close> as \<open>URL.Query\<close> calls it: pieces between ampersands; a piece with
  a semicolon or a bad escape is skipped.  (Recent releases also refuse a query of more than ten
  thousand pieces, which is not modelled.)\<close>

definition query_piece :: "string \<Rightarrow> url_values" where
  "query_piece piece =
     (if piece = [] \<or> CHR '';'' \<in> set piece then []
      else case (query_unescape (before (CHR ''='') piece), query_unescape (after (CHR ''='') piece)) of
             (Some k, Some v) \<Rightarrow> [(k, v)]
           | _ \<Rightarrow> [])"

lemma length_after: "s \<noteq> [] \<Longrightarrow> length (after c s) < length s"
  by (cases s) (auto simp: after_def intro: le_imp_less_Suc diff_le_self order_trans length_dropWhile_le)

function parse_query :: "string \<Rightarrow> url_values" where
  "parse_query s =
     (if s = [] then []
      else query_piece (before (CHR ''&'') s) @ parse_query (after (CHR ''&'') s))"
  by auto
termination
  by (relation "measure length") (auto intro: length_after)

declare parse_query.simps [simp del]

text \<open>\<open>Values.Encode\<close>: sorted by key.\<close>

definition query_pair :: "string \<times> string \<Rightarrow> string" where
  "query_pair p = query_escape (fst p) @ ''='' @ query_escape (snd p)"

definition encode_values :: "url_values \<Rightarrow> string" where
  "encode_values vs = join_with ''&'' (map query_pair (sort_key fst vs))"

lemma upper_hex_ord: "n < 16 \<Longrightarrow> ord (upper_hex n) = (if n < 10 then 48 + n else 55 + n)"
  by (simp add: upper_hex_def)

lemma hex_value_upper:
  assumes "n < 16"
  shows "hex_value (upper_hex n) = Some n"
  using upper_hex_ord [OF assms] assms by (auto simp: hex_value_def go_defs)

lemma query_plain_not: "query_plain c \<Longrightarrow> c \<notin> set ''%+&;= ''"
  by (auto simp: query_plain_def ascii_letter_def go_defs)

lemma query_unescape_escape: "query_unescape (query_escape s) = Some s"
proof (induction s)
  case Nil
  show ?case by simp
next
  case (Cons c s)
  have "hex_value (upper_hex (ord c div 16)) = Some (ord c div 16)"
    "hex_value (upper_hex (ord c mod 16)) = Some (ord c mod 16)"
    using ord_div_less [of 16 16 c] by (simp_all add: hex_value_upper)
  then show ?case using Cons query_plain_not [of c] by auto
qed

lemma upper_hex_plain:
  assumes "n < 16"
  shows "upper_hex n \<notin> set ''&;=''"
  using upper_hex_ord [OF assms] by (auto split: if_splits)

lemma query_escape_safe: "c \<in> set (query_escape s) \<Longrightarrow> c \<notin> set ''&;=''"
proof (induction s)
  case Nil
  then show ?case by simp
next
  case (Cons d s)
  have "ord d div 16 < 16" "ord d mod 16 < 16" using ord_div_less [of 16 16 d] by simp_all
  with Cons upper_hex_plain [of "ord d div 16"] upper_hex_plain [of "ord d mod 16"] query_plain_not [of d]
  show ?case by (auto split: if_splits)
qed

lemma before_append: "c \<notin> set a \<Longrightarrow> before c (a @ c # b) = a"
  by (induction a) (auto simp: before_def)

lemma after_append: "c \<notin> set a \<Longrightarrow> after c (a @ c # b) = b"
  by (induction a) (auto simp: after_def)

lemma before_self: "c \<notin> set a \<Longrightarrow> before c a = a"
  by (induction a) (auto simp: before_def)

lemma after_self: "c \<notin> set a \<Longrightarrow> after c a = []"
  by (induction a) (auto simp: after_def)

lemma query_piece_pair: "query_piece (query_pair p) = [p]"
proof -
  have "CHR '';'' \<notin> set (query_pair p)" "CHR ''='' \<notin> set (query_escape (fst p))"
    using query_escape_safe by (fastforce simp: query_pair_def)+
  then show ?thesis
    by (simp add: query_piece_def query_pair_def before_append after_append query_unescape_escape)
qed

lemma query_pair_no_amp: "CHR ''&'' \<notin> set (query_pair p)"
  using query_escape_safe by (fastforce simp: query_pair_def)

lemma parse_query_join: "parse_query (join_with ''&'' (map query_pair ps)) = ps"
proof (induction ps)
  case Nil
  show ?case by (simp add: parse_query.simps)
next
  case (Cons p ps)
  have ne: "query_pair p \<noteq> []" by (simp add: query_pair_def)
  show ?case
  proof (cases ps)
    case Nil
    then show ?thesis using ne query_pair_no_amp [of p]
      by (simp add: parse_query.simps [of "query_pair p"] parse_query.simps [of "[]"] before_self after_self
          query_piece_pair)
  next
    case (Cons q qs)
    then have "join_with ''&'' (map query_pair (p # ps))
        = query_pair p @ CHR ''&'' # join_with ''&'' (map query_pair ps)" by simp
    then show ?thesis
      using Cons.IH query_pair_no_amp [of p]
      by (subst parse_query.simps) (simp add: before_append after_append query_piece_pair)
  qed
qed

lemma parse_encode_values: "parse_query (encode_values vs) = sort_key fst vs"
  by (simp add: encode_values_def parse_query_join)

text \<open>Reading a query string back gives every key its values in their order.\<close>

lemma values_all_sort: "values_all (sort_key fst vs) key = values_all vs key"
  by (simp add: values_all_def sort_key_stable)

lemma values_all_round_trip: "values_all (parse_query (encode_values vs)) key = values_all vs key"
  by (simp add: parse_encode_values values_all_sort)

lemma values_all_append: "values_all (vs @ ws) key = values_all vs key @ values_all ws key"
  by (simp add: values_all_def)

lemma values_all_map_pair: "values_all (map (Pair k) ss) key = (if key = k then ss else [])"
  by (induction ss) (auto simp: values_all_def)

lemma values_all_del: "values_all (values_del k vs) key = (if key = k then [] else values_all vs key)"
  by (induction vs) (auto simp: values_all_def values_del_def)

section \<open>strings.Fields\<close>

text \<open>The width of the white space character (\<open>unicode.IsSpace\<close>) at the head, 0 if there is none.\<close>

definition space_width :: "string \<Rightarrow> nat" where
  "space_width s =
     (case s of
        [] \<Rightarrow> 0
      | c # _ \<Rightarrow>
          if 9 \<le> ord c \<and> ord c \<le> 13 \<or> ord c = 32 then 1
          else if take 2 s \<in> {[CHR 0xC2, CHR 0x85], [CHR 0xC2, CHR 0xA0]} then 2
          else if take 3 s = [CHR 0xE1, CHR 0x9A, CHR 0x80]
               \<or> take 2 s = [CHR 0xE2, CHR 0x80]
                 \<and> (\<exists>x \<in> set (take 1 (drop 2 s)). 128 \<le> ord x \<and> ord x \<le> 138 \<or> ord x \<in> {168, 169, 175})
               \<or> take 3 s \<in> {[CHR 0xE2, CHR 0x81, CHR 0x9F], [CHR 0xE3, CHR 0x80, CHR 0x80]} then 3
          else 0)"

text \<open>Rune after rune, with the field read so far.\<close>

function fields_from :: "string \<Rightarrow> string \<Rightarrow> string list" where
  "fields_from cur s =
     (if s = [] then (if cur = [] then [] else [cur])
      else if 0 < space_width s then
        (if cur = [] then [] else [cur]) @ fields_from [] (drop (space_width s) s)
      else (let n = max 1 (rune_width s) in fields_from (cur @ take n s) (drop n s)))"
  by auto
termination
  by (relation "measure (\<lambda>(cur, s). length s)") (auto simp: Let_def)

declare fields_from.simps [simp del]

definition strings_fields :: "string \<Rightarrow> string list" where
  "strings_fields s = fields_from [] s"

lemma fields_from_nonempty: "f \<in> set (fields_from cur s) \<Longrightarrow> f \<noteq> []"
proof (induction cur s rule: fields_from.induct)
  case (1 cur s)
  from 1(3) show ?case
    by (subst (asm) fields_from.simps) (auto simp: Let_def split: if_splits dest: 1(1,2))
qed

end
