(* ===== verification/TlClient.thy ===== *)
theory TlClient
  imports TlEvent GoText
begin

text \<open>
  The transparency-log client (\<open>internal/tlclient\<close>): the request it issues, the bounded read,
  the choice of the schema, and the projection of both badge schemas onto an event.  The HTTP
  exchange is the argument \<open>get\<close>.  The exchange and the bounded read are shared with the other two
  clients, which the code declares again.
\<close>

section \<open>The request\<close>

text \<open>\<open>url.PathEscape\<close>, and the escaping of \<open>URL.Path\<close> when the URL is written out.\<close>

definition segment_plain :: "char \<Rightarrow> bool" where
  "segment_plain c \<longleftrightarrow> query_plain c \<or> c \<in> set ''$&+:=@''"

definition path_plain :: "char \<Rightarrow> bool" where
  "path_plain c \<longleftrightarrow> segment_plain c \<or> c \<in> set ''/;,''"

definition percent :: "char \<Rightarrow> string" where
  "percent c = [CHR ''%'', upper_hex (ord c div 16), upper_hex (ord c mod 16)]"

definition escape_with :: "(char \<Rightarrow> bool) \<Rightarrow> string \<Rightarrow> string" where
  "escape_with plain s = concat (map (\<lambda>c. if plain c then [c] else percent c) s)"

fun path_unescape :: "string \<Rightarrow> string option" where
  "path_unescape [] = Some []"
| "path_unescape (c # s) =
     (if c = CHR ''%'' then
        (case s of
           a # b # r \<Rightarrow>
             (case (hex_value a, hex_value b) of
                (Some x, Some y) \<Rightarrow> map_option (Cons (char_of (16 * x + y))) (path_unescape r)
              | _ \<Rightarrow> None)
         | _ \<Rightarrow> None)
      else map_option (Cons c) (path_unescape s))"

definition trim_right_slash :: "string \<Rightarrow> string" where
  "trim_right_slash s = rev (dropWhile (\<lambda>c. c = CHR ''/'') (rev s))"

text \<open>A parsed base URL without userinfo, query and fragment.\<close>

record base_url =
  bu_scheme :: string
  bu_authority :: string
  bu_path :: string

definition base_text :: "base_url \<Rightarrow> string" where
  "base_text b = bu_scheme b @ ''://'' @ bu_authority b"

text \<open>The path that is sent: \<open>base.Path\<close> is set to a text that holds the escaped id, and writing
  the URL escapes that text.\<close>

definition badge_path :: "string \<Rightarrow> string \<Rightarrow> string" where
  "badge_path base_path ans_id =
     escape_with path_plain (trim_right_slash base_path @ ''/v1/agents/'' @ escape_with segment_plain ans_id)"

section \<open>The V1 badge\<close>

record tl_response =
  tr_ans_id :: string
  tr_issued_at :: string
  tr_timestamp :: string
  tr_host :: string
  tr_version :: string
  tr_name :: string
  tr_server_fp :: string
  tr_identity_fp :: string
  tr_dns :: "string \<rightharpoonup> string"
  tr_dnssec :: string
  tr_status :: string

definition zero_response :: tl_response where
  "zero_response =
     \<lparr>tr_ans_id = [], tr_issued_at = [], tr_timestamp = [], tr_host = [], tr_version = [], tr_name = [],
      tr_server_fp = [], tr_identity_fp = [], tr_dns = Map.empty, tr_dnssec = [], tr_status = []\<rparr>"

text \<open>A \<open>map[string]string\<close> field.\<close>

fun string_members :: "(string \<times> json) list \<Rightarrow> (string \<rightharpoonup> string) \<Rightarrow> (string \<rightharpoonup> string) option" where
  "string_members [] m = Some m"
| "string_members ((k, j) # ms) m =
     (case string_value j [] of None \<Rightarrow> None | Some s \<Rightarrow> string_members ms (m(k \<mapsto> s)))"

definition string_map_value :: "json \<Rightarrow> (string \<rightharpoonup> string) \<Rightarrow> (string \<rightharpoonup> string) option" where
  "string_map_value j old =
     (case j of JObj ms \<Rightarrow> string_members ms old | JNull \<Rightarrow> Some Map.empty | _ \<Rightarrow> None)"

definition nested :: "(string \<times> 'r field_decoder) list \<Rightarrow> 'r field_decoder" where
  "nested fs j r = decode_struct False fs j r"

definition event_agent_fields :: "(string \<times> tl_response field_decoder) list" where
  "event_agent_fields =
     [(''host'', \<lambda>j r. map_option (\<lambda>s. r\<lparr>tr_host := s\<rparr>) (string_value j (tr_host r))),
      (''version'', \<lambda>j r. map_option (\<lambda>s. r\<lparr>tr_version := s\<rparr>) (string_value j (tr_version r))),
      (''name'', \<lambda>j r. map_option (\<lambda>s. r\<lparr>tr_name := s\<rparr>) (string_value j (tr_name r)))]"

definition attestation_fields :: "(string \<times> tl_response field_decoder) list" where
  "attestation_fields =
     [(''serverCert'', nested [(''fingerprint'',
         \<lambda>j r. map_option (\<lambda>s. r\<lparr>tr_server_fp := s\<rparr>) (string_value j (tr_server_fp r)))]),
      (''identityCert'', nested [(''fingerprint'',
         \<lambda>j r. map_option (\<lambda>s. r\<lparr>tr_identity_fp := s\<rparr>) (string_value j (tr_identity_fp r)))]),
      (''dnsRecordsProvisioned'', \<lambda>j r. map_option (\<lambda>m. r\<lparr>tr_dns := m\<rparr>) (string_map_value j (tr_dns r))),
      (''dnssecStatus'', \<lambda>j r. map_option (\<lambda>s. r\<lparr>tr_dnssec := s\<rparr>) (string_value j (tr_dnssec r)))]"

definition event_fields :: "(string \<times> tl_response field_decoder) list" where
  "event_fields =
     [(''ansId'', \<lambda>j r. map_option (\<lambda>s. r\<lparr>tr_ans_id := s\<rparr>) (string_value j (tr_ans_id r))),
      (''issuedAt'', \<lambda>j r. map_option (\<lambda>s. r\<lparr>tr_issued_at := s\<rparr>) (string_value j (tr_issued_at r))),
      (''timestamp'', \<lambda>j r. map_option (\<lambda>s. r\<lparr>tr_timestamp := s\<rparr>) (string_value j (tr_timestamp r))),
      (''agent'', nested event_agent_fields), (''attestations'', nested attestation_fields)]"

definition response_fields :: "(string \<times> tl_response field_decoder) list" where
  "response_fields =
     [(''payload'', nested [(''producer'', nested [(''event'', nested event_fields)])]),
      (''status'', \<lambda>j r. map_option (\<lambda>s. r\<lparr>tr_status := s\<rparr>) (string_value j (tr_status r)))]"

text \<open>\<open>normalizeRFC3339\<close>: without what stands between the first point and the zone.\<close>

definition normalize_rfc3339 :: "string \<Rightarrow> string" where
  "normalize_rfc3339 s =
     (if s = [] then []
      else if CHR ''.'' \<notin> set s then s
      else before (CHR ''.'') s @ dropWhile (\<lambda>c. c \<notin> set ''Z+-'') (after (CHR ''.'') s))"

definition lookup_dns :: "(string \<rightharpoonup> string) \<Rightarrow> string \<Rightarrow> string" where
  "lookup_dns m k = (case m k of None \<Rightarrow> [] | Some v \<Rightarrow> v)"

definition map_event :: "tl_response \<Rightarrow> tl_event" where
  "map_event r =
     \<lparr>ev_ans_id = tr_ans_id r, ev_status = tr_status r, ev_provider = [],
      ev_first_seen = normalize_rfc3339 (tr_issued_at r),
      ev_last_updated = normalize_rfc3339 (tr_timestamp r),
      ev_agent = \<lparr>ta_host = tr_host r, ta_version = tr_version r, ta_name = tr_name r, ta_description = [],
        ta_protocols = [], ta_transports = [], ta_tags = [], ta_capabilities = [], ta_endpoints = []\<rparr>,
      ev_attestations = \<lparr>at_server_fingerprint = tr_server_fp r, at_identity_fingerprint = tr_identity_fp r,
        at_dns = \<lparr>dn_ans = lookup_dns (tr_dns r) (''_ans.'' @ tr_host r),
                  dn_ans_badge = lookup_dns (tr_dns r) (''_ans-badge.'' @ tr_host r)\<rparr>,
        at_dnssec_status = tr_dnssec r\<rparr>\<rparr>"

section \<open>The V2 badge (v2.go)\<close>

record tl_cert_v2 =
  ct_fingerprint :: string
  ct_not_after :: string

record tl_response_v2 =
  vr_ans_id :: string
  vr_issued_at :: string
  vr_timestamp :: string
  vr_host :: string
  vr_version :: string
  vr_name :: string
  vr_server_certs :: "tl_cert_v2 list"
  vr_identity_certs :: "tl_cert_v2 list"
  vr_dns :: "(string \<times> string) list"
  vr_dnssec :: string
  vr_status :: string

definition zero_response_v2 :: tl_response_v2 where
  "zero_response_v2 =
     \<lparr>vr_ans_id = [], vr_issued_at = [], vr_timestamp = [], vr_host = [], vr_version = [], vr_name = [],
      vr_server_certs = [], vr_identity_certs = [], vr_dns = [], vr_dnssec = [], vr_status = []\<rparr>"

text \<open>A slice of structs: element by element over the slice held so far.\<close>

fun struct_elems :: "'r field_decoder \<Rightarrow> 'r \<Rightarrow> json list \<Rightarrow> 'r list \<Rightarrow> 'r list option" where
  "struct_elems dec zero [] old = Some []"
| "struct_elems dec zero (j # js) old =
     (case dec j (case old of [] \<Rightarrow> zero | x # _ \<Rightarrow> x) of
        None \<Rightarrow> None | Some x \<Rightarrow> map_option (Cons x) (struct_elems dec zero js (tl old)))"

definition structs_value :: "'r field_decoder \<Rightarrow> 'r \<Rightarrow> json \<Rightarrow> 'r list \<Rightarrow> 'r list option" where
  "structs_value dec zero j old =
     (case j of JArr js \<Rightarrow> struct_elems dec zero js old | JNull \<Rightarrow> Some [] | _ \<Rightarrow> None)"

definition cert_value :: "tl_cert_v2 field_decoder" where
  "cert_value =
     nested [(''fingerprint'', \<lambda>j c. map_option (\<lambda>s. c\<lparr>ct_fingerprint := s\<rparr>) (string_value j (ct_fingerprint c))),
             (''notAfter'', \<lambda>j c. map_option (\<lambda>s. c\<lparr>ct_not_after := s\<rparr>) (string_value j (ct_not_after c)))]"

definition dns_record_value :: "(string \<times> string) field_decoder" where
  "dns_record_value =
     nested [(''name'', \<lambda>j d. map_option (\<lambda>s. (s, snd d)) (string_value j (fst d))),
             (''data'', \<lambda>j d. map_option (\<lambda>s. (fst d, s)) (string_value j (snd d)))]"

definition zero_cert :: tl_cert_v2 where
  "zero_cert = \<lparr>ct_fingerprint = [], ct_not_after = []\<rparr>"

definition response_fields_v2 :: "(string \<times> tl_response_v2 field_decoder) list" where
  "response_fields_v2 =
     [(''payload'', nested [(''producer'', nested [(''event'', nested
        [(''ansId'', \<lambda>j r. map_option (\<lambda>s. r\<lparr>vr_ans_id := s\<rparr>) (string_value j (vr_ans_id r))),
         (''issuedAt'', \<lambda>j r. map_option (\<lambda>s. r\<lparr>vr_issued_at := s\<rparr>) (string_value j (vr_issued_at r))),
         (''timestamp'', \<lambda>j r. map_option (\<lambda>s. r\<lparr>vr_timestamp := s\<rparr>) (string_value j (vr_timestamp r))),
         (''agent'', nested
           [(''host'', \<lambda>j r. map_option (\<lambda>s. r\<lparr>vr_host := s\<rparr>) (string_value j (vr_host r))),
            (''version'', \<lambda>j r. map_option (\<lambda>s. r\<lparr>vr_version := s\<rparr>) (string_value j (vr_version r))),
            (''name'', \<lambda>j r. map_option (\<lambda>s. r\<lparr>vr_name := s\<rparr>) (string_value j (vr_name r)))]),
         (''attestations'', nested
           [(''serverCerts'', \<lambda>j r. map_option (\<lambda>cs. r\<lparr>vr_server_certs := cs\<rparr>)
               (structs_value cert_value zero_cert j (vr_server_certs r))),
            (''identityCerts'', \<lambda>j r. map_option (\<lambda>cs. r\<lparr>vr_identity_certs := cs\<rparr>)
               (structs_value cert_value zero_cert j (vr_identity_certs r))),
            (''dnsRecordsProvisioned'', \<lambda>j r. map_option (\<lambda>ds. r\<lparr>vr_dns := ds\<rparr>)
               (structs_value dns_record_value ([], []) j (vr_dns r))),
            (''dnssecStatus'', \<lambda>j r. map_option (\<lambda>s. r\<lparr>vr_dnssec := s\<rparr>) (string_value j (vr_dnssec r)))])])])]),
      (''status'', \<lambda>j r. map_option (\<lambda>s. r\<lparr>vr_status := s\<rparr>) (string_value j (vr_status r)))]"

text \<open>The certificate with the newest \<open>notAfter\<close>; the best one so far and its time are carried
  through the loop.\<close>

definition newer_cert :: "tl_cert_v2 \<Rightarrow> tl_cert_v2 \<times> instant option \<Rightarrow> tl_cert_v2 \<times> instant option" where
  "newer_cert c best =
     (case parse_rfc3339 (ct_not_after c) of
        None \<Rightarrow> best
      | Some t \<Rightarrow>
          (case snd best of None \<Rightarrow> (c, Some t) | Some b \<Rightarrow> if b < t then (c, Some t) else best))"

definition primary_cert_fingerprint :: "tl_cert_v2 list \<Rightarrow> string" where
  "primary_cert_fingerprint certs =
     (case certs of [] \<Rightarrow> [] | c # _ \<Rightarrow> ct_fingerprint (fst (fold newer_cert certs (c, None))))"

definition map_event_v2 :: "tl_response_v2 \<Rightarrow> tl_event" where
  "map_event_v2 r =
     (let dns = fold (\<lambda>d m. m(fst d \<mapsto> snd d)) (vr_dns r) Map.empty
      in \<lparr>ev_ans_id = vr_ans_id r, ev_status = vr_status r, ev_provider = [],
          ev_first_seen = normalize_rfc3339 (vr_issued_at r),
          ev_last_updated = normalize_rfc3339 (vr_timestamp r),
          ev_agent = \<lparr>ta_host = vr_host r, ta_version = vr_version r, ta_name = vr_name r, ta_description = [],
            ta_protocols = [], ta_transports = [], ta_tags = [], ta_capabilities = [], ta_endpoints = []\<rparr>,
          ev_attestations = \<lparr>at_server_fingerprint = primary_cert_fingerprint (vr_server_certs r),
            at_identity_fingerprint = primary_cert_fingerprint (vr_identity_certs r),
            at_dns = \<lparr>dn_ans = lookup_dns dns (''_ans.'' @ vr_host r),
                      dn_ans_badge = lookup_dns dns (''_ans-badge.'' @ vr_host r)\<rparr>,
            at_dnssec_status = vr_dnssec r\<rparr>\<rparr>)"

section \<open>Fetch\<close>

text \<open>What the exchange can end in; the text of a refusal is as the error quotes it, and a body may
  break off while it is read.\<close>

datatype reply = NoRequest string | NoAnswer string | Reply int string | BrokenReply int string

type_synonym http_exchange = "string \<Rightarrow> reply"

definition max_response_body_bytes :: nat where
  "max_response_body_bytes = 33554432"

text \<open>The body of an answer 200 within the cap, for the client named \<open>pkg\<close>.\<close>

definition fetch_body :: "string \<Rightarrow> http_exchange \<Rightarrow> string \<Rightarrow> (message, string) result" where
  "fetch_body pkg get u =
     (case get u of
        NoRequest c \<Rightarrow> Inl [Lit pkg, Lit '': build request: '', Cause c]
      | NoAnswer c \<Rightarrow> Inl [Lit pkg, Lit '': get '', Lit u, Lit '': '', Cause c]
      | Reply status body \<Rightarrow>
          if status \<noteq> 200
          then Inl [Lit pkg, Lit '': get '', Lit u, Lit '' returned '', Num status, Lit '': '', Cause body]
          else if length body > max_response_body_bytes
          then Inl [Lit pkg, Lit '': response body exceeds size cap'']
          else Inr body
      | BrokenReply status c \<Rightarrow>
          if status \<noteq> 200
          then Inl [Lit pkg, Lit '': get '', Lit u, Lit '' returned '', Num status, Lit '': '', Cause []]
          else Inl [Lit pkg, Lit '': read response: '', Cause c])"

definition decode_badge :: "string \<Rightarrow> (message, tl_event) result" where
  "decode_badge raw =
     (let bad = Inl [Lit ''tlclient: decode response: '', Cause ''json'']
      in case unmarshal [(''schemaVersion'', string_value)] [] raw of
           None \<Rightarrow> bad
         | Some version \<Rightarrow>
             if version = ''V2''
             then (case unmarshal response_fields_v2 zero_response_v2 raw of
                     None \<Rightarrow> bad | Some r \<Rightarrow> Inr (map_event_v2 r))
             else (case unmarshal response_fields zero_response raw of
                     None \<Rightarrow> bad | Some r \<Rightarrow> Inr (map_event r)))"

definition badge_url :: "base_url \<Rightarrow> string \<Rightarrow> string" where
  "badge_url b ans_id = base_text b @ badge_path (bu_path b) ans_id"

definition fetch_badge :: "http_exchange \<Rightarrow> base_url \<Rightarrow> string \<Rightarrow> (message, tl_event) result" where
  "fetch_badge get b ans_id =
     (if strings_fields ans_id = [] then Inl [Lit ''tlclient: ansId is required'']
      else case fetch_body ''tlclient'' get (badge_url b ans_id) of
             Inl m \<Rightarrow> Inl m
           | Inr body \<Rightarrow> decode_badge body)"

end
