(* ===== verification/RaClient.thy ===== *)
theory RaClient
  imports RaSync TlClient
begin

text \<open>
  The client of the RA event feed (\<open>internal/raclient\<close>): the request of one page, the bounded
  read and the decoding of the page.  The base URL is given by its scheme and authority (its path
  is replaced by the code); the HTTP exchange is the argument \<open>get\<close>.
\<close>

section \<open>The request\<close>

definition feed_query :: "string \<Rightarrow> nat \<Rightarrow> url_values" where
  "feed_query after_log_id n =
     (let q = values_set ''limit'' (itoa n) []
      in if after_log_id = [] then q else values_set ''lastLogId'' after_log_id q)"

definition feed_url :: "base_url \<Rightarrow> string \<Rightarrow> nat \<Rightarrow> string" where
  "feed_url b after_log_id n =
     base_text b @ ''/v1/agents/events?'' @ encode_values (feed_query after_log_id n)"

section \<open>Decoding a page\<close>

text \<open>A field that the producer does not use is decoded for its type only.\<close>

definition ignored_text :: "'r field_decoder" where
  "ignored_text j r = map_option (\<lambda>_. r) (string_value j [])"

definition ignored_texts :: "'r field_decoder" where
  "ignored_texts j r = map_option (\<lambda>_. r) (strings_value j [])"

definition function_value :: "unit field_decoder" where
  "function_value = nested [(''id'', ignored_text), (''name'', ignored_text), (''tags'', ignored_texts)]"

definition zero_ra_endpoint :: ra_endpoint where
  "zero_ra_endpoint = \<lparr>re_url = [], re_protocol = [], re_transports = []\<rparr>"

definition ra_endpoint_value :: "ra_endpoint field_decoder" where
  "ra_endpoint_value =
     nested [(''agentUrl'', \<lambda>j r. map_option (\<lambda>s. r\<lparr>re_url := s\<rparr>) (string_value j (re_url r))),
             (''metaDataUrl'', ignored_text), (''documentationUrl'', ignored_text),
             (''protocol'', \<lambda>j r. map_option (\<lambda>s. r\<lparr>re_protocol := s\<rparr>) (string_value j (re_protocol r))),
             (''functions'', \<lambda>j r. map_option (\<lambda>_. r) (structs_value function_value () j [])),
             (''transports'', \<lambda>j r. map_option (\<lambda>s. r\<lparr>re_transports := s\<rparr>) (strings_value j (re_transports r)))]"

definition zero_item :: event_item where
  "zero_item =
     \<lparr>it_event_type = [], it_created_at = [], it_agent = [], it_ans_name = [], it_host = [], it_display_name = [],
      it_description = [], it_version = [], it_endpoints = []\<rparr>"

definition item_value :: "event_item field_decoder" where
  "item_value =
     nested [(''logId'', ignored_text),
       (''eventType'', \<lambda>j r. map_option (\<lambda>s. r\<lparr>it_event_type := s\<rparr>) (string_value j (it_event_type r))),
       (''createdAt'', \<lambda>j r. map_option (\<lambda>s. r\<lparr>it_created_at := s\<rparr>) (string_value j (it_created_at r))),
       (''agentId'', \<lambda>j r. map_option (\<lambda>s. r\<lparr>it_agent := s\<rparr>) (string_value j (it_agent r))),
       (''ansName'', \<lambda>j r. map_option (\<lambda>s. r\<lparr>it_ans_name := s\<rparr>) (string_value j (it_ans_name r))),
       (''agentHost'', \<lambda>j r. map_option (\<lambda>s. r\<lparr>it_host := s\<rparr>) (string_value j (it_host r))),
       (''agentDisplayName'', \<lambda>j r. map_option (\<lambda>s. r\<lparr>it_display_name := s\<rparr>) (string_value j (it_display_name r))),
       (''agentDescription'', \<lambda>j r. map_option (\<lambda>s. r\<lparr>it_description := s\<rparr>) (string_value j (it_description r))),
       (''version'', \<lambda>j r. map_option (\<lambda>s. r\<lparr>it_version := s\<rparr>) (string_value j (it_version r))),
       (''providerId'', ignored_text),
       (''endpoints'', \<lambda>j r. map_option (\<lambda>es. r\<lparr>it_endpoints := es\<rparr>)
          (structs_value ra_endpoint_value zero_ra_endpoint j (it_endpoints r)))]"

definition page_fields :: "(string \<times> event_page field_decoder) list" where
  "page_fields =
     [(''items'', \<lambda>j r. map_option (\<lambda>is. r\<lparr>pg_items := is\<rparr>) (structs_value item_value zero_item j (pg_items r))),
      (''lastLogId'', \<lambda>j r. map_option (\<lambda>s. r\<lparr>pg_last_log_id := s\<rparr>) (string_value j (pg_last_log_id r)))]"

section \<open>One page\<close>

definition fetch_events :: "http_exchange \<Rightarrow> base_url \<Rightarrow> nat \<Rightarrow> string \<Rightarrow> (message, event_page) result" where
  "fetch_events get b n after_log_id =
     (case fetch_body ''raclient'' get (feed_url b after_log_id n) of
        Inl m \<Rightarrow> Inl m
      | Inr body \<Rightarrow>
          (case unmarshal page_fields \<lparr>pg_items = [], pg_last_log_id = []\<rparr> body of
             None \<Rightarrow> Inl [Lit ''raclient: decode response: '', Cause ''json'']
           | Some page \<Rightarrow> Inr page))"

end
