(* ===== verification/AtdClient.thy ===== *)
theory AtdClient
  imports RaClient
begin

text \<open>
  The read-only client of the search API (\<open>internal/atdclient\<close>): the first request, the walk
  along the \<open>next\<close> links with its page cap, origin check and limit, and the decoding of a page.
  The HTTP exchange is the argument \<open>get\<close>, the host syntax of \<open>net/url\<close> is \<open>parse_host\<close>, and
  \<open>resolve cur href\<close> is the text of an href resolved against the current URL (\<open>None\<close> when it does
  not parse): how \<open>net/url\<close> writes a URL out again is not modelled.
\<close>

section \<open>Options and the first request\<close>

record search_opts =
  so_query :: string
  so_keyword_extraction :: bool
  so_keyword_algorithm :: string
  so_provider_ids :: "string list"
  so_agent_domains :: "string list"
  so_protocols :: "string list"
  so_transports :: "string list"
  so_tags :: "string list"
  so_capabilities :: "string list"
  so_profile :: string
  so_page_size :: int
  so_limit :: int

definition set_text :: "string \<Rightarrow> string \<Rightarrow> url_values \<Rightarrow> url_values" where
  "set_text k v q = (if v = [] then q else values_set k v q)"

definition add_texts :: "string \<Rightarrow> string list \<Rightarrow> url_values \<Rightarrow> url_values" where
  "add_texts k vs q = fold (values_add k) vs q"

definition search_values :: "search_opts \<Rightarrow> url_values" where
  "search_values opts =
     (let q1 = set_text ''query'' (so_query opts) [];
          q2 = (if so_keyword_extraction opts then values_set ''keywordExtraction'' ''true'' q1 else q1);
          q3 = set_text ''keywordAlgorithm'' (so_keyword_algorithm opts) q2;
          q4 = add_texts ''providerIds'' (so_provider_ids opts) q3;
          q5 = add_texts ''agentDomains'' (so_agent_domains opts) q4;
          q6 = add_texts ''protocols'' (so_protocols opts) q5;
          q7 = add_texts ''transports'' (so_transports opts) q6;
          q8 = add_texts ''tags'' (so_tags opts) q7;
          q9 = add_texts ''capabilities'' (so_capabilities opts) q8;
          q10 = set_text ''profile'' (so_profile opts) q9
      in if 0 < so_page_size opts then values_set ''pageSize'' (itoa (nat (so_page_size opts))) q10 else q10)"

definition first_url :: "base_url \<Rightarrow> search_opts \<Rightarrow> string" where
  "first_url b opts =
     (let q = encode_values (search_values opts)
      in base_text b @ escape_with path_plain (trim_right_slash (bu_path b) @ ''/v1/ans/registered-agents'')
           @ (if q = [] then [] else CHR ''?'' # q))"

section \<open>Decoding a page\<close>

record found_agent =
  ga_id :: string
  ga_provider :: string
  ga_description :: string
  ga_status :: string
  ga_endpoints :: "ra_endpoint list"

record page_link =
  pl_rel :: string
  pl_href :: string

record search_results =
  sr_items :: "found_agent list"
  sr_links :: "page_link list"

definition zero_found :: found_agent where
  "zero_found = \<lparr>ga_id = [], ga_provider = [], ga_description = [], ga_status = [], ga_endpoints = []\<rparr>"

definition found_endpoint_value :: "ra_endpoint field_decoder" where
  "found_endpoint_value =
     nested [(''agentUrl'', \<lambda>j r. map_option (\<lambda>s. r\<lparr>re_url := s\<rparr>) (string_value j (re_url r))),
             (''metaDataUrl'', ignored_text),
             (''protocol'', \<lambda>j r. map_option (\<lambda>s. r\<lparr>re_protocol := s\<rparr>) (string_value j (re_protocol r))),
             (''transports'', \<lambda>j r. map_option (\<lambda>s. r\<lparr>re_transports := s\<rparr>) (strings_value j (re_transports r)))]"

definition found_agent_value :: "found_agent field_decoder" where
  "found_agent_value =
     nested [(''agentId'', \<lambda>j r. map_option (\<lambda>s. r\<lparr>ga_id := s\<rparr>) (string_value j (ga_id r))),
       (''providerId'', \<lambda>j r. map_option (\<lambda>s. r\<lparr>ga_provider := s\<rparr>) (string_value j (ga_provider r))),
       (''ansName'', ignored_text), (''agentHost'', ignored_text), (''agentDisplayName'', ignored_text),
       (''agentDescription'', \<lambda>j r. map_option (\<lambda>s. r\<lparr>ga_description := s\<rparr>) (string_value j (ga_description r))),
       (''agentVersion'', ignored_text), (''indexedAt'', ignored_text), (''expiresAt'', ignored_text),
       (''lifecycle'', nested [(''status'',
          \<lambda>j r. map_option (\<lambda>s. r\<lparr>ga_status := s\<rparr>) (string_value j (ga_status r)))]),
       (''endpoints'', \<lambda>j r. map_option (\<lambda>es. r\<lparr>ga_endpoints := es\<rparr>)
          (structs_value found_endpoint_value zero_ra_endpoint j (ga_endpoints r)))]"

definition page_link_value :: "page_link field_decoder" where
  "page_link_value =
     nested [(''rel'', \<lambda>j r. map_option (\<lambda>s. r\<lparr>pl_rel := s\<rparr>) (string_value j (pl_rel r))),
             (''method'', ignored_text),
             (''href'', \<lambda>j r. map_option (\<lambda>s. r\<lparr>pl_href := s\<rparr>) (string_value j (pl_href r)))]"

definition search_results_fields :: "(string \<times> search_results field_decoder) list" where
  "search_results_fields =
     [(''items'', \<lambda>j r. map_option (\<lambda>as. r\<lparr>sr_items := as\<rparr>)
         (structs_value found_agent_value zero_found j (sr_items r))),
      (''links'', \<lambda>j r. map_option (\<lambda>ls. r\<lparr>sr_links := ls\<rparr>)
         (structs_value page_link_value \<lparr>pl_rel = [], pl_href = []\<rparr> j (sr_links r)))]"

definition fetch_page :: "http_exchange \<Rightarrow> string \<Rightarrow> (message, search_results) result" where
  "fetch_page get u =
     (case fetch_body ''atdclient'' get u of
        Inl m \<Rightarrow> Inl m
      | Inr body \<Rightarrow>
          (case unmarshal search_results_fields \<lparr>sr_items = [], sr_links = []\<rparr> body of
             None \<Rightarrow> Inl [Lit ''atdclient: decode response: '', Cause ''json'']
           | Some r \<Rightarrow> Inr r))"

section \<open>The walk\<close>

definition max_pages_walk :: nat where
  "max_pages_walk = 1000"

definition same_origin :: "(string \<Rightarrow> string option) \<Rightarrow> url \<Rightarrow> string \<Rightarrow> bool" where
  "same_origin parse_host base u \<longleftrightarrow>
     (case url_parse parse_host u of
        None \<Rightarrow> False
      | Some nu \<Rightarrow> fold_name (u_scheme nu) = fold_name (u_scheme base)
                   \<and> fold_name (u_host nu) = fold_name (u_host base))"

definition assert_same_origin :: "(string \<Rightarrow> string option) \<Rightarrow> url \<Rightarrow> string \<Rightarrow> message option" where
  "assert_same_origin parse_host base u =
     (case url_parse parse_host u of
        None \<Rightarrow> Some [Lit ''atdclient: parse next href: '', Cause ''url'']
      | Some nu \<Rightarrow>
          if same_origin parse_host base u then None
          else Some [Lit ''atdclient: next href host does not match baseURL: next='', Lit (u_host nu),
                     Lit '' base='', Lit (u_host base)])"

text \<open>The first link named \<open>next\<close>; an empty href, or one that does not parse, ends the walk.\<close>

definition next_href :: "(string \<Rightarrow> string \<Rightarrow> string option) \<Rightarrow> page_link list \<Rightarrow> string \<Rightarrow> string" where
  "next_href resolve links cur =
     (case find (\<lambda>l. pl_rel l = ''next'') links of
        None \<Rightarrow> []
      | Some l \<Rightarrow> if pl_href l = [] then [] else (case resolve cur (pl_href l) of None \<Rightarrow> [] | Some t \<Rightarrow> t))"

text \<open>The loop: \<open>fuel\<close> pages are left, \<open>got\<close> are the agents collected.  The second component is the
  list of the URLs that were requested, in order.\<close>

fun walk ::
  "(string \<Rightarrow> string option) \<Rightarrow> (string \<Rightarrow> string \<Rightarrow> string option) \<Rightarrow> http_exchange \<Rightarrow> url \<Rightarrow> int \<Rightarrow> nat
     \<Rightarrow> string \<Rightarrow> found_agent list \<Rightarrow> (message, found_agent list) result \<times> string list" where
  "walk parse_host resolve get base cap fuel [] got = (Inr got, [])"
| "walk parse_host resolve get base cap 0 (c # cs) got =
     (Inl [Lit ''atdclient: pagination page limit exceeded''], [])"
| "walk parse_host resolve get base cap (Suc fuel) (c # cs) got =
     (case assert_same_origin parse_host base (c # cs) of
        Some m \<Rightarrow> (Inl m, [])
      | None \<Rightarrow>
          (case fetch_page get (c # cs) of
             Inl m \<Rightarrow> (Inl m, [c # cs])
           | Inr page \<Rightarrow>
               (let now = got @ sr_items page
                in if 0 < cap \<and> sr_items page \<noteq> [] \<and> cap \<le> int (length now)
                   then (Inr (take (nat cap) now), [c # cs])
                   else apsnd (Cons (c # cs))
                          (walk parse_host resolve get base cap fuel
                             (next_href resolve (sr_links page) (c # cs)) now))))"

definition search_agents ::
  "(string \<Rightarrow> string option) \<Rightarrow> (string \<Rightarrow> string \<Rightarrow> string option) \<Rightarrow> http_exchange \<Rightarrow> base_url \<Rightarrow> search_opts
     \<Rightarrow> (message, found_agent list) result \<times> string list" where
  "search_agents parse_host resolve get b opts =
     (if so_keyword_extraction opts \<and> strings_fields (so_query opts) = []
      then (Inl [Lit ''atdclient: keywordExtraction requires a non-empty query''], [])
      else case url_parse parse_host (base_text b @ bu_path b) of
             None \<Rightarrow> (Inl [Lit ''atdclient: parse baseURL: '', Cause ''url''], [])
           | Some base \<Rightarrow>
               walk parse_host resolve get base (so_limit opts) max_pages_walk (first_url b opts) [])"

end
