(* ===== verification/Snapshot.thy ===== *)
theory Snapshot
  imports AtdClient
begin

text \<open>
  The snapshot producer (\<open>internal/snapshot\<close>): every agent the search returned, merged with its
  transparency-log event, validated and written as a fixture.  The projection of the endpoints and
  the handling of the directory are those of theory \<open>RaSync\<close>, which the code declares again; the
  failures to create, list or clear the directory are not modelled.
\<close>

definition pick_non_empty :: "string \<Rightarrow> string \<Rightarrow> string" where
  "pick_non_empty a b = (if a \<noteq> [] then a else b)"

definition merge_event :: "found_agent \<Rightarrow> tl_event \<Rightarrow> tl_event" where
  "merge_event a ev =
     ev\<lparr>ev_provider := pick_non_empty (ev_provider ev) (ga_provider a),
        ev_status := (if ev_status ev = [] then ga_status a else ev_status ev),
        ev_agent := (ev_agent ev)\<lparr>ta_description := ga_description a,
          ta_protocols := protocols_of (ga_endpoints a), ta_transports := transports_of (ga_endpoints a),
          ta_endpoints := project_endpoints (ga_endpoints a)\<rparr>\<rparr>"

record snapshot_summary =
  ss_captured :: int
  ss_tl_errors :: int

fun capture_agents ::
  "(string \<Rightarrow> (message, tl_event) result) \<Rightarrow> (string \<Rightarrow> string option) \<Rightarrow> found_agent list
     \<Rightarrow> snapshot_summary \<Rightarrow> fixture_dir \<Rightarrow> snapshot_summary \<times> fixture_dir \<times> message option" where
  "capture_agents fetch disk [] s d = (s, d, None)"
| "capture_agents fetch disk (a # rest) s d =
     (case fetch (ga_id a) of
        Inl _ \<Rightarrow> capture_agents fetch disk rest (s\<lparr>ss_tl_errors := ss_tl_errors s + 1\<rparr>) d
      | Inr ev \<Rightarrow>
          (let merged = merge_event a ev
           in if validate_event merged \<noteq> None
              then capture_agents fetch disk rest (s\<lparr>ss_tl_errors := ss_tl_errors s + 1\<rparr>) d
              else case write_fixture disk merged d of
                     Inl m \<Rightarrow> (s, d, Some ([Lit ''snapshot: write '', Lit (ev_ans_id merged), Lit '': ''] @ m))
                   | Inr d' \<Rightarrow>
                       capture_agents fetch disk rest (s\<lparr>ss_captured := ss_captured s + 1\<rparr>) d'))"

definition run_snapshot ::
  "(message, found_agent list) result \<Rightarrow> (string \<Rightarrow> (message, tl_event) result) \<Rightarrow> (string \<Rightarrow> string option)
     \<Rightarrow> fixture_dir \<Rightarrow> snapshot_summary \<times> fixture_dir \<times> message option" where
  "run_snapshot search fetch disk d =
     (case search of
        Inl m \<Rightarrow> (\<lparr>ss_captured = 0, ss_tl_errors = 0\<rparr>, d, Some (Lit ''snapshot: search agents: '' # m))
      | Inr agents \<Rightarrow>
          (case capture_agents fetch disk agents \<lparr>ss_captured = 0, ss_tl_errors = 0\<rparr> (prepare_out_dir d) of
             (s, d', Some e) \<Rightarrow> (s, d', Some e)
           | (s, d', None) \<Rightarrow>
               (s, d', if agents \<noteq> [] \<and> ss_captured s = 0
                       then Some [Lit ''snapshot: all '', Num (ss_tl_errors s),
                                  Lit '' TL fetches failed; refusing to produce empty snapshot'']
                       else None)))"

end
