(* ===== verification/RaSyncFacts.thy ===== *)
theory RaSyncFacts
  imports RaSync
begin

text \<open>
  What the feed producer promises: the folded state of an agent is determined by its events alone
  (newest status, newest non-empty metadata, earliest registration), a drain reads a finite chain
  of pages, and a successful run leaves exactly valid fixtures of this run behind.
\<close>

section \<open>The fold\<close>

definition events_of :: "string \<Rightarrow> event_item list \<Rightarrow> event_item list" where
  "events_of i es = filter (\<lambda>it. recognized it \<and> it_agent it = i) es"

definition last_value :: "(event_item \<Rightarrow> 'a list) \<Rightarrow> event_item list \<Rightarrow> 'a list" where
  "last_value f es = (case rev (filter (\<lambda>x. x \<noteq> []) (map f es)) of [] \<Rightarrow> [] | x # _ \<Rightarrow> x)"

definition first_value :: "(event_item \<Rightarrow> 'a list) \<Rightarrow> event_item list \<Rightarrow> 'a list" where
  "first_value f es = (case filter (\<lambda>x. x \<noteq> []) (map f es) of [] \<Rightarrow> [] | x # _ \<Rightarrow> x)"

text \<open>The state an agent's events describe, without the running state of the fold.\<close>

definition described :: "string \<Rightarrow> event_item list \<Rightarrow> folded_agent" where
  "described i es =
     \<lparr>fa_id = i, fa_ans_name = last_value it_ans_name es, fa_host = last_value it_host es,
      fa_version = last_value it_version es, fa_display_name = last_value it_display_name es,
      fa_description = last_value it_description es,
      fa_status = status_for_event_type (it_event_type (last es)),
      fa_first_seen = first_value it_created_at
        (filter (\<lambda>it. it_event_type it = EventTypeAgentRegistered) es),
      fa_last_updated = last_value it_created_at es, fa_endpoints = last_value it_endpoints es\<rparr>"

lemma last_value_snoc: "last_value f (es @ [it]) = or_keep (f it) (last_value f es)"
  by (simp add: last_value_def or_keep_def)

lemma last_value_Nil [simp]: "last_value f [] = []"
  by (simp add: last_value_def)

lemma first_value_snoc:
  "first_value f (es @ [it]) = (if first_value f es = [] then f it else first_value f es)"
proof (cases "filter (\<lambda>x. x \<noteq> []) (map f es)")
  case (Cons x xs)
  then have "x \<in> set (filter (\<lambda>x. x \<noteq> []) (map f es))" by simp
  then have "x \<noteq> []" by auto
  with Cons show ?thesis by (simp add: first_value_def)
qed (simp add: first_value_def)

lemma fold_into_described:
  assumes "es \<noteq> []"
  shows "fold_into it (described (it_agent it) es) = described (it_agent it) (es @ [it])"
  using assms by (simp add: fold_into_def described_def last_value_snoc first_value_snoc)

lemma fold_into_first: "fold_into it zero_folded = described (it_agent it) [it]"
  by (simp add: fold_into_def described_def zero_folded_def last_value_def first_value_def or_keep_def)

lemma fold_events:
  "fold apply_event es Map.empty i =
     (if events_of i es = [] then None else Some (described i (events_of i es)))"
proof (induction es rule: rev_induct)
  case Nil
  then show ?case by (simp add: events_of_def)
next
  case (snoc it es)
  let ?m = "fold apply_event es Map.empty"
  show ?case
  proof (cases "recognized it \<and> it_agent it = i")
    case True
    then have e: "events_of i (es @ [it]) = events_of i es @ [it]" by (simp add: events_of_def)
    have a: "apply_event it ?m i = Some (fold_into it (case ?m i of Some fa \<Rightarrow> fa | None \<Rightarrow> zero_folded))"
      using True by (auto simp: apply_event_def recognized_def)
    show ?thesis
      using True a e snoc fold_into_first [of it] fold_into_described [of "events_of i es" it] by auto
  next
    case False
    then have "events_of i (es @ [it]) = events_of i es" by (auto simp: events_of_def)
    moreover have "apply_event it ?m i = ?m i"
      using False by (auto simp: apply_event_def recognized_def)
    ultimately show ?thesis using snoc by simp
  qed
qed

section \<open>The drain\<close>

text \<open>A chain of pages from a cursor to the end of the feed.\<close>

fun feed_chain :: "(string \<Rightarrow> (message, event_page) result) \<Rightarrow> string \<Rightarrow> event_page list \<Rightarrow> bool" where
  "feed_chain fetch cursor [] = False"
| "feed_chain fetch cursor (p # ps) \<longleftrightarrow>
     fetch cursor = Inr p
     \<and> (if reached_end cursor p then ps = [] else feed_chain fetch (pg_last_log_id p) ps)"

lemma drain_pages_chain:
  "drain_pages psize fetch n cursor agents = Inr agents' \<longleftrightarrow>
     (\<exists>ps. length ps \<le> n \<and> feed_chain fetch cursor ps
        \<and> agents' = fold apply_event (concat (map pg_items ps)) agents)"
proof (induction n arbitrary: cursor agents)
  case 0
  have "\<not> feed_chain fetch cursor []" by simp
  then show ?case by auto
next
  case (Suc n)
  show ?case
  proof (cases "fetch cursor")
    case (Inl c)
    then have "\<not> feed_chain fetch cursor ps" for ps by (cases ps) auto
    with Inl show ?thesis by simp
  next
    case (Inr p)
    have ex: "(\<exists>ps. length ps \<le> Suc n \<and> feed_chain fetch cursor ps \<and> Q ps) \<longleftrightarrow>
        (\<exists>qs. length qs \<le> n \<and> feed_chain fetch cursor (p # qs) \<and> Q (p # qs))" for Q
    proof
      assume "\<exists>ps. length ps \<le> Suc n \<and> feed_chain fetch cursor ps \<and> Q ps"
      then obtain ps where "length ps \<le> Suc n" "feed_chain fetch cursor ps" "Q ps" by blast
      then show "\<exists>qs. length qs \<le> n \<and> feed_chain fetch cursor (p # qs) \<and> Q (p # qs)"
        using Inr by (cases ps) auto
    next
      assume "\<exists>qs. length qs \<le> n \<and> feed_chain fetch cursor (p # qs) \<and> Q (p # qs)"
      then obtain qs where "length qs \<le> n" "feed_chain fetch cursor (p # qs)" "Q (p # qs)" by blast
      then show "\<exists>ps. length ps \<le> Suc n \<and> feed_chain fetch cursor ps \<and> Q ps"
        by (intro exI [of _ "p # qs"]) simp
    qed
    show ?thesis
      unfolding ex using Inr Suc.IH [of "pg_last_log_id p" "fold apply_event (pg_items p) agents"]
      by (auto simp: Let_def)
  qed
qed

section \<open>The run\<close>

definition badge_of :: "badge_fetch \<Rightarrow> string \<Rightarrow> tl_event option" where
  "badge_of fetch i = (case fetch i of Inr b \<Rightarrow> Some b | Inl _ \<Rightarrow> None)"

text \<open>A fixture of this run: valid, under its own name, projected from one of the agents.\<close>

definition own_fixture :: "badge_fetch \<Rightarrow> (string \<times> folded_agent) list \<Rightarrow> string \<Rightarrow> tl_event \<Rightarrow> bool" where
  "own_fixture fetch pairs n ev \<longleftrightarrow>
     event_valid ev \<and> n = fixture_name ev \<and> (\<exists>(i, fa) \<in> set pairs. ev = to_event fa (badge_of fetch i))"

lemma own_fixture_mono: "own_fixture fetch pairs n ev \<Longrightarrow> set pairs \<subseteq> set pairs' \<Longrightarrow> own_fixture fetch pairs' n ev"
  by (auto simp: own_fixture_def)

lemma fixture_name_yaml: "has_suffix (fixture_name ev) ''.yaml''"
  by (simp add: fixture_name_def has_suffix_def has_prefix_def)

text \<open>One step of the loop that does not abort it.\<close>

lemma sync_agents_Cons:
  assumes "sync_agents fetch disk n_all ((i, fa) # rest) s d = (s', d', None)"
  obtains s1 d1 where "sync_agents fetch disk n_all rest s1 d1 = (s', d', None)"
    and "sy_captured s1 + sy_drops s1 = sy_captured s + sy_drops s + 1"
    and "sy_tl_errors s1 = sy_tl_errors s + (if badge_of fetch i = None then 1 else 0)"
    and "d1 = d \<or> (let ev = to_event fa (badge_of fetch i) in event_valid ev \<and> d1 = d(fixture_name ev \<mapsto> Fixture ev))"
proof -
  let ?b = "badge_of fetch i"
  let ?ev = "to_event fa ?b"
  let ?s1 = "if ?b = None then s\<lparr>sy_tl_errors := sy_tl_errors s + 1\<rparr> else s"
  have "sync_agents fetch disk n_all ((i, fa) # rest) s d =
      (if validate_event ?ev \<noteq> None
       then sync_agents fetch disk n_all rest (?s1\<lparr>sy_drops := sy_drops ?s1 + 1\<rparr>) d
       else case write_fixture disk ?ev d of
              Inl m \<Rightarrow> (?s1, d, Some ([Lit ''rasync: write '', Lit (ev_ans_id ?ev), Lit '': ''] @ m))
            | Inr d' \<Rightarrow> sync_agents fetch disk n_all rest (?s1\<lparr>sy_captured := sy_captured ?s1 + 1\<rparr>) d')"
  proof (cases "fetch i")
    case (Inl e)
    then show ?thesis using assms by (cases e) (simp_all add: badge_of_def Let_def cong: if_cong sum.case_cong)
  next
    case (Inr b)
    then show ?thesis by (simp add: badge_of_def Let_def cong: if_cong sum.case_cong)
  qed
  note step = this [unfolded assms, symmetric]
  show ?thesis
  proof (cases "validate_event ?ev = None")
    case False
    then have "sync_agents fetch disk n_all rest (?s1\<lparr>sy_drops := sy_drops ?s1 + 1\<rparr>) d = (s', d', None)"
      using step by (simp only: if_True not_False_eq_True)
    then show ?thesis by (rule that) simp_all
  next
    case True
    then obtain d1 where w: "write_fixture disk ?ev d = Inr d1"
      and r: "sync_agents fetch disk n_all rest (?s1\<lparr>sy_captured := sy_captured ?s1 + 1\<rparr>) d1 = (s', d', None)"
      using step by (simp split: sum.splits)
    from w have "d1 = d(fixture_name ?ev \<mapsto> Fixture ?ev)" by (simp add: write_fixture_def split: option.splits)
    with True validate_event_None_iff [of ?ev] show ?thesis by (intro that [OF r]) (simp_all add: Let_def)
  qed
qed

lemma sync_agents_sound:
  assumes "sync_agents fetch disk n_all pairs s d = (s', d', None)"
  shows "sy_captured s' + sy_drops s' = sy_captured s + sy_drops s + int (length pairs)
    \<and> sy_tl_errors s' = sy_tl_errors s + int (length (filter (\<lambda>p. badge_of fetch (fst p) = None) pairs))
    \<and> (\<forall>n ev. d' n = Some (Fixture ev) \<longrightarrow> d n = Some (Fixture ev) \<or> own_fixture fetch pairs n ev)
    \<and> (\<forall>n. \<not> has_suffix n ''.yaml'' \<longrightarrow> d' n = d n)"
  using assms
proof (induction pairs arbitrary: s d)
  case (Cons p rest)
  obtain i fa where p: "p = (i, fa)" by (cases p)
  obtain s1 d1 where r: "sync_agents fetch disk n_all rest s1 d1 = (s', d', None)"
    and c: "sy_captured s1 + sy_drops s1 = sy_captured s + sy_drops s + 1"
      "sy_tl_errors s1 = sy_tl_errors s + (if badge_of fetch i = None then 1 else 0)"
    and d1: "d1 = d \<or> (let ev = to_event fa (badge_of fetch i) in event_valid ev \<and> d1 = d(fixture_name ev \<mapsto> Fixture ev))"
    using Cons.prems unfolding p by (rule sync_agents_Cons)
  note ih = Cons.IH [OF r]
  have own: "d n = Some (Fixture ev) \<or> own_fixture fetch (p # rest) n ev" if "d1 n = Some (Fixture ev)" for n ev
    using that d1 by (auto simp: Let_def own_fixture_def p split: if_splits)
  have "d n = Some (Fixture ev) \<or> own_fixture fetch (p # rest) n ev" if "d' n = Some (Fixture ev)" for n ev
    using ih that own own_fixture_mono [of fetch rest n ev "p # rest"] by (auto simp: subset_insertI)
  moreover have "d' n = d n" if "\<not> has_suffix n ''.yaml''" for n
    using ih that d1 fixture_name_yaml by (auto simp: Let_def)
  ultimately show ?case using ih c by (simp add: p)
qed simp

text \<open>C34 Draining the feed succeeds exactly when a chain of at most 10000 pages ends, and
  then the folded set describes every agent by its own events: the last non-empty value of each
  field, the last status, the first registration time.\<close>

theorem fold_is_described:
  "drain_and_fold psize fetch = Inr agents \<longleftrightarrow>
     (\<exists>ps. length ps \<le> max_feed_pages \<and> feed_chain fetch [] ps
        \<and> agents = (\<lambda>i. let es = events_of i (concat (map pg_items ps))
             in if es = [] then None else Some (described i es)))"
proof -
  have "fold apply_event es Map.empty = (\<lambda>i. let mine = events_of i es in if mine = [] then None else Some (described i mine))"
    for es by (rule ext) (simp add: fold_events Let_def)
  then show ?thesis by (simp add: drain_and_fold_def drain_pages_chain)
qed

text \<open>C35 A sync run without error captured at least one agent and accounts for all; at
  least one badge was fetched; every fixture left in the directory is the valid event of a
  folded agent under its file name, and the other files are untouched.\<close>

theorem run_sync_sound:
  assumes "run_sync psize feed fetch disk order d = (s, d', None)"
  shows "\<exists>agents. drain_and_fold (normalize_page_size psize) feed = Inr agents
    \<and> 1 \<le> sy_captured s \<and> sy_captured s + sy_drops s = int (length (order agents))
    \<and> (\<exists>i \<in> fst ` set (order agents). badge_of fetch i \<noteq> None)
    \<and> (\<forall>n ev. has_suffix n ''.yaml'' \<and> d' n = Some (Fixture ev) \<longrightarrow> own_fixture fetch (order agents) n ev)
    \<and> (\<forall>n. \<not> has_suffix n ''.yaml'' \<longrightarrow> d' n = d n)"
proof -
  obtain agents where a: "drain_and_fold (normalize_page_size psize) feed = Inr agents"
    using assms by (auto simp: run_sync_def split: sum.splits)
  let ?n = "int (length (order agents))"
  have ne: "?n \<noteq> 0" using assms a by (auto simp: run_sync_def Let_def)
  obtain s1 d1 e where l: "sync_agents fetch disk ?n (order agents) zero_summary (prepare_out_dir d) = (s1, d1, e)"
    by (rule prod_cases3)
  then have "e = None" and c: "sy_tl_errors s1 \<noteq> ?n" "sy_captured s1 \<noteq> 0" and o: "s1 = s" "d1 = d'"
    using assms a ne by (auto simp: run_sync_def Let_def split: option.splits if_splits)
  note loop = sync_agents_sound [OF l [unfolded this(1)]]
  have "0 \<le> sy_captured s1"
  proof -
    have "sync_agents fetch disk m ps t f = (t', f', None) \<Longrightarrow> sy_captured t \<le> sy_captured t'" for m ps t f t' f'
      by (induction ps arbitrary: t f)
        (fastforce simp: Let_def split: sum.splits badge_error.splits if_splits)+
    from this [OF l [unfolded \<open>e = None\<close>]] show ?thesis by (simp add: zero_summary_def)
  qed
  moreover have "filter (\<lambda>p. badge_of fetch (fst p) = None) (order agents) \<noteq> order agents"
    using loop c(1) by (auto simp: zero_summary_def)
  then have "\<exists>i \<in> fst ` set (order agents). badge_of fetch i \<noteq> None"
    by (auto simp: filter_id_conv)
  moreover have "own_fixture fetch (order agents) n ev" if "has_suffix n ''.yaml''" "d1 n = Some (Fixture ev)" for n ev
    using loop that by (auto simp: prepare_out_dir_def split: if_splits)
  moreover have "d1 n = d n" if "\<not> has_suffix n ''.yaml''" for n
    using loop that by (simp add: prepare_out_dir_def)
  moreover have "sy_captured s1 + sy_drops s1 = ?n" using loop by (simp add: zero_summary_def)
  ultimately show ?thesis using a c(2) unfolding o by (intro exI [of _ agents]) simp
qed

definition example_item :: event_item where
  "example_item =
     \<lparr>it_event_type = EventTypeAgentRegistered, it_created_at = ''2025-01-01T00:00:00Z'', it_agent = ''a'',
      it_ans_name = [], it_host = ''h'', it_display_name = [], it_description = [], it_version = ''v1'',
      it_endpoints = []\<rparr>"

definition example_feed :: "string \<Rightarrow> (message, event_page) result" where
  "example_feed cursor = Inr \<lparr>pg_items = [example_item], pg_last_log_id = []\<rparr>"

definition example_order :: "agent_set \<Rightarrow> (string \<times> folded_agent) list" where
  "example_order m = (case m ''a'' of None \<Rightarrow> [] | Some fa \<Rightarrow> [(''a'', fa)])"

lemma example_folds: "drain_and_fold psize example_feed = Inr [''a'' \<mapsto> fold_into example_item zero_folded]"
proof -
  obtain k where k: "max_feed_pages = Suc k" by (cases max_feed_pages) (simp_all add: max_feed_pages_def)
  show ?thesis unfolding drain_and_fold_def k
    by (simp add: example_feed_def reached_end_def apply_event_def example_item_def
        status_for_event_type_def event_type_defs StatusActive_def)
qed

theorem run_sync_sound_witness:
  "\<exists>s d'. run_sync 0 example_feed (\<lambda>_. Inr example_event) (\<lambda>_. None) example_order Map.empty = (s, d', None)
     \<and> sy_captured s + sy_drops s = 1 \<and> 1 \<le> sy_captured s"
proof -
  let ?ev = "to_event (fold_into example_item zero_folded) (Some example_event)"
  have v: "validate_event ?ev = None" by code_simp
  have "\<exists>s d'. run_sync 0 example_feed (\<lambda>_. Inr example_event) (\<lambda>_. None) example_order Map.empty = (s, d', None)"
    by (simp add: run_sync_def example_folds example_order_def Let_def v write_fixture_def zero_summary_def)
  then obtain s d' where r: "run_sync 0 example_feed (\<lambda>_. Inr example_event) (\<lambda>_. None) example_order Map.empty = (s, d', None)"
    by blast
  from run_sync_sound [OF r] have "1 \<le> sy_captured s" "sy_captured s + sy_drops s = 1"
    by (auto simp: example_folds example_order_def)
  with r show ?thesis by blast
qed

end
