(* ===== verification/AtdClientFacts.thy ===== *)
theory AtdClientFacts
  imports Snapshot RaSyncFacts
begin

text \<open>
  Properties of the search client and of the snapshot producer: the walk stays on its origin and
  within its bounds and returns the agents of the pages it followed; what a snapshot leaves in its
  directory.
\<close>

section \<open>The feed cursor\<close>

lemma feed_cursor_sent:
  "values_all (parse_query (encode_values (feed_query c n))) ''lastLogId'' = (if c = [] then [] else [c])"
  "values_all (parse_query (encode_values (feed_query c n))) ''limit'' = [itoa n]"
  unfolding values_all_round_trip
  by (simp_all add: feed_query_def Let_def values_set_def values_del_def values_all_def)

section \<open>The walk\<close>

text \<open>The URLs of a sequence of pages that follow one another, and where the last one leads.\<close>

fun cursors :: "(string \<Rightarrow> string \<Rightarrow> string option) \<Rightarrow> string \<Rightarrow> search_results list \<Rightarrow> string list" where
  "cursors resolve u [] = []"
| "cursors resolve u (p # ps) = u # cursors resolve (next_href resolve (sr_links p) u) ps"

fun cursor_after :: "(string \<Rightarrow> string \<Rightarrow> string option) \<Rightarrow> string \<Rightarrow> search_results list \<Rightarrow> string" where
  "cursor_after resolve u [] = u"
| "cursor_after resolve u (p # ps) = cursor_after resolve (next_href resolve (sr_links p) u) ps"

lemma assert_same_origin_None: "assert_same_origin ph base u = None \<longleftrightarrow> same_origin ph base u"
  by (auto simp: assert_same_origin_def same_origin_def split: option.splits)

definition cut :: "int \<Rightarrow> 'a list \<Rightarrow> 'a list" where
  "cut cap xs = (if 0 < cap then take (nat cap) xs else xs)"

lemma walk_sound:
  assumes "walk ph resolve get base cap fuel u got = (r, us)" and "0 < cap \<longrightarrow> int (length got) < cap"
  shows "length us \<le> fuel \<and> (\<forall>v \<in> set us. same_origin ph base v)
    \<and> (\<forall>as. r = Inr as \<longrightarrow> (\<exists>ps. us = cursors resolve u ps \<and> list_all2 (\<lambda>v p. fetch_page get v = Inr p) us ps
        \<and> as = cut cap (got @ concat (map sr_items ps))
        \<and> (cursor_after resolve u ps = [] \<or> 0 < cap \<and> int (length as) = cap)))"
  using assms
proof (induction ph resolve get base cap fuel u got arbitrary: r us rule: walk.induct)
  case (1 ph resolve get base cap fuel got)
  then show ?case by (auto simp: cut_def intro!: exI [of _ "[]"])
next
  case (3 ph resolve get base cap fuel c cs got)
  let ?u = "c # cs"
  show ?case
  proof (cases "assert_same_origin ph base ?u")
    case (Some m)
    then show ?thesis using "3.prems" by auto
  next
    case None
    then have origin: "same_origin ph base ?u" by (simp add: assert_same_origin_None)
    show ?thesis
    proof (cases "fetch_page get ?u")
      case (Inl m)
      then show ?thesis using "3.prems" None origin by auto
    next
      case (Inr page)
      let ?now = "got @ sr_items page"
      let ?next = "next_href resolve (sr_links page) ?u"
      show ?thesis
      proof (cases "0 < cap \<and> sr_items page \<noteq> [] \<and> cap \<le> int (length ?now)")
        case True
        then have r: "r = Inr (take (nat cap) ?now)" "us = [?u]" using "3.prems" None Inr by (auto simp: Let_def)
        then show ?thesis
          using origin Inr True by (auto simp: cut_def intro!: exI [of _ "[page]"])
      next
        case False
        obtain us' where w: "walk ph resolve get base cap fuel ?next ?now = (r, us')" and us: "us = ?u # us'"
          using "3.prems"(1) None Inr False by (auto simp: Let_def apsnd_def map_prod_def split: prod.splits)
        have room: "0 < cap \<longrightarrow> int (length ?now) < cap" using False "3.prems"(2) by auto
        note ih = "3.IH" [OF None Inr refl False w room]
        have "\<exists>ps. us = cursors resolve ?u ps \<and> list_all2 (\<lambda>v p. fetch_page get v = Inr p) us ps
            \<and> as = cut cap (got @ concat (map sr_items ps))
            \<and> (cursor_after resolve ?u ps = [] \<or> 0 < cap \<and> int (length as) = cap)" if "r = Inr as" for as
        proof -
          from ih that obtain ps where "us' = cursors resolve ?next ps"
            "list_all2 (\<lambda>v p. fetch_page get v = Inr p) us' ps"
            "as = cut cap (?now @ concat (map sr_items ps))"
            "cursor_after resolve ?next ps = [] \<or> 0 < cap \<and> int (length as) = cap" by blast
          then show ?thesis using us Inr by (intro exI [of _ "page # ps"]) simp
        qed
        then show ?thesis using ih us origin by simp
      qed
    qed
  qed
qed simp

text \<open>C36 The search client requests at most 1000 pages, all of the origin of its base
  URL; when it succeeds, the result is the agents of the pages that follow one another from the
  first URL, cut at the limit, and the walk ended at a page without a next link or at the
  limit.\<close>

theorem search_walk_sound:
  assumes "search_agents ph resolve get b opts = (r, us)"
    and "url_parse ph (base_text b @ bu_path b) = Some base"
  shows "length us \<le> max_pages_walk \<and> (\<forall>u \<in> set us. same_origin ph base u)
    \<and> (\<forall>as. r = Inr as \<longrightarrow> (\<exists>ps. us = cursors resolve (first_url b opts) ps
        \<and> list_all2 (\<lambda>u p. fetch_page get u = Inr p) us ps
        \<and> as = cut (so_limit opts) (concat (map sr_items ps))
        \<and> (cursor_after resolve (first_url b opts) ps = [] \<or> 0 < so_limit opts \<and> int (length as) = so_limit opts)))"
proof (cases "so_keyword_extraction opts \<and> strings_fields (so_query opts) = []")
  case True
  then show ?thesis using assms(1) by (auto simp: search_agents_def)
next
  case False
  then have "walk ph resolve get base (so_limit opts) max_pages_walk (first_url b opts) [] = (r, us)"
    using assms by (auto simp: search_agents_def)
  from walk_sound [OF this] show ?thesis by simp
qed

definition example_base :: base_url where
  "example_base = \<lparr>bu_scheme = ''https'', bu_authority = ''h'', bu_path = []\<rparr>"

definition example_opts :: search_opts where
  "example_opts =
     \<lparr>so_query = [], so_keyword_extraction = False, so_keyword_algorithm = [], so_provider_ids = [],
      so_agent_domains = [], so_protocols = [], so_transports = [], so_tags = [], so_capabilities = [],
      so_profile = [], so_page_size = 0, so_limit = 2\<rparr>"

definition example_reply :: http_exchange where
  "example_reply u = Reply 200 ''{\"items\":[{\"agentId\":\"a\"}],\"links\":[{\"rel\":\"next\",\"href\":\"/x\"}]}''"

text \<open>The second page is on another host: the walk stops there, having requested one page.\<close>

theorem search_walk_sound_witness:
  "\<exists>r us base. search_agents (\<lambda>h. Some h) (\<lambda>cur href. Some ''https://evil/x'') example_reply example_base example_opts = (r, us)
     \<and> url_parse (\<lambda>h. Some h) ''https://h'' = Some base \<and> u_host base = ''h'' \<and> (\<forall>u \<in> set us. same_origin (\<lambda>h. Some h) base u)
     \<and> \<not> same_origin (\<lambda>h. Some h) base ''https://evil/x''"
proof -
  let ?base = "\<lparr>u_scheme = ''https'', u_host = ''h'', u_has_user = False\<rparr>"
  have p: "url_parse (\<lambda>h. Some h) ''https://h'' = Some ?base" by code_simp
  have n: "\<not> same_origin (\<lambda>h. Some h) ?base ''https://evil/x''" by code_simp
  obtain r us where s: "search_agents (\<lambda>h. Some h) (\<lambda>cur href. Some ''https://evil/x'') example_reply example_base example_opts = (r, us)"
    by (metis prod.collapse)
  have "url_parse (\<lambda>h. Some h) (base_text example_base @ bu_path example_base) = Some ?base"
    using p by (simp add: example_base_def base_text_def)
  from search_walk_sound [OF s this] p n s show ?thesis by auto
qed


section \<open>The snapshot\<close>

text \<open>The agents a snapshot captures, in the order of the search: the badge was fetched and the merged
  event is valid.\<close>

definition captured_events :: "(string \<Rightarrow> (message, tl_event) result) \<Rightarrow> found_agent list \<Rightarrow> tl_event list" where
  "captured_events fetch agents =
     filter event_valid (concat (map (\<lambda>a. case fetch (ga_id a) of Inl _ \<Rightarrow> [] | Inr badge \<Rightarrow> [merge_event a badge]) agents))"

text \<open>Of the events with one file name the last written stays.\<close>

definition last_named :: "tl_event list \<Rightarrow> string \<Rightarrow> tl_event option" where
  "last_named evs n = find (\<lambda>ev. fixture_name ev = n) (rev evs)"

lemma last_named_Cons:
  "last_named (ev # evs) n = (case last_named evs n of
     Some x \<Rightarrow> Some x | None \<Rightarrow> if fixture_name ev = n then Some ev else None)"
proof -
  have "find P (xs @ ys) = (case find P xs of Some x \<Rightarrow> Some x | None \<Rightarrow> find P ys)"
    for P and xs ys :: "tl_event list" by (induction xs) auto
  then show ?thesis by (simp add: last_named_def split: option.split)
qed

lemma last_named_iff: "(\<exists>ev. last_named evs n = Some ev) \<longleftrightarrow> n \<in> fixture_name ` set evs"
proof -
  have "last_named evs n = None \<longleftrightarrow> n \<notin> fixture_name ` set evs"
    by (auto simp: last_named_def find_None_iff)
  then show ?thesis by fastforce
qed

lemma captured_events_Cons:
  "captured_events fetch (a # rest) =
     (case fetch (ga_id a) of
        Inl _ \<Rightarrow> captured_events fetch rest
      | Inr badge \<Rightarrow>
          if validate_event (merge_event a badge) = None
          then merge_event a badge # captured_events fetch rest else captured_events fetch rest)"
  by (simp add: captured_events_def validate_event_None_iff split: sum.split)

lemma capture_agents_exact:
  assumes "capture_agents fetch disk agents s d = (s', d', None)"
  shows "ss_captured s' = ss_captured s + int (length (captured_events fetch agents))
    \<and> ss_captured s' + ss_tl_errors s' = ss_captured s + ss_tl_errors s + int (length agents)
    \<and> (\<forall>n. d' n = (case last_named (captured_events fetch agents) n of
         Some ev \<Rightarrow> Some (Fixture ev) | None \<Rightarrow> d n))"
  using assms
proof (induction agents arbitrary: s d)
  case Nil
  then show ?case by (simp add: captured_events_def last_named_def)
next
  case (Cons a rest)
  have skip: ?case
    if r: "capture_agents fetch disk rest (s\<lparr>ss_tl_errors := ss_tl_errors s + 1\<rparr>) d = (s', d', None)"
      and "captured_events fetch (a # rest) = captured_events fetch rest"
    using Cons.IH [OF r] that(2) by simp
  show ?case
  proof (cases "fetch (ga_id a)")
    case (Inl m)
    then show ?thesis using Cons.prems skip by (simp add: captured_events_Cons)
  next
    case (Inr tl)
    let ?ev = "merge_event a tl"
    show ?thesis
    proof (cases "validate_event ?ev = None")
      case False
      then have "capture_agents fetch disk rest (s\<lparr>ss_tl_errors := ss_tl_errors s + 1\<rparr>) d = (s', d', None)"
        using Cons.prems Inr by (auto simp: Let_def)
      then show ?thesis using False Inr by (intro skip) (auto simp: captured_events_Cons)
    next
      case True
      then obtain d1 where w: "write_fixture disk ?ev d = Inr d1"
        and r: "capture_agents fetch disk rest (s\<lparr>ss_captured := ss_captured s + 1\<rparr>) d1 = (s', d', None)"
        using Cons.prems Inr by (auto simp: Let_def split: sum.splits)
      from w have d1: "d1 = d(fixture_name ?ev \<mapsto> Fixture ?ev)" by (simp add: write_fixture_def split: option.splits)
      have evs: "captured_events fetch (a # rest) = ?ev # captured_events fetch rest"
        using Inr True by (simp add: captured_events_Cons)
      show ?thesis
        using Cons.IH [OF r] by (auto simp: evs d1 last_named_Cons split: option.splits)
    qed
  qed
qed

text \<open>A search that finds nobody: the old fixtures are gone and the run succeeds, although the guard
  against an empty snapshot is there to refuse just that.\<close>

lemma snapshot_of_nobody:
  "run_snapshot (Inr []) fetch disk d = (\<lparr>ss_captured = 0, ss_tl_errors = 0\<rparr>, prepare_out_dir d, None)"
  by (simp add: run_snapshot_def)

lemma load_file_written:
  assumes "read n = Inr b" and "decode b = Inr ev" and "event_valid ev"
  shows "load_file ''tlevent'' read (parse_event decode) n = Inr ev"
  using assms(1,2) iffD2 [OF validate_event_None_iff assms(3)] by (simp add: load_file_def parse_event_def)

text \<open>The files a snapshot leaves for the loader are those it wrote.\<close>

lemma snapshot_names:
  assumes "\<And>n. d' n = (case last_named evs n of Some ev \<Rightarrow> Some (Fixture ev) | None \<Rightarrow> prepare_out_dir d n)"
    and "set entries = {(n, d' n = Some Subdirectory) | n. d' n \<noteq> None}" and "distinct (map fst entries)"
  shows "yaml_names entries = sorted_list_of_set (fixture_name ` set evs)"
proof -
  let ?names = "yaml_names entries"
  have "set ?names = {n. d' n \<noteq> None \<and> d' n \<noteq> Some Subdirectory \<and> has_suffix n ''.yaml''}"
    unfolding yaml_names_def set_sort set_map set_filter assms(2) by (auto simp: image_iff)
  also have "\<dots> = {n. \<exists>ev. last_named evs n = Some ev}"
  proof (intro Collect_cong iffI)
    fix n
    assume n: "d' n \<noteq> None \<and> d' n \<noteq> Some Subdirectory \<and> has_suffix n ''.yaml''"
    show "\<exists>ev. last_named evs n = Some ev"
    proof (rule ccontr)
      assume "\<not> ?thesis"
      then have "d' n = prepare_out_dir d n" using assms(1) [of n] by simp
      with n show False by (auto simp: prepare_out_dir_def split: if_splits)
    qed
  next
    fix n
    assume "\<exists>ev. last_named evs n = Some ev"
    then obtain ev where ev: "last_named evs n = Some ev" by blast
    then have "n = fixture_name ev" by (auto simp: last_named_def dest: find_SomeD)
    with ev show "d' n \<noteq> None \<and> d' n \<noteq> Some Subdirectory \<and> has_suffix n ''.yaml''"
      using assms(1) [of n] fixture_name_yaml by simp
  qed
  also have "\<dots> = fixture_name ` set evs" unfolding last_named_iff by simp
  finally have "set ?names = fixture_name ` set evs" .
  moreover have "distinct ?names" using assms(3) by (simp add: yaml_names_def distinct_map_filter)
  ultimately show ?thesis by (intro sorted_distinct_set_unique) (simp_all add: yaml_names_def)
qed

text \<open>Loading files, one per name, that hold the last event of that name.\<close>

lemma load_last_named:
  assumes "yaml_names entries = sorted_list_of_set (fixture_name ` set evs)"
    and "\<And>n ev. last_named evs n = Some ev \<Longrightarrow> event_valid ev \<and> (\<exists>b. read n = Inr b \<and> decode b = Inr ev)"
  shows "\<exists>out. load_dir dir (Inr entries) read decode = Inr out
    \<and> map fixture_name out = sorted_list_of_set (fixture_name ` set evs)
    \<and> (\<forall>ev \<in> set out. last_named evs (fixture_name ev) = Some ev)"
proof -
  let ?names = "yaml_names entries" and ?get = "the \<circ> last_named evs"
  have own: "load_file ''tlevent'' read (parse_event decode) n = Inr (?get n)
      \<and> fixture_name (?get n) = n \<and> last_named evs n = Some (?get n)"
    if "n \<in> set ?names" for n
  proof -
    have "n \<in> fixture_name ` set evs" using that assms(1) by simp
    then have "\<exists>ev. last_named evs n = Some ev" unfolding last_named_iff .
    then obtain ev where ev: "last_named evs n = Some ev" by (rule exE)
    then have "fixture_name ev = n" by (auto simp: last_named_def dest: find_SomeD)
    then show ?thesis using assms(2) [OF ev] load_file_written ev by auto
  qed
  have "collect (load_file ''tlevent'' read (parse_event decode)) ?names = Inr (map ?get ?names)"
    unfolding collect_Inr_iff list_all2_map2 using own by (simp add: list_all2_same)
  then have "load_dir dir (Inr entries) read decode = Inr (map ?get ?names)" by (simp add: load_dir_def)
  moreover have "map fixture_name (map ?get ?names) = ?names" using own by (simp add: map_idI)
  moreover have "\<forall>ev \<in> set (map ?get ?names). last_named evs (fixture_name ev) = Some ev" using own by auto
  ultimately show ?thesis
    unfolding assms(1) [symmetric] by (intro exI [of _ "map ?get ?names"] conjI) (simp_all only:)
qed

text \<open>C37 After a snapshot without error every agent is counted as captured (badge
  fetched, merged event valid) or failed, at least one is captured unless the search found
  nobody, and the event loader reads the directory without error and gives exactly the captured
  events, one per file name in the order of the names, the last written where file names
  collide; provided that the YAML decoder gives every written fixture back and the directory
  listing names each file of the directory once.\<close>

theorem snapshot_loads:
  assumes "run_snapshot (Inr agents) fetch disk d = (s, d', None)"
    and "\<And>n ev. d' n = Some (Fixture ev) \<Longrightarrow> \<exists>b. read n = Inr b \<and> decode b = Inr ev"
    and "set entries = {(n, d' n = Some Subdirectory) | n. d' n \<noteq> None}" and "distinct (map fst entries)"
  shows "ss_captured s = int (length (captured_events fetch agents))
    \<and> (agents = [] \<or> captured_events fetch agents \<noteq> [])
    \<and> ss_captured s + ss_tl_errors s = int (length agents)
    \<and> (\<exists>evs. load_dir dir (Inr entries) read decode = Inr evs
        \<and> map fixture_name evs = sorted_list_of_set (fixture_name ` set (captured_events fetch agents))
        \<and> (\<forall>ev \<in> set evs. last_named (captured_events fetch agents) (fixture_name ev) = Some ev))"
proof -
  let ?evs = "captured_events fetch agents"
  obtain e where c: "capture_agents fetch disk agents \<lparr>ss_captured = 0, ss_tl_errors = 0\<rparr> (prepare_out_dir d) = (s, d', e)"
      and "e = None"
    using assms(1) by (auto simp: run_snapshot_def split: prod.splits option.splits)
  note loop = capture_agents_exact [OF c [unfolded this(2)]]
  have counts: "ss_captured s = int (length ?evs)" "ss_captured s + ss_tl_errors s = int (length agents)"
    using conjunct1 [OF loop] conjunct1 [OF conjunct2 [OF loop]] by simp_all
  have "agents \<noteq> [] \<Longrightarrow> ss_captured s \<noteq> 0"
    using assms(1) c \<open>e = None\<close> by (auto simp: run_snapshot_def split: if_splits)
  then have ran: "agents = [] \<or> ?evs \<noteq> []" using counts(1) by auto
  have on_disk: "d' n = (case last_named ?evs n of Some ev \<Rightarrow> Some (Fixture ev) | None \<Rightarrow> prepare_out_dir d n)" for n
    using conjunct2 [OF conjunct2 [OF loop]] by (rule spec)
  have read_back: "event_valid ev \<and> (\<exists>b. read n = Inr b \<and> decode b = Inr ev)" if ev: "last_named ?evs n = Some ev" for n ev
  proof -
    have "ev \<in> set ?evs" using ev by (auto simp: last_named_def dest: find_SomeD)
    moreover have "d' n = Some (Fixture ev)" using on_disk [of n] ev by simp
    ultimately show ?thesis using assms(2) by (simp add: captured_events_def)
  qed
  have "\<exists>evs. load_dir dir (Inr entries) read decode = Inr evs
      \<and> map fixture_name evs = sorted_list_of_set (fixture_name ` set ?evs)
      \<and> (\<forall>ev \<in> set evs. last_named ?evs (fixture_name ev) = Some ev)"
    using snapshot_names [OF on_disk assms(3,4)] by (rule load_last_named) (rule read_back)
  with counts ran show ?thesis by blast
qed

definition example_found :: found_agent where
  "example_found = \<lparr>ga_id = ''a'', ga_provider = [], ga_description = [], ga_status = [], ga_endpoints = []\<rparr>"

text \<open>One agent is captured, another has no badge; the old fixture is gone.\<close>

theorem snapshot_loads_witness:
  "\<exists>s d' evs. run_snapshot (Inr [example_found, example_found\<lparr>ga_id := ''b''\<rparr>])
       (\<lambda>i. if i = ''a'' then Inr example_event else Inl []) (\<lambda>_. None) [''old.yaml'' \<mapsto> OtherFile] = (s, d', None)
     \<and> ss_captured s = 1 \<and> ss_tl_errors s = 1
     \<and> load_dir ''d'' (Inr [(''a.yaml'', False)]) (\<lambda>_. Inr []) (\<lambda>_. Inr (merge_event example_found example_event)) = Inr evs
     \<and> length evs = 1"
proof -
  let ?ev = "merge_event example_found example_event"
  let ?run = "run_snapshot (Inr [example_found, example_found\<lparr>ga_id := ''b''\<rparr>])
      (\<lambda>i. if i = ''a'' then Inr example_event else Inl []) (\<lambda>_. None) [''old.yaml'' \<mapsto> OtherFile]"
  have v: "validate_event ?ev = None" and n: "fixture_name ?ev = ''a.yaml''" by code_simp+
  have out: "prepare_out_dir [''old.yaml'' \<mapsto> OtherFile] = Map.empty"
  proof
    fix m
    have "has_suffix ''old.yaml'' ''.yaml''" by code_simp
    then show "prepare_out_dir [''old.yaml'' \<mapsto> OtherFile] m = None" by (simp add: prepare_out_dir_def)
  qed
  have run: "?run = (\<lparr>ss_captured = 1, ss_tl_errors = 1\<rparr>, [''a.yaml'' \<mapsto> Fixture ?ev], None)"
    using v n by (simp add: run_snapshot_def out example_found_def [symmetric] Let_def write_fixture_def)
      (simp add: example_found_def)
  have "set [(''a.yaml'', False)] = {(m, [''a.yaml'' \<mapsto> Fixture ?ev] m = Some Subdirectory) | m. [''a.yaml'' \<mapsto> Fixture ?ev] m \<noteq> None}"
    by auto
  moreover have "\<exists>b. Inr [] = Inr b \<and> Inr ?ev = Inr ev" if "[''a.yaml'' \<mapsto> Fixture ?ev] n = Some (Fixture ev)" for n ev
    using that by (auto split: if_splits)
  moreover have "distinct (map fst [(''a.yaml'', False)])" by simp
  ultimately
  obtain evs where evs: "load_dir ''d'' (Inr [(''a.yaml'', False)]) (\<lambda>_. Inr []) (\<lambda>_. Inr ?ev) = Inr evs"
    "map fixture_name evs = sorted_list_of_set (fixture_name ` set (captured_events
          (\<lambda>i. if i = ''a'' then Inr example_event else Inl []) [example_found, example_found\<lparr>ga_id := ''b''\<rparr>]))"
    using snapshot_loads [where dir = "''d''" and read = "\<lambda>_. Inr []" and decode = "\<lambda>_. Inr ?ev", OF run] by blast
  have "captured_events (\<lambda>i. if i = ''a'' then Inr example_event else Inl []) [example_found, example_found\<lparr>ga_id := ''b''\<rparr>] = [?ev]"
    using v by (simp add: captured_events_Cons example_found_def) (simp add: captured_events_def)
  with evs(2) have "map fixture_name evs = [fixture_name ?ev]" by simp
  then have "length evs = 1" using length_map [of fixture_name evs] by simp
  with evs(1) show ?thesis using run by (intro exI conjI) auto
qed

end
