(* ===== verification/TlClientFacts.thy ===== *)
theory TlClientFacts
  imports TlClient
begin

text \<open>
  What the transparency-log client does: which certificate is taken as the primary one, that both
  badge schemas map alike, and which agent the request really names.
\<close>

section \<open>The primary certificate\<close>

definition cert_time :: "tl_cert_v2 \<Rightarrow> instant option" where
  "cert_time c = parse_rfc3339 (ct_not_after c)"

text \<open>The first of the newest among the certificates whose expiry can be read.\<close>

definition newest_cert :: "tl_cert_v2 list \<Rightarrow> tl_cert_v2 \<Rightarrow> bool" where
  "newest_cert certs c \<longleftrightarrow>
     (\<exists>us vs t. certs = us @ c # vs \<and> cert_time c = Some t
        \<and> (\<forall>x \<in> set us. \<forall>u. cert_time x = Some u \<longrightarrow> u < t)
        \<and> (\<forall>x \<in> set vs. \<forall>u. cert_time x = Some u \<longrightarrow> u \<le> t))"

lemma fold_newer_cert:
  "(\<forall>x \<in> set certs. cert_time x = None) \<and> fold newer_cert certs (c0, None) = (c0, None)
   \<or> (\<exists>c. newest_cert certs c \<and> fold newer_cert certs (c0, None) = (c, cert_time c))"
proof (induction certs rule: rev_induct)
  case (snoc x certs)
  let ?best = "fold newer_cert certs (c0, None)"
  show ?case
  proof (cases "cert_time x")
    case None
    then have "newer_cert x ?best = ?best" by (simp add: newer_cert_def cert_time_def)
    moreover have "newest_cert (certs @ [x]) c" if "newest_cert certs c" for c
      using that None unfolding newest_cert_def by (elim exE conjE) (rule exI, rule exI [of _ "_ @ [x]"], auto)
    ultimately show ?thesis using snoc None by auto
  next
    case t: (Some t)
    from snoc show ?thesis
    proof
      assume a: "(\<forall>y \<in> set certs. cert_time y = None) \<and> ?best = (c0, None)"
      then have "newer_cert x ?best = (x, cert_time x)" using t by (simp add: newer_cert_def cert_time_def)
      moreover have "newest_cert (certs @ [x]) x"
        unfolding newest_cert_def using a t by (intro exI [of _ certs] exI [of _ "[]"] exI [of _ t]) auto
      ultimately show ?thesis by auto
    next
      assume "\<exists>c. newest_cert certs c \<and> ?best = (c, cert_time c)"
      then obtain c us vs b where c: "?best = (c, Some b)" "certs = us @ c # vs" "cert_time c = Some b"
        "\<forall>y \<in> set us. \<forall>u. cert_time y = Some u \<longrightarrow> u < b" "\<forall>y \<in> set vs. \<forall>u. cert_time y = Some u \<longrightarrow> u \<le> b"
        unfolding newest_cert_def by auto
      show ?thesis
      proof (cases "b < t")
        case True
        then have "newer_cert x ?best = (x, cert_time x)" using c(1) t by (simp add: newer_cert_def cert_time_def)
        moreover have "newest_cert (certs @ [x]) x"
          unfolding newest_cert_def using c t True
          by (intro exI [of _ certs] exI [of _ "[]"] exI [of _ t]) (auto dest: less_trans order.strict_trans1)
        ultimately show ?thesis by auto
      next
        case False
        then have "newer_cert x ?best = (c, cert_time c)" using c(1,3) t by (simp add: newer_cert_def cert_time_def)
        moreover have "newest_cert (certs @ [x]) c"
          unfolding newest_cert_def using c t False
          by (intro exI [of _ us] exI [of _ "vs @ [x]"] exI [of _ b]) auto
        ultimately show ?thesis by auto
      qed
    qed
  qed
qed simp

text \<open>C40 The primary certificate is the first one with the greatest parseable notAfter,
  and the first one of all when none parses.\<close>

theorem primary_is_newest:
  assumes "certs \<noteq> []"
  shows "if list_all (\<lambda>c. cert_time c = None) certs
     then primary_cert_fingerprint certs = ct_fingerprint (hd certs)
     else \<exists>c. newest_cert certs c \<and> primary_cert_fingerprint certs = ct_fingerprint c"
proof -
  obtain c0 cs where cs: "certs = c0 # cs" using assms by (cases certs) auto
  then have p: "primary_cert_fingerprint certs = ct_fingerprint (fst (fold newer_cert certs (c0, None)))"
    by (simp add: primary_cert_fingerprint_def)
  have none: False if "newest_cert certs c" "list_all (\<lambda>c. cert_time c = None) certs" for c
    using that by (auto simp: newest_cert_def)
  from fold_newer_cert [of certs c0] show ?thesis
  proof
    assume "(\<forall>x \<in> set certs. cert_time x = None) \<and> fold newer_cert certs (c0, None) = (c0, None)"
    then show ?thesis using p cs by (auto simp: list_all_iff)
  next
    assume "\<exists>c. newest_cert certs c \<and> fold newer_cert certs (c0, None) = (c, cert_time c)"
    then obtain c where "newest_cert certs c" "fold newer_cert certs (c0, None) = (c, cert_time c)" by blast
    then show ?thesis using p none by auto
  qed
qed

definition example_certs :: "tl_cert_v2 list" where
  "example_certs = [\<lparr>ct_fingerprint = ''a'', ct_not_after = ''soon''\<rparr>,
     \<lparr>ct_fingerprint = ''b'', ct_not_after = ''2027-01-01T00:00:00Z''\<rparr>]"

theorem primary_is_newest_witness:
  "\<exists>c. newest_cert example_certs c \<and> primary_cert_fingerprint example_certs = ct_fingerprint c"
proof -
  have n: "\<not> list_all (\<lambda>c. cert_time c = None) example_certs" by code_simp
  have "example_certs \<noteq> []" by (simp add: example_certs_def)
  from primary_is_newest [OF this] n show ?thesis by (simp only: if_False)
qed

section \<open>Both schemas\<close>

text \<open>A V1 badge written in the V2 shape.\<close>

definition as_v2 :: "tl_response \<Rightarrow> (string \<times> string) list \<Rightarrow> tl_response_v2" where
  "as_v2 r dns =
     \<lparr>vr_ans_id = tr_ans_id r, vr_issued_at = tr_issued_at r, vr_timestamp = tr_timestamp r,
      vr_host = tr_host r, vr_version = tr_version r, vr_name = tr_name r,
      vr_server_certs = [\<lparr>ct_fingerprint = tr_server_fp r, ct_not_after = []\<rparr>],
      vr_identity_certs = [\<lparr>ct_fingerprint = tr_identity_fp r, ct_not_after = []\<rparr>],
      vr_dns = dns, vr_dnssec = tr_dnssec r, vr_status = tr_status r\<rparr>"

lemma parse_rfc3339_empty: "parse_rfc3339 [] = None"
  by (simp add: parse_rfc3339_def fixed_def)

lemma schemas_agree:
  assumes "fold (\<lambda>d m. m(fst d \<mapsto> snd d)) dns Map.empty = tr_dns r"
  shows "map_event_v2 (as_v2 r dns) = map_event r"
  using assms
  by (simp add: map_event_v2_def map_event_def as_v2_def primary_cert_fingerprint_def newer_cert_def
      parse_rfc3339_empty Let_def)

section \<open>The path\<close>

lemma unescape_with:
  assumes "\<And>c. plain c \<Longrightarrow> c \<noteq> CHR ''%''"
  shows "path_unescape (escape_with plain s) = Some s"
proof (induction s)
  case (Cons c s)
  have "hex_value (upper_hex (ord c div 16)) = Some (ord c div 16)"
    "hex_value (upper_hex (ord c mod 16)) = Some (ord c mod 16)"
    using ord_div_less [of 16 16 c] by (simp_all add: hex_value_upper)
  then show ?case using Cons assms [of c] by (auto simp: escape_with_def percent_def)
qed (simp add: escape_with_def)

lemma segment_plain_percent: "segment_plain c \<Longrightarrow> c \<noteq> CHR ''%''"
  using query_plain_not [of c] by (auto simp: segment_plain_def)

lemma path_plain_percent: "path_plain c \<Longrightarrow> c \<noteq> CHR ''%''"
  using segment_plain_percent [of c] by (auto simp: path_plain_def)

lemma length_escape_with: "length s \<le> length (escape_with plain s)"
  by (induction s) (auto simp: escape_with_def percent_def)

lemma escape_with_id: "escape_with plain s = s \<longleftrightarrow> list_all plain s"
proof (induction s)
  case (Cons c s)
  have "percent c @ escape_with plain s \<noteq> c # s"
    using length_escape_with [of s plain] by (auto simp: percent_def dest: arg_cong [of _ _ length])
  with Cons show ?case by (auto simp: escape_with_def)
qed (simp add: escape_with_def)

text \<open>The path names the id only after two rounds of unescaping: it is escaped twice, which changes
  every id with a byte that a path segment escapes.\<close>

lemma badge_path_names:
  "path_unescape (badge_path base_path ans_id)
     = Some (trim_right_slash base_path @ ''/v1/agents/'' @ escape_with segment_plain ans_id)
   \<and> (escape_with segment_plain ans_id = ans_id \<longleftrightarrow> list_all segment_plain ans_id)"
  using unescape_with [of path_plain] path_plain_percent by (simp add: badge_path_def escape_with_id)

text \<open>A fractional second, which \<open>normalizeRFC3339\<close> removes, is one that the parser accepts.\<close>

lemma fraction_accepted: "parse_rfc3339 ''2026-03-23T19:32:40.047508Z'' \<noteq> None"
  by code_simp

end
