(* ===== verification/Web.thy ===== *)
theory Web
  imports Prelude
begin

text \<open>
  HTTP errors (\<open>internal/web\<close>): typed application errors, and the RFC 7807 problem each error
  is rendered as.  An error that is not a typed one becomes a generic 500; its text never reaches
  the response.
\<close>

record web_error =
  we_status :: int
  we_code :: string
  we_detail :: message

text \<open>What a handler receives from the layers below: a typed error anywhere in the chain, or
  another error with its text.\<close>

datatype app_error = Typed web_error | Internal message

definition new_error :: "int \<Rightarrow> string \<Rightarrow> message \<Rightarrow> web_error" where
  "new_error status code detail = \<lparr>we_status = status, we_code = code, we_detail = detail\<rparr>"

record problem =
  pb_type :: string
  pb_title :: string
  pb_status :: int
  pb_detail :: message
  pb_code :: string

text \<open>\<open>http.StatusText\<close> of the error statuses.\<close>

definition status_texts :: "(int \<times> string) list" where
  "status_texts =
     [(400, ''Bad Request''), (401, ''Unauthorized''), (402, ''Payment Required''),
      (403, ''Forbidden''), (404, ''Not Found''), (405, ''Method Not Allowed''),
      (406, ''Not Acceptable''), (407, ''Proxy Authentication Required''),
      (408, ''Request Timeout''), (409, ''Conflict''), (410, ''Gone''),
      (411, ''Length Required''), (412, ''Precondition Failed''),
      (413, ''Request Entity Too Large''), (414, ''Request URI Too Long''),
      (415, ''Unsupported Media Type''), (416, ''Requested Range Not Satisfiable''),
      (417, ''Expectation Failed''), (418, ''I'' @ CHR 0x27 # ''m a teapot''),
      (421, ''Misdirected Request''), (422, ''Unprocessable Entity''), (423, ''Locked''),
      (424, ''Failed Dependency''), (425, ''Too Early''), (426, ''Upgrade Required''),
      (428, ''Precondition Required''), (429, ''Too Many Requests''),
      (431, ''Request Header Fields Too Large''), (451, ''Unavailable For Legal Reasons''),
      (500, ''Internal Server Error''), (501, ''Not Implemented''), (502, ''Bad Gateway''),
      (503, ''Service Unavailable''), (504, ''Gateway Timeout''),
      (505, ''HTTP Version Not Supported''), (506, ''Variant Also Negotiates''),
      (507, ''Insufficient Storage''), (508, ''Loop Detected''), (510, ''Not Extended''),
      (511, ''Network Authentication Required'')]"

definition status_text :: "int \<Rightarrow> string" where
  "status_text code = (case map_of status_texts code of Some t \<Rightarrow> t | None \<Rightarrow> [])"

definition sanitize_error_status :: "int \<Rightarrow> int" where
  "sanitize_error_status status = (if status < 400 \<or> 599 < status then 500 else status)"

definition problem_for :: "app_error \<Rightarrow> problem" where
  "problem_for err =
     (case err of
        Typed we \<Rightarrow>
          (let status = sanitize_error_status (we_status we)
           in \<lparr>pb_type = ''about:blank'', pb_title = status_text status, pb_status = status,
               pb_detail = we_detail we, pb_code = we_code we\<rparr>)
      | Internal cause \<Rightarrow>
          \<lparr>pb_type = ''about:blank'', pb_title = status_text 500, pb_status = 500,
           pb_detail = [Lit ''an unexpected internal error occurred''], pb_code = []\<rparr>)"

text \<open>A response: its status and either a problem or the JSON value written.\<close>

record 'v response =
  rs_status :: int
  rs_content_type :: string
  rs_body :: "problem + 'v"

definition write_json :: "int \<Rightarrow> 'v \<Rightarrow> 'v response" where
  "write_json status v =
     \<lparr>rs_status = status, rs_content_type = ''application/json'', rs_body = Inr v\<rparr>"

definition write_problem :: "app_error \<Rightarrow> 'v response" where
  "write_problem err =
     \<lparr>rs_status = pb_status (problem_for err), rs_content_type = ''application/problem+json'',
      rs_body = Inl (problem_for err)\<rparr>"

lemma sanitize_error_status_range: "400 \<le> sanitize_error_status s" "sanitize_error_status s \<le> 599"
  by (simp_all add: sanitize_error_status_def)

lemma sanitize_error_status_id: "400 \<le> s \<Longrightarrow> s \<le> 599 \<Longrightarrow> sanitize_error_status s = s"
  by (simp add: sanitize_error_status_def)

lemma write_problem_status: "400 \<le> rs_status (write_problem err)" "rs_status (write_problem err) \<le> 599"
  using sanitize_error_status_range
  by (simp_all add: write_problem_def problem_for_def Let_def split: app_error.split)

lemma write_problem_typed:
  "400 \<le> we_status we \<Longrightarrow> we_status we \<le> 599 \<Longrightarrow> rs_status (write_problem (Typed we)) = we_status we"
  by (simp add: write_problem_def problem_for_def Let_def sanitize_error_status_id)

end
