(* ===== verification/GoJsonRaw.thy ===== *)
theory GoJsonRaw
  imports GoJson
begin

text \<open>
  \<open>json.RawMessage\<close> fields keep the bytes of their value.  A document with such fields is split
  into the members of its object, or the elements of its array, each with the text of its value;
  every text is then read on its own.
\<close>

definition raw_value :: "string \<Rightarrow> (string \<times> string) option" where
  "raw_value s =
     (case parse_value 0 (skip_space s) of
        None \<Rightarrow> None
      | Some (v, r) \<Rightarrow> Some (take (length (skip_space s) - length r) (skip_space s), r))"

text \<open>The elements behind an opening bracket.\<close>

function raw_elems :: "string \<Rightarrow> string list option" where
  "raw_elems s =
     (case raw_value s of
        None \<Rightarrow> None
      | Some (raw, r) \<Rightarrow>
          (case skip_space r of
             [] \<Rightarrow> None
           | c # r2 \<Rightarrow>
               if length s < length r then None
               else if c = CHR '']'' then Some [raw]
               else if c = CHR '','' then map_option (Cons raw) (raw_elems r2)
               else None))"
  by auto
termination
  by (relation "measure length") (auto dest!: skip_space_Cons_length)

text \<open>The members behind an opening brace.\<close>

function raw_members :: "string \<Rightarrow> (string \<times> string) list option" where
  "raw_members s =
     (case skip_space s of
        [] \<Rightarrow> None
      | q # r \<Rightarrow>
          if q \<noteq> CHR 0x22 then None
          else (case parse_chars r of
             None \<Rightarrow> None
           | Some (k, r1) \<Rightarrow>
               (case skip_space r1 of
                  [] \<Rightarrow> None
                | colon # r2 \<Rightarrow>
                    if colon \<noteq> CHR '':'' then None
                    else (case raw_value r2 of
                       None \<Rightarrow> None
                     | Some (raw, r3) \<Rightarrow>
                         (case skip_space r3 of
                            [] \<Rightarrow> None
                          | c # r4 \<Rightarrow>
                              if length s < length r3 then None
                              else if c = CHR ''}'' then Some [(k, raw)]
                              else if c = CHR '','' then map_option (Cons (k, raw)) (raw_members r4)
                              else None)))))"
  by auto
termination
  by (relation "measure length") (auto dest!: skip_space_Cons_length)

declare raw_elems.simps [simp del] raw_members.simps [simp del]

text \<open>The texts of a whole array and of a whole object; \<open>null\<close> is \<open>Some None\<close>.\<close>

definition array_texts :: "string \<Rightarrow> string list option option" where
  "array_texts raw =
     (if raw = ''null'' then Some None
      else case raw of
        [] \<Rightarrow> None
      | c # r \<Rightarrow>
          if c = CHR ''['' then
            (if has_prefix (skip_space r) '']'' then Some (Some []) else map_option Some (raw_elems r))
          else None)"

definition object_texts :: "string \<Rightarrow> (string \<times> string) list option option" where
  "object_texts raw =
     (if raw = ''null'' then Some None
      else case raw of
        [] \<Rightarrow> None
      | c # r \<Rightarrow>
          if c = CHR ''{'' then
            (if has_prefix (skip_space r) ''}'' then Some (Some []) else map_option Some (raw_members r))
          else None)"

type_synonym 'r text_decoder = "string \<Rightarrow> 'r \<Rightarrow> 'r option"

text \<open>A field of an ordinary type reads its text as a value.\<close>

definition of_value :: "'r field_decoder \<Rightarrow> 'r text_decoder" where
  "of_value dec text r = (case parse_json text of None \<Rightarrow> None | Some j \<Rightarrow> dec j r)"

fun decode_texts :: "(string \<times> 'r text_decoder) list \<Rightarrow> (string \<times> string) list \<Rightarrow> 'r \<Rightarrow> 'r option" where
  "decode_texts fs [] r = Some r"
| "decode_texts fs ((k, text) # ms) r =
     (case find_field fs k of
        None \<Rightarrow> decode_texts fs ms r
      | Some dec \<Rightarrow> (case dec text r of None \<Rightarrow> None | Some r' \<Rightarrow> decode_texts fs ms r'))"

definition decode_object :: "(string \<times> 'r text_decoder) list \<Rightarrow> 'r text_decoder" where
  "decode_object fs raw r =
     (case object_texts raw of
        None \<Rightarrow> None | Some None \<Rightarrow> Some r | Some (Some ms) \<Rightarrow> decode_texts fs ms r)"

text \<open>A slice of structs: decoding writes over the elements held so far.\<close>

fun decode_elems :: "'r text_decoder \<Rightarrow> 'r \<Rightarrow> string list \<Rightarrow> 'r list \<Rightarrow> 'r list option" where
  "decode_elems dec zero [] old = Some []"
| "decode_elems dec zero (t # ts) old =
     (case dec t (case old of [] \<Rightarrow> zero | r # _ \<Rightarrow> r) of
        None \<Rightarrow> None
      | Some r \<Rightarrow> map_option (Cons r) (decode_elems dec zero ts (tl old)))"

definition decode_array :: "'r text_decoder \<Rightarrow> 'r \<Rightarrow> 'r list text_decoder" where
  "decode_array dec zero raw old =
     (case array_texts raw of
        None \<Rightarrow> None | Some None \<Rightarrow> Some [] | Some (Some ts) \<Rightarrow> decode_elems dec zero ts old)"

end
