(* ===== verification/ImportDto.thy ===== *)
theory ImportDto
  imports Web GoUrl GoJsonRaw GoTime
begin

text \<open>
  The import requests (\<open>internal/importsvc/dto.go\<close>): the wire shapes, their decoding from the
  body, and the conversion to domain values with its checks in the code's order (required fields,
  length and count caps, known status, RFC 3339 timestamps, the evidence URL).  All rejections are
  400 \<open>INVALID_REQUEST\<close>.  \<open>parse_host\<close> is the host syntax of \<open>GoUrl\<close>.
\<close>

section \<open>Caps and errors\<close>

definition max_agent_id :: int where "max_agent_id = 128"
definition max_dns_name :: int where "max_dns_name = 253"
definition max_display_name :: int where "max_display_name = 256"
definition max_description :: int where "max_description = 4096"
definition max_provider_id :: int where "max_provider_id = 128"
definition max_status :: int where "max_status = 32"
definition max_signal_id :: int where "max_signal_id = 128"
definition max_provenance_id :: int where "max_provenance_id = 128"
definition max_provenance_url :: int where "max_provenance_url = 2048"
definition max_observation_value :: int where "max_observation_value = 65536"
definition max_slice :: int where "max_slice = 64"
definition max_slice_item :: int where "max_slice_item = 128"

lemmas cap_defs [go_defs] =
  max_agent_id_def max_dns_name_def max_display_name_def max_description_def max_provider_id_def
  max_status_def max_signal_id_def max_provenance_id_def max_provenance_url_def
  max_observation_value_def max_slice_def max_slice_item_def

definition CodeInvalidRequest :: string where "CodeInvalidRequest = ''INVALID_REQUEST''"

definition err_invalid_request :: "message \<Rightarrow> web_error" where
  "err_invalid_request detail = new_error 400 CodeInvalidRequest detail"

section \<open>Checks\<close>

type_synonym 'a checked = "(web_error, 'a) result"

definition byte_len :: "'a list \<Rightarrow> int" where
  "byte_len s = int (length s)"

definition check_str_len :: "message \<Rightarrow> string \<Rightarrow> int \<Rightarrow> unit checked" where
  "check_str_len label s max_len =
     ensure (byte_len s \<le> max_len)
       (err_invalid_request (label @ [Lit '' is '', Num (byte_len s), Lit '' bytes, max '', Num max_len]))"

definition check_evidence_url :: "(string \<Rightarrow> string option) \<Rightarrow> message \<Rightarrow> string \<Rightarrow> unit checked" where
  "check_evidence_url parse_host label raw =
     (if raw = [] then Inr ()
      else case url_parse parse_host raw of
        None \<Rightarrow> Inl (err_invalid_request (label @ [Lit '' must be an absolute http(s) URL'']))
      | Some u \<Rightarrow>
          if u_scheme u = [] \<or> u_scheme u \<noteq> ''http'' \<and> u_scheme u \<noteq> ''https'' \<or> u_host u = []
          then Inl (err_invalid_request (label @ [Lit '' must be an absolute http(s) URL'']))
          else if u_has_user u
          then Inl (err_invalid_request (label @ [Lit '' must not contain userinfo (credentials in the URL)'']))
          else Inr ())"

fun check_slice_items :: "message \<Rightarrow> int \<Rightarrow> string list \<Rightarrow> unit checked" where
  "check_slice_items label i [] = Inr ()"
| "check_slice_items label i (v # vs) =
     (if byte_len v > max_slice_item
      then Inl (err_invalid_request
        (label @ [Lit ''['', Num i, Lit ''] is '', Num (byte_len v), Lit '' bytes, max '', Num max_slice_item]))
      else check_slice_items label (i + 1) vs)"

definition check_string_slice :: "message \<Rightarrow> string list \<Rightarrow> unit checked" where
  "check_string_slice label vals =
     (if byte_len vals > max_slice
      then Inl (err_invalid_request
        (label @ [Lit '' has '', Num (byte_len vals), Lit '' entries, max '', Num max_slice]))
      else check_slice_items label 0 vals)"

definition parse_required_time :: "message \<Rightarrow> string \<Rightarrow> instant checked" where
  "parse_required_time label raw =
     (if raw = [] then Inl (err_invalid_request (label @ [Lit '' is required'']))
      else case parse_rfc3339 raw of
        None \<Rightarrow> Inl (err_invalid_request (label @ [Lit '' '', Quoted raw, Lit '' is not an RFC 3339 timestamp'']))
      | Some t \<Rightarrow> Inr t)"

section \<open>Agents\<close>

record agent_dto =
  ad_id :: string
  ad_dns_name :: string
  ad_display_name :: string
  ad_description :: string
  ad_provider :: string
  ad_status :: string
  ad_protocols :: "string list"
  ad_transports :: "string list"
  ad_tags :: "string list"
  ad_capabilities :: "string list"
  ad_first_seen :: string
  ad_last_updated :: string

definition zero_agent_dto :: agent_dto where
  "zero_agent_dto =
     \<lparr>ad_id = [], ad_dns_name = [], ad_display_name = [], ad_description = [], ad_provider = [],
      ad_status = [], ad_protocols = [], ad_transports = [], ad_tags = [], ad_capabilities = [],
      ad_first_seen = [], ad_last_updated = []\<rparr>"

definition agent_fields :: "(string \<times> agent_dto field_decoder) list" where
  "agent_fields =
     [(''agentId'', \<lambda>j r. map_option (\<lambda>s. r\<lparr>ad_id := s\<rparr>) (string_value j (ad_id r))),
      (''dnsName'', \<lambda>j r. map_option (\<lambda>s. r\<lparr>ad_dns_name := s\<rparr>) (string_value j (ad_dns_name r))),
      (''displayName'', \<lambda>j r. map_option (\<lambda>s. r\<lparr>ad_display_name := s\<rparr>) (string_value j (ad_display_name r))),
      (''description'', \<lambda>j r. map_option (\<lambda>s. r\<lparr>ad_description := s\<rparr>) (string_value j (ad_description r))),
      (''providerId'', \<lambda>j r. map_option (\<lambda>s. r\<lparr>ad_provider := s\<rparr>) (string_value j (ad_provider r))),
      (''status'', \<lambda>j r. map_option (\<lambda>s. r\<lparr>ad_status := s\<rparr>) (string_value j (ad_status r))),
      (''protocols'', \<lambda>j r. map_option (\<lambda>s. r\<lparr>ad_protocols := s\<rparr>) (strings_value j (ad_protocols r))),
      (''transports'', \<lambda>j r. map_option (\<lambda>s. r\<lparr>ad_transports := s\<rparr>) (strings_value j (ad_transports r))),
      (''tags'', \<lambda>j r. map_option (\<lambda>s. r\<lparr>ad_tags := s\<rparr>) (strings_value j (ad_tags r))),
      (''capabilities'', \<lambda>j r. map_option (\<lambda>s. r\<lparr>ad_capabilities := s\<rparr>) (strings_value j (ad_capabilities r))),
      (''firstSeen'', \<lambda>j r. map_option (\<lambda>s. r\<lparr>ad_first_seen := s\<rparr>) (string_value j (ad_first_seen r))),
      (''lastUpdated'', \<lambda>j r. map_option (\<lambda>s. r\<lparr>ad_last_updated := s\<rparr>) (string_value j (ad_last_updated r)))]"

text \<open>The label \<open>agent %q NAME\<close>.\<close>

definition agent_label :: "agent_dto \<Rightarrow> string \<Rightarrow> message" where
  "agent_label d name = [Lit ''agent '', Quoted (ad_id d), Lit ('' '' @ name)]"

definition agent_to_domain :: "agent_dto \<Rightarrow> agent checked" where
  "agent_to_domain d =
     try_bind (ensure (ad_id d \<noteq> []) (err_invalid_request [Lit ''agent: agentId is required''])) (\<lambda>_.
     try_bind (check_str_len [Lit ''agentId''] (ad_id d) max_agent_id) (\<lambda>_.
     try_bind (ensure (ad_dns_name d \<noteq> [])
       (err_invalid_request [Lit ''agent '', Quoted (ad_id d), Lit '': dnsName is required''])) (\<lambda>_.
     try_bind (check_str_len (agent_label d ''dnsName'') (ad_dns_name d) max_dns_name) (\<lambda>_.
     try_bind (ensure (ad_display_name d \<noteq> [])
       (err_invalid_request [Lit ''agent '', Quoted (ad_id d), Lit '': displayName is required''])) (\<lambda>_.
     try_bind (check_str_len (agent_label d ''displayName'') (ad_display_name d) max_display_name) (\<lambda>_.
     try_bind (check_str_len (agent_label d ''description'') (ad_description d) max_description) (\<lambda>_.
     try_bind (check_str_len (agent_label d ''providerId'') (ad_provider d) max_provider_id) (\<lambda>_.
     try_bind (check_str_len (agent_label d ''status'') (ad_status d) max_status) (\<lambda>_.
     try_bind (ensure (status_valid (ad_status d))
       (err_invalid_request [Lit ''agent '', Quoted (ad_id d), Lit '': status '', Quoted (ad_status d),
          Lit '' is not one of ACTIVE|WARNING|DEPRECATED|EXPIRED|REVOKED''])) (\<lambda>_.
     try_bind (check_string_slice (agent_label d ''protocols'') (ad_protocols d)) (\<lambda>_.
     try_bind (check_string_slice (agent_label d ''transports'') (ad_transports d)) (\<lambda>_.
     try_bind (check_string_slice (agent_label d ''tags'') (ad_tags d)) (\<lambda>_.
     try_bind (check_string_slice (agent_label d ''capabilities'') (ad_capabilities d)) (\<lambda>_.
     try_bind (parse_required_time (agent_label d ''firstSeen'') (ad_first_seen d)) (\<lambda>first_seen.
     try_bind (parse_required_time (agent_label d ''lastUpdated'') (ad_last_updated d)) (\<lambda>last_updated.
       Inr \<lparr>a_id = ad_id d, a_dns_name = ad_dns_name d, a_display_name = ad_display_name d,
            a_description = ad_description d, a_provider = ad_provider d, a_status = ad_status d,
            a_protocols = ad_protocols d, a_transports = ad_transports d, a_tags = ad_tags d,
            a_capabilities = ad_capabilities d, a_first_seen = first_seen,
            a_last_updated = last_updated\<rparr>))))))))))))))))"

definition agents_to_domain :: "agent_dto list \<Rightarrow> agent list checked" where
  "agents_to_domain ds =
     (if ds = [] then Inl (err_invalid_request [Lit ''agents: at least one agent is required''])
      else collect agent_to_domain ds)"

section \<open>Observations\<close>

record provenance_dto =
  pd_aim_id :: string
  pd_evidence_url :: string

record observation_dto =
  od_agent :: string
  od_signal :: string
  od_observed_at :: string
  od_value :: string
  od_provenance :: "provenance_dto option"

definition zero_observation_dto :: observation_dto where
  "zero_observation_dto =
     \<lparr>od_agent = [], od_signal = [], od_observed_at = [], od_value = [], od_provenance = None\<rparr>"

definition provenance_dto_fields :: "(string \<times> provenance_dto field_decoder) list" where
  "provenance_dto_fields =
     [(''aimId'', \<lambda>j r. map_option (\<lambda>s. r\<lparr>pd_aim_id := s\<rparr>) (string_value j (pd_aim_id r))),
      (''evidenceUrl'', \<lambda>j r. map_option (\<lambda>s. r\<lparr>pd_evidence_url := s\<rparr>) (string_value j (pd_evidence_url r)))]"

text \<open>A pointer field: null clears it, an object fills the struct it points to, or a new one.\<close>

definition provenance_value :: "json \<Rightarrow> provenance_dto option \<Rightarrow> provenance_dto option option" where
  "provenance_value j old =
     (if j = JNull then Some None
      else map_option Some
        (decode_struct False provenance_dto_fields j
          (case old of None \<Rightarrow> \<lparr>pd_aim_id = [], pd_evidence_url = []\<rparr> | Some p \<Rightarrow> p)))"

definition observation_fields :: "(string \<times> observation_dto text_decoder) list" where
  "observation_fields =
     [(''agentId'', of_value (\<lambda>j r. map_option (\<lambda>s. r\<lparr>od_agent := s\<rparr>) (string_value j (od_agent r)))),
      (''signalId'', of_value (\<lambda>j r. map_option (\<lambda>s. r\<lparr>od_signal := s\<rparr>) (string_value j (od_signal r)))),
      (''observedAt'', of_value (\<lambda>j r. map_option (\<lambda>s. r\<lparr>od_observed_at := s\<rparr>) (string_value j (od_observed_at r)))),
      (''value'', \<lambda>text r. Some (r\<lparr>od_value := text\<rparr>)),
      (''provenance'', of_value (\<lambda>j r. map_option (\<lambda>p. r\<lparr>od_provenance := p\<rparr>) (provenance_value j (od_provenance r))))]"

definition provenance_to_domain ::
  "(string \<Rightarrow> string option) \<Rightarrow> provenance_dto option \<Rightarrow> provenance option checked" where
  "provenance_to_domain parse_host p =
     (case p of
        None \<Rightarrow> Inr None
      | Some q \<Rightarrow>
          try_bind (check_str_len [Lit ''provenance aimId''] (pd_aim_id q) max_provenance_id) (\<lambda>_.
          try_bind (check_str_len [Lit ''provenance evidenceUrl''] (pd_evidence_url q) max_provenance_url) (\<lambda>_.
          try_bind (check_evidence_url parse_host [Lit ''provenance evidenceUrl''] (pd_evidence_url q)) (\<lambda>_.
            Inr (Some \<lparr>p_aim_id = pd_aim_id q, p_evidence_url = pd_evidence_url q\<rparr>)))))"

definition observation_to_domain ::
  "(string \<Rightarrow> string option) \<Rightarrow> observation_dto \<Rightarrow> observation checked" where
  "observation_to_domain parse_host d =
     try_bind (ensure (od_agent d \<noteq> []) (err_invalid_request [Lit ''observation: agentId is required''])) (\<lambda>_.
     try_bind (check_str_len [Lit ''observation agentId''] (od_agent d) max_agent_id) (\<lambda>_.
     try_bind (ensure (od_signal d \<noteq> [])
       (err_invalid_request [Lit ''observation on agent '', Quoted (od_agent d), Lit '': signalId is required''])) (\<lambda>_.
     try_bind (check_str_len [Lit ''observation on agent '', Quoted (od_agent d), Lit '' signalId'']
       (od_signal d) max_signal_id) (\<lambda>_.
     try_bind (ensure (od_value d \<noteq> [] \<and> od_value d \<noteq> ''null'')
       (err_invalid_request [Lit ''observation for signal '', Quoted (od_signal d), Lit '' on agent '',
          Quoted (od_agent d), Lit '': value is required''])) (\<lambda>_.
     try_bind (ensure (byte_len (od_value d) \<le> max_observation_value)
       (err_invalid_request [Lit ''observation for signal '', Quoted (od_signal d), Lit '' on agent '',
          Quoted (od_agent d), Lit '': value is '', Num (byte_len (od_value d)), Lit '' bytes, max '',
          Num max_observation_value])) (\<lambda>_.
     try_bind (parse_required_time
       [Lit ''observation '', Quoted (od_agent d), Lit ''/'', Quoted (od_signal d), Lit '' observedAt'']
       (od_observed_at d)) (\<lambda>observed_at.
     try_bind (provenance_to_domain parse_host (od_provenance d)) (\<lambda>prov.
       Inr \<lparr>o_agent = od_agent d, o_signal = od_signal d, o_observed_at = observed_at,
            o_value = od_value d, o_provenance = prov\<rparr>))))))))"

definition observations_to_domain ::
  "(string \<Rightarrow> string option) \<Rightarrow> observation_dto list \<Rightarrow> observation list checked" where
  "observations_to_domain parse_host ds =
     (if ds = [] then Inl (err_invalid_request [Lit ''observations: at least one observation is required''])
      else collect (observation_to_domain parse_host) ds)"

section \<open>Request bodies\<close>

text \<open>\<open>decodeJSON\<close> into \<open>importAgentsRequest\<close> and \<open>importObservationsRequest\<close>: the first value
  of the body.\<close>

definition decode_body :: "'r text_decoder \<Rightarrow> 'r \<Rightarrow> string \<Rightarrow> 'r checked" where
  "decode_body dec zero body =
     (case raw_value body of
        None \<Rightarrow> Inl (err_invalid_request [Lit ''request body is not valid JSON: '', Cause ''json''])
      | Some (raw, _) \<Rightarrow>
          (case dec raw zero of
             None \<Rightarrow> Inl (err_invalid_request [Lit ''request body is not valid JSON: '', Cause ''json''])
           | Some r \<Rightarrow> Inr r))"

definition agents_request :: "agent_dto list text_decoder" where
  "agents_request =
     decode_object [(''agents'', decode_array (of_value (decode_struct False agent_fields)) zero_agent_dto)]"

definition observations_request :: "observation_dto list text_decoder" where
  "observations_request =
     decode_object [(''observations'', decode_array (decode_object observation_fields) zero_observation_dto)]"

end
