(* ===== verification/Registry.thy ===== *)
theory Registry
  imports TrustDomain
begin

text \<open>
  The in-memory signal registry (\<open>internal/scoring/registry\<close>): a map by id plus the
  registration order.  The locale \<open>signal_registry\<close> is the port the engine, the import
  service and the boot sequence use; its laws are proved of the registry below.
\<close>

section \<open>The port\<close>

text \<open>
  What a registry promises: ids are non-empty and unique, \<open>All\<close> lists the signals in
  registration order, \<open>Get\<close> finds exactly those, and \<open>Register\<close> appends.
\<close>

locale signal_registry =
  fixes valid :: "'r \<Rightarrow> bool"
    and register :: "signal \<Rightarrow> 'r \<Rightarrow> (message, 'r) result"
    and lookup :: "'r \<Rightarrow> signal_id \<Rightarrow> signal option"
    and all_of :: "'r \<Rightarrow> signal list"
  assumes register_valid: "valid r \<Longrightarrow> register s r = Inr r' \<Longrightarrow> valid r'"
    and register_all: "valid r \<Longrightarrow> register s r = Inr r' \<Longrightarrow> all_of r' = all_of r @ [s]"
    and register_ok_iff:
      "valid r \<Longrightarrow> (\<exists>r'. register s r = Inr r') \<longleftrightarrow> sig_id s \<noteq> [] \<and> sig_id s \<notin> sig_id ` set (all_of r)"
    and lookup_iff: "valid r \<Longrightarrow> lookup r i = Some s \<longleftrightarrow> s \<in> set (all_of r) \<and> sig_id s = i"
    and all_distinct: "valid r \<Longrightarrow> distinct (map sig_id (all_of r))"
begin

text \<open>The boot loop: register a list, stopping at the first refusal.\<close>

fun register_list :: "signal list \<Rightarrow> 'r \<Rightarrow> (message, 'r) result" where
  "register_list [] r = Inr r"
| "register_list (s # ss) r =
     (case register s r of Inl err \<Rightarrow> Inl err | Inr r' \<Rightarrow> register_list ss r')"

lemma register_list_all:
  "valid r \<Longrightarrow> register_list ss r = Inr r' \<Longrightarrow> valid r' \<and> all_of r' = all_of r @ ss"
proof (induction ss arbitrary: r)
  case (Cons s ss)
  then obtain r1 where "register s r = Inr r1" "register_list ss r1 = Inr r'"
    by (auto split: sum.splits)
  with Cons.IH [of r1] Cons.prems(1) register_valid register_all show ?case by auto
qed simp

lemma register_list_ok_iff:
  "valid r \<Longrightarrow> (\<exists>r'. register_list ss r = Inr r') \<longleftrightarrow>
     distinct (map sig_id ss) \<and> [] \<notin> sig_id ` set ss
     \<and> sig_id ` set ss \<inter> sig_id ` set (all_of r) = {}"
proof (induction ss arbitrary: r)
  case (Cons s ss)
  show ?case
  proof (cases "register s r")
    case (Inl err)
    then have "\<not> (\<exists>r'. register s r = Inr r')" by simp
    with register_ok_iff [OF Cons.prems, of s] Inl show ?thesis by auto
  next
    case (Inr r1)
    with Cons.prems have r1: "valid r1" "all_of r1 = all_of r @ [s]"
      "sig_id s \<noteq> []" "sig_id s \<notin> sig_id ` set (all_of r)"
      using register_valid register_all register_ok_iff by blast+
    have "(\<exists>r'. register_list (s # ss) r = Inr r') \<longleftrightarrow> (\<exists>r'. register_list ss r1 = Inr r')"
      using Inr by simp
    with Cons.IH [OF r1(1)] r1 show ?thesis by auto
  qed
qed simp

end

section \<open>The registry (registry.go)\<close>

record registry =
  reg_signals :: "signal_id \<rightharpoonup> signal"
  reg_order :: "signal_id list"

definition new_registry :: registry where
  "new_registry = \<lparr>reg_signals = Map.empty, reg_order = []\<rparr>"

definition register :: "signal \<Rightarrow> registry \<Rightarrow> (message, registry) result" where
  "register s r =
     (if sig_id s = [] then Inl [Lit ''registry: signal has an empty ID'']
      else if reg_signals r (sig_id s) \<noteq> None
      then Inl [Lit ''registry: signal '', Quoted (sig_id s), Lit '' already registered'']
      else Inr (r\<lparr>reg_signals := (reg_signals r)(sig_id s \<mapsto> s),
                  reg_order := reg_order r @ [sig_id s]\<rparr>))"

definition get_signal :: "registry \<Rightarrow> signal_id \<Rightarrow> signal option" where
  "get_signal r i = reg_signals r i"

definition all_signals :: "registry \<Rightarrow> signal list" where
  "all_signals r = map (\<lambda>i. the (reg_signals r i)) (reg_order r)"

text \<open>The order lists the keys of the map once each, and every signal sits under its id.\<close>

definition registry_valid :: "registry \<Rightarrow> bool" where
  "registry_valid r \<longleftrightarrow>
     distinct (reg_order r) \<and> set (reg_order r) = dom (reg_signals r)
     \<and> (\<forall>i s. reg_signals r i = Some s \<longrightarrow> sig_id s = i)"

lemma new_registry_valid: "registry_valid new_registry"
  by (simp add: registry_valid_def new_registry_def)

lemma all_signals_new [simp]: "all_signals new_registry = []"
  by (simp add: all_signals_def new_registry_def)

lemma all_signals_ids: "registry_valid r \<Longrightarrow> map sig_id (all_signals r) = reg_order r"
proof -
  assume r: "registry_valid r"
  have "sig_id (the (reg_signals r i)) = i" if "i \<in> set (reg_order r)" for i
    using r that by (auto simp: registry_valid_def)
  then show ?thesis by (simp add: all_signals_def map_idI)
qed

interpretation reg: signal_registry registry_valid register get_signal all_signals
proof
  fix r r' :: registry and s :: signal and i :: signal_id
  assume r: "registry_valid r"
  have ids: "sig_id ` set (all_signals r) = dom (reg_signals r)"
    using arg_cong [OF all_signals_ids [OF r], of set] r by (simp add: registry_valid_def)
  show "registry_valid r'" if "register s r = Inr r'"
    using that r by (auto simp: register_def registry_valid_def split: if_splits)
  show "all_signals r' = all_signals r @ [s]" if "register s r = Inr r'"
  proof -
    have "sig_id s \<notin> set (reg_order r)"
      using that r by (auto simp: register_def registry_valid_def split: if_splits)
    then show ?thesis using that by (auto simp: register_def all_signals_def split: if_splits)
  qed
  show "(\<exists>r'. register s r = Inr r') \<longleftrightarrow> sig_id s \<noteq> [] \<and> sig_id s \<notin> sig_id ` set (all_signals r)"
    unfolding ids by (auto simp: register_def)
  show "get_signal r i = Some s \<longleftrightarrow> s \<in> set (all_signals r) \<and> sig_id s = i"
  proof
    assume "get_signal r i = Some s"
    moreover from this r have "i \<in> set (reg_order r)" by (auto simp: get_signal_def registry_valid_def)
    ultimately show "s \<in> set (all_signals r) \<and> sig_id s = i"
      using r by (auto simp: get_signal_def all_signals_def registry_valid_def intro!: image_eqI [of _ _ i])
  next
    assume s: "s \<in> set (all_signals r) \<and> sig_id s = i"
    then obtain j where j: "j \<in> set (reg_order r)" "s = the (reg_signals r j)"
      by (auto simp: all_signals_def)
    then obtain s' where "reg_signals r j = Some s'" using r by (auto simp: registry_valid_def)
    with j s r show "get_signal r i = Some s" by (auto simp: get_signal_def registry_valid_def)
  qed
  show "distinct (map sig_id (all_signals r))"
    using all_signals_ids [OF r] r by (simp add: registry_valid_def)
qed

end
