(* ===== verification/SignalContract.thy ===== *)
theory SignalContract
  imports TrustDomain
begin

text \<open>
  The interface between the signals and the rest of the program: what the engine and the import
  service rely on when they call a signal.  The built-ins and the score container are shown to
  provide it (\<open>SignalFacts\<close>, \<open>ScoreContainer\<close>); the engine's lemmas are
  proved from it.
\<close>

text \<open>The risk-code shape, the regular expression \<open>^[A-Z0-9_]+$\<close>.\<close>

definition risk_code_char :: "char \<Rightarrow> bool" where
  "risk_code_char c \<longleftrightarrow> ascii_upper c \<or> ascii_digit c \<or> c = CHR ''_''"

definition risk_code_ok :: "string \<Rightarrow> bool" where
  "risk_code_ok s \<longleftrightarrow> s \<noteq> [] \<and> list_all risk_code_char s"

definition good_result :: "signal_result \<Rightarrow> bool" where
  "good_result r \<longleftrightarrow> 0 \<le> r_raw r \<and> r_raw r \<le> 100 \<and> list_all risk_code_ok (r_risks r)"

text \<open>What the engine passes: an accepted observation, or none when absence is informative.\<close>

definition admissible :: "signal \<Rightarrow> observation option \<Rightarrow> bool" where
  "admissible sg obs \<longleftrightarrow>
     (case obs of None \<Rightarrow> sig_absence sg \<noteq> Some False
      | Some ob \<Rightarrow> sig_validate sg (o_value ob) = None)"

text \<open>
  A value that \<open>Validate\<close> accepts evaluates without error to a raw score in 0..100 and
  well-formed risk codes.  So does a missing observation, unless the signal declares absence
  non-informative, in which case the engine does not evaluate it.
\<close>

locale signal_contract =
  fixes sg :: signal
  assumes accepted:
      "sig_validate sg (o_value ob) = None \<Longrightarrow> \<exists>r. sig_evaluate sg a (Some ob) = Inr r \<and> good_result r"
    and absent:
      "sig_absence sg \<noteq> Some False \<Longrightarrow> \<exists>r. sig_evaluate sg a None = Inr r \<and> good_result r"
begin

lemma evaluates:
  assumes "admissible sg obs"
  obtains r where "sig_evaluate sg a obs = Inr r" and "good_result r"
proof -
  have "\<exists>r. sig_evaluate sg a obs = Inr r \<and> good_result r"
    using assms accepted absent by (cases obs) (simp_all add: admissible_def)
  then show thesis using that by blast
qed

lemma no_error: "admissible sg obs \<Longrightarrow> sig_evaluate sg a obs \<noteq> Inl err"
  by (metis evaluates sum.distinct(1))

lemma bounded: "admissible sg obs \<Longrightarrow> sig_evaluate sg a obs = Inr r \<Longrightarrow> good_result r"
  by (metis evaluates sum.inject(2))

end

end
