(* ===== verification/ImportSvc.thy ===== *)
theory ImportSvc
  imports ImportDto Store Registry SignalContract
begin

text \<open>
  The import service (\<open>internal/importsvc\<close>): the batch operations over the storage and
  registry ports, the two HTTP handlers, and the admin-key middleware.  The storage port is a
  record of the operations the service calls; \<open>sqlite_port\<close> is the store of theory
  \<open>Store\<close>.
\<close>

section \<open>Errors (errors.go)\<close>

definition CodeAgentNotFound :: string where "CodeAgentNotFound = ''AGENT_NOT_FOUND''"
definition CodeUnknownSignal :: string where "CodeUnknownSignal = ''UNKNOWN_SIGNAL''"
definition CodeInvalidSignal :: string where "CodeInvalidSignal = ''INVALID_SIGNAL''"
definition CodeInvalidSignalValue :: string where "CodeInvalidSignalValue = ''INVALID_SIGNAL_VALUE''"
definition CodeUnauthorized :: string where "CodeUnauthorized = ''UNAUTHORIZED''"

lemmas import_code_defs [go_defs] =
  CodeAgentNotFound_def CodeUnknownSignal_def CodeInvalidSignal_def CodeInvalidSignalValue_def
  CodeUnauthorized_def CodeInvalidRequest_def

definition err_agent_not_found :: "agent_id \<Rightarrow> web_error" where
  "err_agent_not_found i = new_error 422 CodeAgentNotFound [Lit ''agent '', Quoted i, Lit '' not found'']"

definition err_unknown_signal :: "signal_id \<Rightarrow> web_error" where
  "err_unknown_signal i =
     new_error 422 CodeUnknownSignal [Lit ''signal '', Quoted i, Lit '' is not registered in this binary'']"

definition err_derived_signal :: "signal_id \<Rightarrow> web_error" where
  "err_derived_signal i =
     new_error 422 CodeInvalidSignal
       [Lit ''signal '', Quoted i, Lit '' is derived and does not accept imported observations'']"

definition err_invalid_signal_value :: "agent_id \<Rightarrow> signal_id \<Rightarrow> message \<Rightarrow> web_error" where
  "err_invalid_signal_value a s cause =
     new_error 422 CodeInvalidSignalValue
       ([Lit ''observation value for signal '', Quoted s, Lit '' on agent '', Quoted a, Lit '' is invalid: ''] @ cause)"

lemmas import_error_defs =
  err_agent_not_found_def err_unknown_signal_def err_derived_signal_def err_invalid_signal_value_def
  err_invalid_request_def new_error_def

section \<open>The service (service.go)\<close>

record 's store_port =
  sp_get :: "agent_id \<Rightarrow> 's \<Rightarrow> (store_error, agent option) result"
  sp_upserts :: "agent list \<Rightarrow> 's \<Rightarrow> 's \<times> store_error option"
  sp_appends :: "observation list \<Rightarrow> 's \<Rightarrow> 's \<times> store_error option"

definition sqlite_port :: "db store_port" where
  "sqlite_port = \<lparr>sp_get = get_agent, sp_upserts = upsert_agents, sp_appends = append_observations\<rparr>"

definition import_agents :: "'s store_port \<Rightarrow> agent list \<Rightarrow> 's \<Rightarrow> 's \<times> app_error option" where
  "import_agents sp as d =
     (case sp_upserts sp as d of
        (d', None) \<Rightarrow> (d', None)
      | (d', Some e) \<Rightarrow>
          (d', Some (Internal [Lit ''importsvc: upsert agents batch (n='', Num (int (length as)), Lit ''): '',
             Cause ''sqlitestore''])))"

definition validate_observation ::
  "'s store_port \<Rightarrow> (signal_id \<Rightarrow> signal option) \<Rightarrow> 's \<Rightarrow> observation \<Rightarrow> app_error option" where
  "validate_observation sp lookup d ob =
     (case sp_get sp (o_agent ob) d of
        Inl e \<Rightarrow> Some (Internal [Lit ''importsvc: lookup agent '', Quoted (o_agent ob), Lit '': '', Cause ''sqlitestore''])
      | Inr None \<Rightarrow> Some (Typed (err_agent_not_found (o_agent ob)))
      | Inr (Some a) \<Rightarrow>
          (case lookup (o_signal ob) of
             None \<Rightarrow> Some (Typed (err_unknown_signal (o_signal ob)))
           | Some sg \<Rightarrow>
               if sig_derived sg then Some (Typed (err_derived_signal (o_signal ob)))
               else (case sig_validate sg (o_value ob) of
                       Some cause \<Rightarrow> Some (Typed (err_invalid_signal_value (o_agent ob) (o_signal ob) cause))
                     | None \<Rightarrow> None)))"

definition import_observations ::
  "'s store_port \<Rightarrow> (signal_id \<Rightarrow> signal option) \<Rightarrow> observation list \<Rightarrow> 's \<Rightarrow> 's \<times> app_error option" where
  "import_observations sp lookup obs d =
     (case check_all (validate_observation sp lookup d) obs of
        Some e \<Rightarrow> (d, Some e)
      | None \<Rightarrow>
          (case sp_appends sp obs d of
             (d', None) \<Rightarrow> (d', None)
           | (d', Some e) \<Rightarrow>
               (d', Some (Internal [Lit ''importsvc: append observations batch (n='', Num (int (length obs)),
                  Lit ''): '', Cause ''sqlitestore'']))))"

section \<open>The handlers (handler.go)\<close>

text \<open>A handler's response, the batch size it reports for the audit line, and the store after.\<close>

record import_ack =
  ack_imported :: int

record 's handled =
  h_response :: "import_ack response"
  h_accepted :: int
  h_store :: 's

definition reject :: "app_error \<Rightarrow> 's \<Rightarrow> 's handled" where
  "reject e d = \<lparr>h_response = write_problem e, h_accepted = 0, h_store = d\<rparr>"

definition acknowledge :: "'a list \<Rightarrow> 's \<Rightarrow> 's handled" where
  "acknowledge batch d =
     \<lparr>h_response = write_json 200 \<lparr>ack_imported = int (length batch)\<rparr>, h_accepted = int (length batch),
      h_store = d\<rparr>"

definition import_agents_handler :: "'s store_port \<Rightarrow> string \<Rightarrow> 's \<Rightarrow> 's handled" where
  "import_agents_handler sp body d =
     (case try_bind (decode_body agents_request [] body) agents_to_domain of
        Inl e \<Rightarrow> reject (Typed e) d
      | Inr as \<Rightarrow>
          (case import_agents sp as d of
             (d', Some e) \<Rightarrow> reject e d'
           | (d', None) \<Rightarrow> acknowledge as d'))"

definition import_observations_handler ::
  "(string \<Rightarrow> string option) \<Rightarrow> 's store_port \<Rightarrow> (signal_id \<Rightarrow> signal option) \<Rightarrow> string \<Rightarrow> 's \<Rightarrow> 's handled" where
  "import_observations_handler parse_host sp lookup body d =
     (case try_bind (decode_body observations_request [] body) (observations_to_domain parse_host) of
        Inl e \<Rightarrow> reject (Typed e) d
      | Inr obs \<Rightarrow>
          (case import_observations sp lookup obs d of
             (d', Some e) \<Rightarrow> reject e d'
           | (d', None) \<Rightarrow> acknowledge obs d'))"

section \<open>The admin key (auth.go)\<close>

record admin_config =
  ac_require_key :: bool
  ac_key :: string

text \<open>A handler finishes, or panics before it wrote anything and leaves a store behind.  The
  middleware maps the \<open>Authorization\<close> header and the handler behind it to a handler.\<close>

type_synonym 's handler = "'s \<Rightarrow> 's handled + 's"
type_synonym 's middleware = "string \<Rightarrow> 's handler \<Rightarrow> 's handler"

definition new_admin_auth :: "admin_config \<Rightarrow> (message, 's middleware) result" where
  "new_admin_auth cfg =
     (if ac_require_key cfg \<and> ac_key cfg = []
      then Inl [Lit ''importsvc: admin.requireKey is true but admin.key is empty'']
      else Inr (\<lambda>authorization next d.
        if \<not> ac_require_key cfg then next d
        else if authorization \<noteq> ''Bearer '' @ ac_key cfg
        then Inl (reject (Typed (new_error 401 CodeUnauthorized [Lit ''missing or invalid admin bearer key''])) d)
        else next d))"

section \<open>Errors of the service\<close>

text \<open>Every refusal is an error status, and the refusals of the checks are 400 or 422.\<close>

lemma check_str_len_ok [result_simps]: "check_str_len l s n = Inr u \<longleftrightarrow> byte_len s \<le> n"
  by (simp add: check_str_len_def ensure_Inr_iff)

lemma check_slice_items_ok: "check_slice_items l i vs = Inr u \<longleftrightarrow> (\<forall>v \<in> set vs. byte_len v \<le> max_slice_item)"
  by (induction vs arbitrary: i) auto

lemma check_string_slice_ok [result_simps]:
  "check_string_slice l vs = Inr u \<longleftrightarrow> byte_len vs \<le> max_slice \<and> (\<forall>v \<in> set vs. byte_len v \<le> max_slice_item)"
  by (auto simp: check_string_slice_def check_slice_items_ok)

lemma parse_required_time_ok [result_simps]:
  "parse_required_time l raw = Inr t \<longleftrightarrow> raw \<noteq> [] \<and> parse_rfc3339 raw = Some t"
  by (auto simp: parse_required_time_def split: option.splits)

text \<open>An agent the conversion accepts: the fields it was sent with, within the caps.\<close>

lemma agent_to_domain_ok:
  "agent_to_domain d = Inr a \<longleftrightarrow>
     ad_id d \<noteq> [] \<and> byte_len (ad_id d) \<le> max_agent_id
     \<and> ad_dns_name d \<noteq> [] \<and> byte_len (ad_dns_name d) \<le> max_dns_name
     \<and> ad_display_name d \<noteq> [] \<and> byte_len (ad_display_name d) \<le> max_display_name
     \<and> byte_len (ad_description d) \<le> max_description \<and> byte_len (ad_provider d) \<le> max_provider_id
     \<and> byte_len (ad_status d) \<le> max_status \<and> status_valid (ad_status d)
     \<and> (\<forall>vs \<in> {ad_protocols d, ad_transports d, ad_tags d, ad_capabilities d}.
          byte_len vs \<le> max_slice \<and> (\<forall>v \<in> set vs. byte_len v \<le> max_slice_item))
     \<and> ad_first_seen d \<noteq> [] \<and> parse_rfc3339 (ad_first_seen d) = Some (a_first_seen a)
     \<and> ad_last_updated d \<noteq> [] \<and> parse_rfc3339 (ad_last_updated d) = Some (a_last_updated a)
     \<and> a_id a = ad_id d \<and> a_dns_name a = ad_dns_name d \<and> a_display_name a = ad_display_name d
     \<and> a_description a = ad_description d \<and> a_provider a = ad_provider d \<and> a_status a = ad_status d
     \<and> a_protocols a = ad_protocols d \<and> a_transports a = ad_transports d \<and> a_tags a = ad_tags d
     \<and> a_capabilities a = ad_capabilities d"
  unfolding agent_to_domain_def result_simps
  by (cases a) auto

lemma check_evidence_url_ok:
  "check_evidence_url ph l raw = Inr u \<longleftrightarrow> raw = []
     \<or> (\<exists>v. url_parse ph raw = Some v \<and> u_scheme v \<in> {''http'', ''https''} \<and> u_host v \<noteq> [] \<and> \<not> u_has_user v)"
  by (auto simp: check_evidence_url_def split: option.splits)

lemma observation_to_domain_ok:
  "observation_to_domain ph d = Inr ob \<longleftrightarrow>
     od_agent d \<noteq> [] \<and> byte_len (od_agent d) \<le> max_agent_id
     \<and> od_signal d \<noteq> [] \<and> byte_len (od_signal d) \<le> max_signal_id
     \<and> od_value d \<noteq> [] \<and> od_value d \<noteq> ''null'' \<and> byte_len (od_value d) \<le> max_observation_value
     \<and> od_observed_at d \<noteq> [] \<and> parse_rfc3339 (od_observed_at d) = Some (o_observed_at ob)
     \<and> provenance_to_domain ph (od_provenance d) = Inr (o_provenance ob)
     \<and> o_agent ob = od_agent d \<and> o_signal ob = od_signal d \<and> o_value ob = od_value d"
  unfolding observation_to_domain_def result_simps
  by (cases ob) auto

lemma provenance_to_domain_ok:
  "provenance_to_domain ph p = Inr q \<longleftrightarrow>
     (case p of
        None \<Rightarrow> q = None
      | Some x \<Rightarrow> byte_len (pd_aim_id x) \<le> max_provenance_id \<and> byte_len (pd_evidence_url x) \<le> max_provenance_url
          \<and> check_evidence_url ph [Lit ''provenance evidenceUrl''] (pd_evidence_url x) = Inr ()
          \<and> q = Some \<lparr>p_aim_id = pd_aim_id x, p_evidence_url = pd_evidence_url x\<rparr>)"
  by (cases p) (auto simp: provenance_to_domain_def result_simps)

end
