(* ===== verification/StoreFacts.thy ===== *)
theory StoreFacts
  imports Store
begin

text \<open>
  What the store promises: the invariant of its tables and that every operation keeps it, the
  round trip of agents, all-or-nothing batches, the idempotent observation log (the locale
  \<open>observation_log\<close>, interpreted on the model), the latest observation against its
  specification, and the pruner.
\<close>

section \<open>Transactions\<close>

lemma run_rows_append:
  "run_rows step (xs @ ys) d = (case run_rows step xs d of Inl e \<Rightarrow> Inl e | Inr d' \<Rightarrow> run_rows step ys d')"
  by (induction xs arbitrary: d) (auto split: sum.splits)

lemma run_rows_invariant:
  assumes "\<And>x d d'. P d \<Longrightarrow> x \<in> set xs \<Longrightarrow> step x d = Inr d' \<Longrightarrow> P d'"
  shows "run_rows step xs d = Inr d' \<Longrightarrow> P d \<Longrightarrow> P d'"
  using assms
proof (induction xs arbitrary: d)
  case (Cons x xs)
  from Cons.prems(1) obtain d1 where d1: "step x d = Inr d1" "run_rows step xs d1 = Inr d'"
    by (auto split: sum.splits)
  have "P d1" by (rule Cons.prems(3) [OF Cons.prems(2) _ d1(1)]) simp
  with d1(2) show ?case by (rule Cons.IH) (rule Cons.prems(3), assumption, rule list.set_intros(2), assumption, assumption)
qed simp

lemma run_rows_succeeds:
  assumes "\<And>x d. x \<in> set xs \<Longrightarrow> \<exists>d'. step x d = Inr d'"
  shows "\<exists>d'. run_rows step xs d = Inr d'"
  using assms
proof (induction xs arbitrary: d)
  case (Cons x xs)
  then obtain d1 where "step x d = Inr d1" by fastforce
  with Cons show ?case by simp
qed simp

section \<open>The observation log as an interface\<close>

text \<open>
  What a producer relies on: appending records an observation, keeps what is recorded, and an
  observation already recorded is a no-op.
\<close>

locale observation_log =
  fixes ok :: "'d \<Rightarrow> bool"
    and append_one :: "observation \<Rightarrow> 'd \<Rightarrow> ('e, 'd) result"
    and recorded :: "'d \<Rightarrow> observation \<Rightarrow> bool"
  assumes append_ok: "ok d \<Longrightarrow> append_one ob d = Inr d' \<Longrightarrow> ok d'"
    and append_records: "ok d \<Longrightarrow> append_one ob d = Inr d' \<Longrightarrow> recorded d' ob"
    and append_keeps: "ok d \<Longrightarrow> append_one ob' d = Inr d' \<Longrightarrow> recorded d ob \<Longrightarrow> recorded d' ob"
    and append_again: "ok d \<Longrightarrow> recorded d ob \<Longrightarrow> append_one ob d = Inr d"
begin

lemma batch_keeps:
  "ok d \<Longrightarrow> run_rows append_one obs d = Inr d' \<Longrightarrow> ok d' \<and> (\<forall>ob. recorded d ob \<longrightarrow> recorded d' ob)"
proof (induction obs arbitrary: d)
  case (Cons ob obs)
  then obtain d1 where d1: "append_one ob d = Inr d1" "run_rows append_one obs d1 = Inr d'"
    by (auto split: sum.splits)
  with Cons.IH [OF _ d1(2)] Cons.prems(1) show ?case using append_ok append_keeps by blast
qed simp

lemma batch_records:
  "ok d \<Longrightarrow> run_rows append_one obs d = Inr d' \<Longrightarrow> ob \<in> set obs \<Longrightarrow> recorded d' ob"
proof (induction obs arbitrary: d)
  case (Cons x obs)
  then obtain d1 where d1: "append_one x d = Inr d1" "run_rows append_one obs d1 = Inr d'"
    by (auto split: sum.splits)
  have "ok d1" using append_ok Cons.prems(1) d1(1) .
  moreover have "recorded d1 x" using append_records Cons.prems(1) d1(1) .
  ultimately show ?case using Cons.IH [OF _ d1(2)] batch_keeps [OF _ d1(2)] Cons.prems(3) by auto
qed simp

lemma replay:
  assumes "ok d" and "\<forall>ob \<in> set obs. recorded d ob"
  shows "run_rows append_one obs d = Inr d"
  using assms by (induction obs) (auto simp: append_again)

end

section \<open>The invariant of the tables\<close>

definition store_valid :: "db \<Rightarrow> bool" where
  "store_valid d \<longleftrightarrow>
     distinct (map ar_id (db_agents d)) \<and> (\<forall>r \<in> set (db_agents d). status_valid (ar_status r))
     \<and> db_fts d = map fts_of (db_agents d)
     \<and> or_agent ` set (db_obs d) \<subseteq> ar_id ` set (db_agents d)
     \<and> (\<forall>x \<in> set (db_obs d). \<forall>y \<in> set (db_obs d). same_key x y \<longrightarrow> x = y)
     \<and> sorted_wrt (\<lambda>x y. or_id x < or_id y) (db_obs d)
     \<and> (\<forall>r \<in> set (db_obs d). or_id r < db_next_obs d)"

lemma empty_db_valid: "store_valid empty_db"
  by (simp add: store_valid_def empty_db_def)

lemma upsert_row_valid:
  assumes "store_valid d" and "upsert_row r d = Some d'"
  shows "store_valid d'"
proof (cases "list_ex (\<lambda>x. ar_id x = ar_id r) (db_agents d)")
  case True
  let ?f = "\<lambda>x. if ar_id x = ar_id r then r else x"
  have d': "d' = d\<lparr>db_agents := map ?f (db_agents d), db_fts := map (fts_update r) (db_fts d)\<rparr>"
    and s: "status_valid (ar_status r)"
    using assms(2) True by (auto simp: upsert_row_def split: if_splits)
  have ids: "ar_id \<circ> ?f = ar_id" by (simp add: fun_eq_iff)
  have "fts_update r (fts_of x) = fts_of (?f x)" for x
    by (simp add: fts_update_def fts_of_def)
  then have "map (fts_update r) (db_fts d) = map fts_of (map ?f (db_agents d))"
    using assms(1) by (simp add: store_valid_def)
  moreover have "ar_id ` ?f ` set (db_agents d) = ar_id ` set (db_agents d)"
    by (simp only: image_comp ids)
  ultimately show ?thesis using assms(1) s unfolding d' store_valid_def
    by (simp add: ids) auto
next
  case False
  then have "d' = d\<lparr>db_agents := db_agents d @ [r], db_fts := db_fts d @ [fts_of r]\<rparr>"
    and "status_valid (ar_status r)"
    using assms(2) by (auto simp: upsert_row_def split: if_splits)
  with False assms(1) show ?thesis by (auto simp: store_valid_def list_ex_iff)
qed

lemma insert_obs_valid:
  assumes "store_valid d" and "insert_obs r d = Some d'"
  shows "store_valid d'"
proof (cases "list_ex (same_key r) (db_obs d)")
  case False
  with assms(2) have ex: "list_ex (\<lambda>x. ar_id x = or_agent r) (db_agents d)"
    and d': "d' = d\<lparr>db_obs := db_obs d @ [r\<lparr>or_id := db_next_obs d\<rparr>], db_next_obs := Suc (db_next_obs d)\<rparr>"
    by (simp_all add: insert_obs_def split: if_splits)
  from ex have a: "or_agent r \<in> ar_id ` set (db_agents d)" by (force simp: list_ex_iff)
  have "\<not> same_key (r\<lparr>or_id := db_next_obs d\<rparr>) x \<and> \<not> same_key x (r\<lparr>or_id := db_next_obs d\<rparr>)"
    if "x \<in> set (db_obs d)" for x
    using False that by (auto simp: list_ex_iff same_key_def)
  with a assms(1) show ?thesis
    unfolding d' store_valid_def by (auto simp: sorted_wrt_append less_Suc_eq)
qed (use assms in \<open>auto simp: insert_obs_def\<close>)

lemma upsert_agent_valid: "store_valid d \<Longrightarrow> upsert_agent a d = Inr d' \<Longrightarrow> store_valid d'"
  by (auto simp: upsert_agent_def upsert_row_valid split: option.splits)

lemma append_observation_valid: "store_valid d \<Longrightarrow> append_observation ob d = Inr d' \<Longrightarrow> store_valid d'"
  by (auto simp: append_observation_def insert_obs_valid split: option.splits)

lemma in_transaction_invariant:
  assumes "\<And>x d d'. P d \<Longrightarrow> step x d = Inr d' \<Longrightarrow> P d'" and "P d"
  shows "P (fst (in_transaction step xs d))"
  using run_rows_invariant [of P xs step d] assms by (simp add: in_transaction_def split: sum.split)

lemma prune_observations_valid: "store_valid d \<Longrightarrow> store_valid (fst (prune_observations k d))"
  by (auto simp: store_valid_def prune_observations_def Let_def intro: sorted_wrt_filter)

text \<open>The states a process reaches from the freshly migrated tables.\<close>

inductive store_reachable :: "db \<Rightarrow> bool" where
  fresh: "store_reachable empty_db"
| upserted: "store_reachable d \<Longrightarrow> store_reachable (fst (upsert_agents as d))"
| appended: "store_reachable d \<Longrightarrow> store_reachable (fst (append_observations obs d))"
| pruned: "store_reachable d \<Longrightarrow> store_reachable (fst (prune_observations keep d))"

inductive_cases store_reachableE: "store_reachable d"

lemma reachable_valid: "store_reachable d \<Longrightarrow> store_valid d"
proof (induction rule: store_reachable.induct)
  case (upserted d as)
  then show ?case
    using in_transaction_invariant [of store_valid upsert_agent] upsert_agent_valid
    by (simp add: upsert_agents_def)
next
  case (appended d obs)
  then show ?case
    using in_transaction_invariant [of store_valid append_observation] append_observation_valid
    by (simp add: append_observations_def)
qed (simp_all add: empty_db_valid prune_observations_valid)

text \<open>C21 In every state the store reaches, agent ids are unique, statuses are valid, the
  full-text index is in lockstep with the agents, every observation belongs to a stored agent,
  and no two observations share agent, signal and timestamp.\<close>

theorem reachable_tables:
  assumes "store_reachable d"
  shows "distinct (map ar_id (db_agents d)) \<and> (\<forall>r \<in> set (db_agents d). status_valid (ar_status r))
    \<and> db_fts d = map fts_of (db_agents d)
    \<and> (\<forall>x \<in> set (db_obs d). \<exists>r \<in> set (db_agents d). ar_id r = or_agent x)
    \<and> (\<forall>x \<in> set (db_obs d). \<forall>y \<in> set (db_obs d). same_key x y \<longrightarrow> x = y)"
proof (intro conjI)
  have v: "store_valid d" using assms by (rule reachable_valid)
  show "\<forall>x \<in> set (db_obs d). \<exists>r \<in> set (db_agents d). ar_id r = or_agent x"
    using v by (fastforce simp: store_valid_def)
qed (use reachable_valid [OF assms] in \<open>simp_all add: store_valid_def\<close>)

definition recorded_in :: "db \<Rightarrow> observation \<Rightarrow> bool" where
  "recorded_in d ob = list_ex (same_key (row_of_obs ob)) (db_obs d)"

interpretation log: observation_log store_valid append_observation recorded_in
proof
  fix d d' :: db and ob ob' :: observation
  assume d: "store_valid d"
  show "store_valid d'" if "append_observation ob d = Inr d'"
    using d that by (rule append_observation_valid)
  show "recorded_in d' ob" if "append_observation ob d = Inr d'"
    using that by (auto simp: append_observation_def insert_obs_def recorded_in_def same_key_def
        split: if_splits)
  show "recorded_in d' ob" if "append_observation ob' d = Inr d'" "recorded_in d ob"
    using that by (auto simp: append_observation_def insert_obs_def recorded_in_def split: if_splits)
  show "append_observation ob d = Inr d" if "recorded_in d ob"
    using that by (simp add: append_observation_def insert_obs_def recorded_in_def)
qed

section \<open>Agents\<close>

text \<open>Agents whose texts are UTF-8 and whose years have four digits are stored faithfully, to the second.\<close>

definition storable_agent :: "agent \<Rightarrow> bool" where
  "storable_agent a \<longleftrightarrow>
     list_all utf8_valid (a_protocols a) \<and> list_all utf8_valid (a_transports a)
     \<and> list_all utf8_valid (a_tags a) \<and> list_all utf8_valid (a_capabilities a)
     \<and> four_digit_year (a_first_seen a) \<and> four_digit_year (a_last_updated a)"

definition whole_seconds :: "instant \<Rightarrow> instant" where
  "whole_seconds t = seconds_of t * 1000000000"

definition stored_agent :: "agent \<Rightarrow> agent" where
  "stored_agent a =
     a\<lparr>a_first_seen := whole_seconds (a_first_seen a), a_last_updated := whole_seconds (a_last_updated a)\<rparr>"

lemma scan_row_of_agent:
  assumes "storable_agent a"
  shows "scan_agent (row_of_agent a) = Inr (stored_agent a)"
  using assms
  by (cases a)
    (simp add: storable_agent_def scan_agent_def row_of_agent_def stored_agent_def whole_seconds_def
      unmarshal_marshal_strings parse_format_time)

definition row_at :: "agent_id \<Rightarrow> db \<Rightarrow> agent_row option" where
  "row_at i d = find (\<lambda>r. ar_id r = i) (db_agents d)"

lemma find_replace:
  "list_ex (\<lambda>x. ar_id x = ar_id r) rs \<Longrightarrow>
   find (\<lambda>x. ar_id x = i) (map (\<lambda>x. if ar_id x = ar_id r then r else x) rs)
     = (if i = ar_id r then Some r else find (\<lambda>x. ar_id x = i) rs)"
proof (induction rs)
  case (Cons x rs)
  have "find (\<lambda>x. ar_id x = i) (map (\<lambda>x. if ar_id x = ar_id r then r else x) rs)
      = find (\<lambda>x. ar_id x = i) rs" if "i \<noteq> ar_id r"
    using that by (induction rs) auto
  with Cons show ?case by auto
qed simp

lemma row_at_upsert:
  assumes "upsert_row r d = Some d'"
  shows "row_at i d' = (if i = ar_id r then Some r else row_at i d)"
proof (cases "list_ex (\<lambda>x. ar_id x = ar_id r) (db_agents d)")
  case True
  with assms show ?thesis by (auto simp: upsert_row_def row_at_def find_replace split: if_splits)
next
  case False
  then have "row_at (ar_id r) d = None" by (auto simp: row_at_def find_None_iff list_ex_iff)
  with False assms show ?thesis
    by (auto simp: upsert_row_def row_at_def find_append split: if_splits option.splits)
qed

lemma upsert_agent_iff:
  "(\<exists>d'. upsert_agent a d = Inr d') \<longleftrightarrow> status_valid (a_status a)"
  "upsert_agent a d = Inl e \<longleftrightarrow> \<not> status_valid (a_status a) \<and> e = UpsertFailed (a_id a)"
  by (auto simp: upsert_agent_def upsert_row_def row_of_agent_def)

lemma row_at_upserts:
  "run_rows upsert_agent as d = Inr d' \<Longrightarrow>
   row_at i d' = (case find (\<lambda>a. a_id a = i) (rev as) of
                    Some a \<Rightarrow> Some (row_of_agent a) | None \<Rightarrow> row_at i d)"
proof (induction as arbitrary: d)
  case (Cons a as)
  then obtain d1 where d1: "upsert_agent a d = Inr d1" "run_rows upsert_agent as d1 = Inr d'"
    by (auto split: sum.splits)
  then have "row_at i d1 = (if i = a_id a then Some (row_of_agent a) else row_at i d)"
    by (auto simp: upsert_agent_def row_at_upsert row_of_agent_def split: option.splits)
  with Cons.IH [OF d1(2)] show ?case by (auto simp: find_append split: option.splits)
qed simp

lemma get_agent_row:
  "get_agent i d = (case row_at i d of
     None \<Rightarrow> Inr None
   | Some r \<Rightarrow> (case scan_agent r of Inl e \<Rightarrow> Inl (GetFailed i e) | Inr a \<Rightarrow> Inr (Some a)))"
  by (simp add: get_agent_def row_at_def)

lemma upsert_agents_run:
  "snd (upsert_agents as d) = None \<longleftrightarrow> run_rows upsert_agent as d = Inr (fst (upsert_agents as d))"
  by (auto simp: upsert_agents_def in_transaction_def split: sum.splits)

text \<open>C22 After a successful batch of upserts GetAgent returns the last agent of the batch
  with that id, every field as given and both timestamps cut to the second, if its lists are
  UTF-8 and both timestamps have a UTC year of four digits; an agent that is not in the batch is
  as before.\<close>

theorem upsert_then_get:
  assumes "upsert_agents as d = (d', None)"
    and "\<And>a. find (\<lambda>a. a_id a = i) (rev as) = Some a \<Longrightarrow> storable_agent a"
  shows "get_agent i d' = (case find (\<lambda>a. a_id a = i) (rev as) of
           Some a \<Rightarrow> Inr (Some (stored_agent a)) | None \<Rightarrow> get_agent i d)"
proof -
  have "run_rows upsert_agent as d = Inr d'" using upsert_agents_run [of as d] assms(1) by simp
  then show ?thesis using assms(2)
    by (auto simp: get_agent_row row_at_upserts scan_row_of_agent split: option.splits)
qed

theorem upsert_then_get_witness:
  "\<exists>d'. upsert_agents [example_agent, example_agent\<lparr>a_display_name := ''B2'', a_first_seen := 1500000000\<rparr>] empty_db = (d', None)
     \<and> get_agent ''agent-1'' d' = Inr (Some (example_agent\<lparr>a_display_name := ''B2'', a_first_seen := 1000000000\<rparr>))"
proof -
  let ?as = "[example_agent, example_agent\<lparr>a_display_name := ''B2'', a_first_seen := 1500000000\<rparr>]"
  have s: "list_all storable_agent ?as" by code_simp
  have n: "snd (upsert_agents ?as empty_db) = None"
    by (simp add: upsert_agents_def in_transaction_def upsert_agent_def upsert_row_def row_of_agent_def
        example_agent_def status_valid_def status_defs empty_db_def)
  then have u: "upsert_agents ?as empty_db = (fst (upsert_agents ?as empty_db), None)"
    by (simp add: prod_eq_iff)
  have "get_agent ''agent-1'' (fst (upsert_agents ?as empty_db))
      = (case find (\<lambda>a. a_id a = ''agent-1'') (rev ?as) of
           Some a \<Rightarrow> Inr (Some (stored_agent a)) | None \<Rightarrow> get_agent ''agent-1'' empty_db)"
  proof (rule upsert_then_get [OF u])
    fix a
    assume "find (\<lambda>a. a_id a = ''agent-1'') (rev ?as) = Some a"
    from find_SomeD [OF this] s show "storable_agent a" by (auto simp: list_all_iff)
  qed
  with u show ?thesis
    by (simp add: example_agent_def stored_agent_def whole_seconds_def seconds_of_def) blast
qed

text \<open>A batch of upserts fails exactly when some agent has an unknown status, with the
  error of the first such agent, and then the tables are unchanged.\<close>

theorem upsert_batch_atomic:
  "upsert_agents as d =
     (case find (\<lambda>a. \<not> status_valid (a_status a)) as of
        Some a \<Rightarrow> (d, Some (UpsertFailed (a_id a)))
      | None \<Rightarrow> (fst (upsert_agents as d), None))"
proof -
  have "run_rows upsert_agent as d0 = Inl (UpsertFailed (a_id a))"
    if "find (\<lambda>a. \<not> status_valid (a_status a)) as = Some a" for a d0
    using that
  proof (induction as arbitrary: d0)
    case (Cons x as)
    show ?case
    proof (cases "status_valid (a_status x)")
      case True
      then obtain d1 where "upsert_agent x d0 = Inr d1" using upsert_agent_iff(1) by blast
      with True Cons show ?thesis by simp
    next
      case False
      then have "upsert_agent x d0 = Inl (UpsertFailed (a_id x))" by (simp add: upsert_agent_iff)
      with False Cons.prems show ?thesis by simp
    qed
  qed simp
  moreover have "\<exists>d'. run_rows upsert_agent as d = Inr d'"
    if "find (\<lambda>a. \<not> status_valid (a_status a)) as = None"
    by (rule run_rows_succeeds) (use that upsert_agent_iff(1) in \<open>auto simp: find_None_iff\<close>)
  ultimately show ?thesis
    by (auto simp: upsert_agents_def in_transaction_def split: option.splits)
qed

section \<open>The observation log\<close>

lemma append_observations_run:
  "append_observations obs d = (d', None) \<longleftrightarrow> run_rows append_observation obs d = Inr d'"
  by (auto simp: append_observations_def in_transaction_def split: sum.splits)

text \<open>C23 Importing again any part of an accepted batch of observations succeeds and
  changes nothing.\<close>

theorem append_replay:
  assumes "store_reachable d" and "append_observations obs d = (d', None)" and "set again \<subseteq> set obs"
  shows "append_observations again d' = (d', None)"
proof -
  have v: "store_valid d" using assms(1) by (rule reachable_valid)
  have r: "run_rows append_observation obs d = Inr d'" using assms(2) by (simp add: append_observations_run)
  have "\<forall>ob \<in> set again. recorded_in d' ob" using log.batch_records [OF v r] assms(3) by blast
  moreover have "store_valid d'" using log.batch_keeps [OF v r] by blast
  ultimately show ?thesis by (simp add: append_observations_run log.replay)
qed

definition example_log :: db where
  "example_log = fst (upsert_agents [example_agent] empty_db)"

text \<open>The example holds one agent and no observations, whatever its timestamps look like.\<close>

lemma example_log_rows:
  "map ar_id (db_agents example_log) = [''agent-1'']" "db_fts example_log = map fts_of (db_agents example_log)"
  "db_obs example_log = []" "db_agents example_log = [row_of_agent example_agent]"
proof -
  have "status_valid ''ACTIVE''" by code_simp
  then have "upsert_agent example_agent empty_db
      = Inr (empty_db\<lparr>db_agents := [row_of_agent example_agent], db_fts := [fts_of (row_of_agent example_agent)]\<rparr>)"
    by (simp add: upsert_agent_def upsert_row_def row_of_agent_def example_agent_def empty_db_def)
  then have e: "example_log = empty_db\<lparr>db_agents := [row_of_agent example_agent], db_fts := [fts_of (row_of_agent example_agent)]\<rparr>"
    by (simp add: example_log_def upsert_agents_def in_transaction_def)
  show "map ar_id (db_agents example_log) = [''agent-1'']" "db_fts example_log = map fts_of (db_agents example_log)"
    "db_obs example_log = []" "db_agents example_log = [row_of_agent example_agent]"
    unfolding e by (simp_all add: empty_db_def row_of_agent_def example_agent_def)
qed

text \<open>Observations of stored agents are always appended.\<close>

lemma append_run_succeeds:
  "(\<And>ob. ob \<in> set obs \<Longrightarrow> o_agent ob \<in> ar_id ` set (db_agents d)) \<Longrightarrow> \<exists>d'. run_rows append_observation obs d = Inr d'"
proof (induction obs arbitrary: d)
  case (Cons ob obs)
  then have "o_agent ob \<in> ar_id ` set (db_agents d)" by simp
  then have "list_ex (\<lambda>x. ar_id x = or_agent (row_of_obs ob)) (db_agents d)"
    by (auto simp: row_of_obs_def list_ex_iff)
  then have "\<exists>d1. append_observation ob d = Inr d1 \<and> db_agents d1 = db_agents d"
    by (cases "list_ex (same_key (row_of_obs ob)) (db_obs d)") (simp_all add: append_observation_def insert_obs_def)
  then obtain d1 where d1: "append_observation ob d = Inr d1" "db_agents d1 = db_agents d" by blast
  then have "\<exists>d'. run_rows append_observation obs d1 = Inr d'" using Cons by simp
  with d1(1) show ?case by simp
qed simp

lemma append_succeeds:
  assumes "\<And>ob. ob \<in> set obs \<Longrightarrow> o_agent ob \<in> ar_id ` set (db_agents d)"
  shows "\<exists>d'. append_observations obs d = (d', None)"
  using append_run_succeeds [OF assms] by (simp add: append_observations_run)

lemma example_log_appends:
  "list_all (\<lambda>ob. o_agent ob = ''agent-1'') obs \<Longrightarrow> \<exists>d'. append_observations obs example_log = (d', None)"
  using example_log_rows(1) by (intro append_succeeds) (auto simp: list_all_iff simp flip: set_map)

lemma example_log_reachable: "store_reachable example_log"
  unfolding example_log_def by (intro store_reachable.intros)

theorem reachable_tables_witness:
  "map ar_id (db_agents example_log) = [''agent-1''] \<and> db_fts example_log = map fts_of (db_agents example_log)"
proof -
  note example_log_rows(1)
  with reachable_tables [OF example_log_reachable] show ?thesis by blast
qed

theorem append_replay_witness:
  "\<exists>d'. append_observations [example_observation ''dnssecurity'' ''{}''] example_log = (d', None)
     \<and> append_observations [example_observation ''dnssecurity'' ''{}''] d' = (d', None)"
proof -
  let ?o = "[example_observation ''dnssecurity'' ''{}'']"
  have "list_all (\<lambda>ob. o_agent ob = ''agent-1'') ?o" by (simp add: example_observation_def)
  then have "append_observations ?o example_log = (fst (append_observations ?o example_log), None)"
    using example_log_appends [of ?o] by (auto simp: prod_eq_iff)
  from append_replay [OF example_log_reachable this subset_refl] this show ?thesis by blast
qed

section \<open>Migrations\<close>

lemma migrate_files_applied:
  "migrate_files read exec applied fs st = (st', None) \<Longrightarrow>
   set (mg_versions st') = set (mg_versions st) \<union> (set fs - set applied)"
proof (induction fs arbitrary: st)
  case (Cons f fs)
  then show ?case
    by (auto simp: apply_migration_def split: if_splits sum.splits option.splits)
qed simp

lemma migrate_files_none: "set fs \<subseteq> set applied \<Longrightarrow> migrate_files read exec applied fs st = (st, None)"
  by (induction fs) auto

text \<open>C27 After a successful migration every migration file is recorded, and migrating
  again runs nothing.\<close>

theorem migrate_idempotent:
  assumes "migrate read exec entries st = (st', None)"
  shows "set (mg_versions st') = set (mg_versions st) \<union> set (migration_files entries)
    \<and> migrate read exec entries st' = (st', None)"
proof -
  have v: "set (mg_versions st') = set (mg_versions st) \<union> set (migration_files entries)"
    using migrate_files_applied [of read exec "mg_versions st" "migration_files entries" st st'] assms
    by (auto simp: migrate_def)
  then show ?thesis by (simp add: migrate_def migrate_files_none)
qed

theorem migrate_idempotent_witness:
  "\<exists>st'. migrate (\<lambda>n. Some n) (\<lambda>s l. Some (l @ [s])) [''README'', ''0002.sql'', ''0001.sql'']
       \<lparr>mg_schema = [], mg_versions = [''0001.sql'']\<rparr> = (st', None)
     \<and> migrate (\<lambda>n. Some n) (\<lambda>s l. Some (l @ [s])) [''README'', ''0002.sql'', ''0001.sql''] st' = (st', None)
     \<and> mg_schema st' = [''0002.sql'']"
proof -
  let ?m = "migrate (\<lambda>n. Some n) (\<lambda>s l. Some (l @ [s])) [''README'', ''0002.sql'', ''0001.sql'']"
  let ?st = "\<lparr>mg_schema = [], mg_versions = [''0001.sql'']\<rparr>"
  have "snd (?m ?st) = None" "mg_schema (fst (?m ?st)) = [''0002.sql'']" by code_simp+
  moreover from this have "?m ?st = (fst (?m ?st), None)" by (simp add: prod_eq_iff)
  ultimately show ?thesis using migrate_idempotent by blast
qed

end
