(* ===== verification/StoreLatest.thy ===== *)
theory StoreLatest
  imports StoreFacts "HOL-Library.Product_Lexorder"
begin

text \<open>
  Reading the log back: the latest observation of a pair is the one the abstract log keeps (the
  first to arrive among those of the greatest second), and the pruner never removes it.
\<close>

section \<open>The order of rows\<close>

definition row_key :: "obs_row \<Rightarrow> string \<times> nat" where
  "row_key r = (or_observed_at r, or_id r)"

lemma newer_iff: "newer x y \<longleftrightarrow> row_key y < row_key x"
  by (auto simp: newer_def row_key_def less_prod_def')

lemma first_in_order_snoc:
  "first_in_order (rs @ [r]) = (case first_in_order rs of
     None \<Rightarrow> Some r | Some s \<Rightarrow> Some (if newer r s then r else s))"
proof (induction rs)
  case (Cons x rs)
  then show ?case by (auto simp: newer_iff split: option.splits)
qed simp

lemma first_in_order_max:
  "first_in_order rs = Some r \<Longrightarrow> r \<in> set rs \<and> (\<forall>x \<in> set rs. \<not> newer x r)"
proof (induction rs arbitrary: r)
  case (Cons x rs)
  show ?case
  proof (cases "first_in_order rs")
    case None
    then have "rs = []" by (cases rs) (auto split: option.splits)
    with Cons.prems show ?thesis by (simp add: newer_iff)
  next
    case (Some s)
    with Cons.IH [OF Some] Cons.prems show ?thesis
      by (auto simp: newer_iff not_less split: if_splits)
  qed
qed simp

lemma first_in_order_None_iff: "first_in_order rs = None \<longleftrightarrow> rs = []"
  by (cases rs) (auto split: option.splits)

lemma first_in_order_unique:
  assumes "r \<in> set rs" and "\<forall>x \<in> set rs. \<not> newer x r" and "inj_on row_key (set rs)"
  shows "first_in_order rs = Some r"
proof -
  obtain s where s: "first_in_order rs = Some s"
    using assms(1) first_in_order_None_iff [of rs] by (cases "first_in_order rs") auto
  from first_in_order_max [OF s] assms(1,2) have "row_key r = row_key s"
    by (force simp: newer_iff)
  with assms(1,3) first_in_order_max [OF s] s show ?thesis by (auto dest: inj_onD)
qed

section \<open>The latest observation\<close>

definition of_pair :: "agent_id \<Rightarrow> signal_id \<Rightarrow> obs_row \<Rightarrow> bool" where
  "of_pair a s r \<longleftrightarrow> or_agent r = a \<and> or_signal r = s"

definition newest_row :: "agent_id \<Rightarrow> signal_id \<Rightarrow> db \<Rightarrow> obs_row option" where
  "newest_row a s d = first_in_order (filter (of_pair a s) (db_obs d))"

definition read_row :: "obs_row \<Rightarrow> (store_error, observation) result" where
  "read_row r =
     try_bind (parse_time (or_observed_at r)) (\<lambda>t.
     try_bind (unmarshal_provenance (or_prov r)) (\<lambda>p.
       Inr \<lparr>o_agent = or_agent r, o_signal = or_signal r, o_observed_at = t,
            o_value = or_value r, o_provenance = p\<rparr>))"

lemma latest_observation_row:
  "latest_observation a s d = (case newest_row a s d of
     None \<Rightarrow> Inr None | Some r \<Rightarrow> try_bind (read_row r) (\<lambda>ob. Inr (Some ob)))"
proof -
  have e: "(\<lambda>r. or_agent r = a \<and> or_signal r = s) = of_pair a s" by (simp add: fun_eq_iff of_pair_def)
  have b: "try_bind m (\<lambda>x. try_bind (f x) g) = try_bind (try_bind m f) g"
    for m :: "(store_error, 'x) result" and f :: "'x \<Rightarrow> (store_error, 'y) result" and g :: "'y \<Rightarrow> (store_error, 'z) result"
    by (cases m) simp_all
  show ?thesis
    unfolding latest_observation_def newest_row_def read_row_def e
    by (auto simp flip: b split: option.splits)
qed

definition storable_observation :: "observation \<Rightarrow> bool" where
  "storable_observation ob \<longleftrightarrow>
     four_digit_year (o_observed_at ob)
     \<and> (case o_provenance ob of
          None \<Rightarrow> True | Some q \<Rightarrow> utf8_valid (p_aim_id q) \<and> utf8_valid (p_evidence_url q))"

definition stored_observation :: "observation \<Rightarrow> observation" where
  "stored_observation ob = ob\<lparr>o_observed_at := whole_seconds (o_observed_at ob)\<rparr>"

lemma read_row_of_obs:
  assumes "storable_observation ob"
  shows "read_row ((row_of_obs ob)\<lparr>or_id := n\<rparr>) = Inr (stored_observation ob)"
proof -
  have "unmarshal_provenance (marshal_provenance (o_provenance ob)) = Inr (o_provenance ob)"
    by (rule unmarshal_marshal_provenance) (use assms in \<open>simp add: storable_observation_def\<close>)
  with assms show ?thesis
    by (simp add: read_row_def row_of_obs_def storable_observation_def stored_observation_def
        whole_seconds_def parse_format_time)
qed

text \<open>Every row was written for an observation that can be read back.\<close>

definition rows_readable :: "db \<Rightarrow> bool" where
  "rows_readable d \<longleftrightarrow>
     (\<forall>r \<in> set (db_obs d). \<exists>ob. storable_observation ob \<and> r = (row_of_obs ob)\<lparr>or_id := or_id r\<rparr>)"

lemma rows_readable_append:
  assumes "rows_readable d" and "storable_observation ob" and "append_observation ob d = Inr d'"
  shows "rows_readable d'"
proof -
  from assms(3) have "d' = d \<or> db_obs d' = db_obs d @ [(row_of_obs ob)\<lparr>or_id := db_next_obs d\<rparr>]"
    by (auto simp: append_observation_def insert_obs_def split: if_splits)
  moreover have "\<exists>ob'. storable_observation ob' \<and> r = (row_of_obs ob')\<lparr>or_id := or_id r\<rparr>"
    if "r = (row_of_obs ob)\<lparr>or_id := n\<rparr>" for r n
    by (rule exI [of _ ob]) (simp add: that assms(2))
  ultimately show ?thesis using assms(1) unfolding rows_readable_def by (elim disjE) auto
qed

lemma rows_readable_upsert: "upsert_agent a d = Inr d' \<Longrightarrow> rows_readable d' = rows_readable d"
  by (auto simp: rows_readable_def upsert_agent_def upsert_row_def split: if_splits)

lemma rows_readable_prune: "rows_readable d \<Longrightarrow> rows_readable (fst (prune_observations k d))"
  by (simp add: rows_readable_def prune_observations_def Let_def)

text \<open>The abstract log of one pair: a new observation replaces the one kept when it is at least a
  second newer.\<close>

definition keep_newest :: "observation option \<Rightarrow> observation \<Rightarrow> observation option" where
  "keep_newest best ob =
     (case best of
        None \<Rightarrow> Some (stored_observation ob)
      | Some b \<Rightarrow> if seconds_of (o_observed_at b) < seconds_of (o_observed_at ob)
                  then Some (stored_observation ob) else Some b)"

lemma seconds_of_whole [simp]: "seconds_of (whole_seconds t) = seconds_of t"
  by (simp add: whole_seconds_def seconds_of_def)

lemma format_time_less_iff:
  assumes "four_digit_year t" and "four_digit_year t'"
  shows "format_time t < format_time t' \<longleftrightarrow> seconds_of t < seconds_of t'"
proof (cases "seconds_of t" "seconds_of t'" rule: linorder_cases)
  case less
  with format_less [OF assms less] show ?thesis by (simp add: format_time_def)
next
  case equal
  then show ?thesis by (simp add: format_time_def format_rfc3339_def)
next
  case greater
  with format_less [OF assms(2,1) greater] show ?thesis by (simp add: format_time_def less_not_sym)
qed

lemma newest_row_append:
  assumes "store_valid d" and "append_observation ob d = Inr d'"
    and "rows_readable d" and "storable_observation ob"
    and "latest_observation a s d = Inr best"
  shows "latest_observation a s d' = Inr (if o_agent ob = a \<and> o_signal ob = s then keep_newest best ob else best)"
proof (cases "list_ex (same_key (row_of_obs ob)) (db_obs d)")
  case True
  then have d': "d' = d" using assms(2) by (simp add: append_observation_def insert_obs_def)
  show ?thesis
  proof (cases "o_agent ob = a \<and> o_signal ob = s")
    case pair: True
    let ?rs = "filter (of_pair a s) (db_obs d)"
    from True obtain x where x: "x \<in> set ?rs" "or_observed_at x = format_time (o_observed_at ob)"
      using pair by (auto simp: list_ex_iff same_key_def row_of_obs_def of_pair_def)
    then have "?rs \<noteq> []" by (auto simp only: list.set empty_iff)
    then obtain r where r: "newest_row a s d = Some r"
      using first_in_order_None_iff [of ?rs] by (cases "newest_row a s d") (simp_all add: newest_row_def)
    then have m: "r \<in> set ?rs" "\<not> newer x r"
      using first_in_order_max [of ?rs r] x(1) by (auto simp: newest_row_def)
    then obtain b where b: "storable_observation b" "r = (row_of_obs b)\<lparr>or_id := or_id r\<rparr>"
      using assms(3) by (auto simp: rows_readable_def)
    have "read_row r = Inr (stored_observation b)" by (subst b(2)) (rule read_row_of_obs [OF b(1)])
    then have best: "best = Some (stored_observation b)"
      using assms(5) r by (simp add: latest_observation_row)
    have "or_observed_at r = format_time (o_observed_at b)" by (subst b(2)) (simp add: row_of_obs_def)
    then have "\<not> format_time (o_observed_at b) < format_time (o_observed_at ob)"
      using m(2) x(2) by (simp add: newer_def)
    then have "\<not> seconds_of (o_observed_at b) < seconds_of (o_observed_at ob)"
      using b(1) assms(4) by (simp add: format_time_less_iff storable_observation_def)
    with best pair assms(5) d' show ?thesis by (simp add: keep_newest_def stored_observation_def)
  qed (use assms(5) d' in auto)
next
  case False
  let ?r = "(row_of_obs ob)\<lparr>or_id := db_next_obs d\<rparr>"
  have obs: "db_obs d' = db_obs d @ [?r]"
    using assms(2) False by (auto simp: append_observation_def insert_obs_def split: if_splits)
  show ?thesis
  proof (cases "o_agent ob = a \<and> o_signal ob = s")
    case pair: True
    then have n: "newest_row a s d' = (case newest_row a s d of
        None \<Rightarrow> Some ?r | Some x \<Rightarrow> Some (if newer ?r x then ?r else x))"
      using first_in_order_snoc [of "filter (of_pair a s) (db_obs d)" ?r]
      by (simp add: newest_row_def obs of_pair_def row_of_obs_def)
    have read: "read_row ?r = Inr (stored_observation ob)" using assms(4) by (rule read_row_of_obs)
    show ?thesis
    proof (cases "newest_row a s d")
      case None
      with n read assms(5) pair show ?thesis by (auto simp: latest_observation_row keep_newest_def)
    next
      case (Some r)
      then have m: "r \<in> set (db_obs d)" "of_pair a s r"
        using first_in_order_max [of "filter (of_pair a s) (db_obs d)" r] by (auto simp: newest_row_def)
      then obtain b where b: "storable_observation b" "r = (row_of_obs b)\<lparr>or_id := or_id r\<rparr>"
        using assms(3) by (auto simp: rows_readable_def)
      have rb: "read_row r = Inr (stored_observation b)" by (subst b(2)) (rule read_row_of_obs [OF b(1)])
      have at: "or_observed_at r = format_time (o_observed_at b)" by (subst b(2)) (simp add: row_of_obs_def)
      have "or_observed_at r \<noteq> format_time (o_observed_at ob)"
        using False m pair by (auto simp: list_ex_iff same_key_def row_of_obs_def of_pair_def)
      then have "newer ?r r \<longleftrightarrow> seconds_of (o_observed_at b) < seconds_of (o_observed_at ob)"
        using at b(1) assms(4) by (simp add: newer_def row_of_obs_def format_time_less_iff storable_observation_def)
      with n rb read Some assms(5) pair show ?thesis
        by (auto simp: latest_observation_row keep_newest_def stored_observation_def)
    qed
  next
    case other: False
    then have "newest_row a s d' = newest_row a s d"
      by (auto simp: newest_row_def obs of_pair_def row_of_obs_def)
    with other assms(5) show ?thesis by (auto simp: latest_observation_row)
  qed
qed

lemma latest_after_batch:
  "run_rows append_observation obs d = Inr d' \<Longrightarrow> store_valid d \<Longrightarrow> rows_readable d
   \<Longrightarrow> list_all storable_observation obs \<Longrightarrow> latest_observation a s d = Inr best
   \<Longrightarrow> latest_observation a s d'
         = Inr (foldl keep_newest best (filter (\<lambda>ob. o_agent ob = a \<and> o_signal ob = s) obs))"
proof (induction obs arbitrary: d best)
  case (Cons ob obs)
  from Cons.prems(1) obtain d1 where d1: "append_observation ob d = Inr d1"
    "run_rows append_observation obs d1 = Inr d'" by (auto split: sum.splits)
  have s: "storable_observation ob" "list_all storable_observation obs" using Cons.prems(4) by simp_all
  have "latest_observation a s d1 = Inr (if o_agent ob = a \<and> o_signal ob = s then keep_newest best ob else best)"
    using Cons.prems(2) d1(1) Cons.prems(3) s(1) Cons.prems(5) by (rule newest_row_append)
  from Cons.IH [OF d1(2) append_observation_valid [OF Cons.prems(2) d1(1)]
      rows_readable_append [OF Cons.prems(3) s(1) d1(1)] s(2) this]
  show ?case by simp
qed simp

lemma reads_succeed:
  assumes "rows_readable d"
  shows "\<exists>ob. latest_observation a s d = Inr ob"
proof (cases "newest_row a s d")
  case None
  then show ?thesis by (simp add: latest_observation_row)
next
  case (Some r)
  then have "r \<in> set (db_obs d)"
    using first_in_order_max [of "filter (of_pair a s) (db_obs d)" r] by (auto simp: newest_row_def)
  then obtain b where b: "storable_observation b" "r = (row_of_obs b)\<lparr>or_id := or_id r\<rparr>"
    using assms by (auto simp: rows_readable_def)
  have "read_row r = Inr (stored_observation b)" by (subst b(2)) (rule read_row_of_obs [OF b(1)])
  with Some show ?thesis by (simp add: latest_observation_row)
qed

text \<open>C24 The latest observation of a pair is what the abstract log keeps: in a reachable
  store all of whose observation rows can be read back, reading succeeds, and after a stored
  batch of observations with four-digit UTC years and UTF-8 provenance it gives the first to
  arrive among the observations of the greatest second, counting what was there before.\<close>

theorem latest_refines_log:
  assumes "store_reachable d" and "rows_readable d" and "list_all storable_observation obs"
    and "append_observations obs d = (d', None)"
  shows "\<exists>best. latest_observation a s d = Inr best
    \<and> latest_observation a s d'
        = Inr (foldl keep_newest best (filter (\<lambda>ob. o_agent ob = a \<and> o_signal ob = s) obs))"
proof -
  obtain best where best: "latest_observation a s d = Inr best" using reads_succeed [OF assms(2)] by blast
  with assms(4) reachable_valid [OF assms(1)] assms(2,3) show ?thesis
    unfolding append_observations_run by (intro exI conjI latest_after_batch)
qed

definition at_time :: "instant \<Rightarrow> string \<Rightarrow> observation" where
  "at_time t v = (example_observation ''dnssecurity'' v)\<lparr>o_observed_at := t\<rparr>"

theorem latest_refines_log_witness:
  "\<exists>d'. append_observations [at_time 5500000000 ''a'', at_time 2000000000 ''b''] example_log = (d', None)
     \<and> latest_observation ''agent-1'' ''dnssecurity'' d' = Inr (Some (at_time 5000000000 ''a''))"
proof -
  let ?obs = "[at_time 5500000000 ''a'', at_time 2000000000 ''b'']"
  have "list_all (\<lambda>ob. o_agent ob = ''agent-1'') ?obs" by (simp add: at_time_def example_observation_def)
  then obtain d' where u: "append_observations ?obs example_log = (d', None)" using example_log_appends by blast
  note e = example_log_rows(3)
  then have r: "rows_readable example_log" by (simp add: rows_readable_def)
  have s: "list_all storable_observation ?obs" by code_simp
  have l: "latest_observation ''agent-1'' ''dnssecurity'' example_log = Inr None"
    using e by (simp add: latest_observation_def)
  have f: "foldl keep_newest None (filter (\<lambda>ob. o_agent ob = ''agent-1'' \<and> o_signal ob = ''dnssecurity'') ?obs)
      = Some (at_time 5000000000 ''a'')" by code_simp
  from latest_refines_log [OF example_log_reachable r s u, of "''agent-1''" "''dnssecurity''"] l u f
  show ?thesis by auto
qed

text \<open>C25 A second observation of the same agent and signal within one second is
  acknowledged as stored, but the tables do not change.\<close>

theorem same_second_dropped:
  assumes "append_observations [ob] d = (d1, None)"
    and "o_agent ob' = o_agent ob" and "o_signal ob' = o_signal ob"
    and "seconds_of (o_observed_at ob') = seconds_of (o_observed_at ob)"
  shows "append_observations [ob'] d1 = (d1, None)"
proof -
  have "same_key (row_of_obs ob') x = same_key (row_of_obs ob) x" for x
    using assms(2-4) by (simp add: same_key_def row_of_obs_def format_time_def format_rfc3339_def)
  moreover have "list_ex (same_key (row_of_obs ob)) (db_obs d1)"
    using assms(1)
    by (auto simp: append_observations_run append_observation_def insert_obs_def same_key_def
        split: sum.splits option.splits if_splits)
  ultimately show ?thesis
    by (simp add: append_observations_run append_observation_def insert_obs_def list_ex_iff)
qed

theorem same_second_dropped_witness:
  "\<exists>d1. append_observations [at_time 5100000000 ''a''] example_log = (d1, None)
     \<and> append_observations [at_time 5900000000 ''b''] d1 = (d1, None)"
proof -
  have "list_all (\<lambda>ob. o_agent ob = ''agent-1'') [at_time 5100000000 ''a'']"
    by (simp add: at_time_def example_observation_def)
  then obtain d1 where u: "append_observations [at_time 5100000000 ''a''] example_log = (d1, None)"
    using example_log_appends by blast
  have "append_observations [at_time 5900000000 ''b''] d1 = (d1, None)"
    by (rule same_second_dropped [OF u]) (simp_all add: at_time_def example_observation_def seconds_of_def)
  with u show ?thesis by blast
qed

section \<open>Pruning\<close>

lemma finite_arg_max:
  fixes key :: "'a \<Rightarrow> 'k::linorder"
  assumes "finite A" and "A \<noteq> {}"
  shows "\<exists>m \<in> A. \<forall>x \<in> A. key x \<le> key m"
proof -
  have "Max (key ` A) \<in> key ` A" using assms by (intro Max_in) auto
  then obtain m where "m \<in> A" "Max (key ` A) = key m" by auto
  with assms(1) show ?thesis by (metis Max_ge finite_imageI imageI)
qed

lemma finite_arg_min:
  fixes key :: "'a \<Rightarrow> 'k::linorder"
  assumes "finite A" and "A \<noteq> {}"
  shows "\<exists>m \<in> A. \<forall>x \<in> A. key m \<le> key x"
proof -
  have "Min (key ` A) \<in> key ` A" using assms by (intro Min_in) auto
  then obtain m where "m \<in> A" "Min (key ` A) = key m" by auto
  with assms(1) show ?thesis by (metis Min_le finite_imageI imageI)
qed

text \<open>Of a finite linear order, the elements with fewer than \<open>k\<close> elements above them.\<close>

lemma top_k_card:
  fixes key :: "'a \<Rightarrow> 'k::linorder"
  assumes "finite S" and "inj_on key S"
  shows "card {r \<in> S. card {x \<in> S. key r < key x} < k} = min k (card S)"
proof -
  let ?above = "\<lambda>r. {x \<in> S. key r < key x}"
  let ?T = "{r \<in> S. card (?above r) < k}"
  have fin: "finite (?above r)" for r using assms(1) by simp
  have le: "card ?T \<le> k"
  proof (cases "?T = {}")
    case False
    then obtain m where m: "m \<in> ?T" "\<And>r. r \<in> ?T \<Longrightarrow> key m \<le> key r"
      using finite_arg_min [of ?T key] assms(1) by fastforce
    have "?T - {m} \<subseteq> ?above m"
    proof
      fix r assume r: "r \<in> ?T - {m}"
      then have "key m \<noteq> key r" using m(1) assms(2) by (auto dest: inj_onD)
      with m(2) [of r] r show "r \<in> ?above m" by auto
    qed
    then have "card (?T - {m}) \<le> card (?above m)" by (intro card_mono fin)
    moreover have "card (?T - {m}) = card ?T - 1" using m(1) by (rule card_Diff_singleton)
    moreover have "card (?above m) < k" using m(1) by blast
    ultimately show ?thesis by linarith
  next
    case True
    then show ?thesis by (simp only: card.empty)
  qed
  have sub: "card ?T \<le> card S" using assms(1) by (intro card_mono) auto
  have "min k (card S) \<le> card ?T"
  proof (rule ccontr)
    assume lt: "\<not> min k (card S) \<le> card ?T"
    have "S \<noteq> ?T"
    proof
      assume "S = ?T"
      then have "card S = card ?T" by (rule arg_cong)
      with lt show False by linarith
    qed
    then have "S - ?T \<noteq> {}" by blast
    then obtain m where m: "m \<in> S - ?T" "\<And>r. r \<in> S - ?T \<Longrightarrow> key r \<le> key m"
      using finite_arg_max [of "S - ?T" key] assms(1) by blast
    have "?above m \<subseteq> ?T"
    proof
      fix x assume x: "x \<in> ?above m"
      then have "\<not> key x \<le> key m" by (simp add: not_le)
      then have "x \<notin> S - ?T" using m(2) by blast
      with x show "x \<in> ?T" by blast
    qed
    then have "card (?above m) \<le> card ?T" by (rule card_mono [rotated]) (simp add: assms(1))
    moreover have "k \<le> card (?above m)" using m(1) by (simp add: not_less)
    ultimately show False using lt by linarith
  qed
  with le sub show ?thesis by simp
qed


lemma valid_rows:
  assumes "store_valid d"
  shows "distinct (db_obs d)" and "inj_on row_key (set (db_obs d))"
proof -
  have ids: "distinct (map or_id (db_obs d))"
    using assms by (auto simp: store_valid_def sorted_wrt_map [symmetric] strict_sorted_iff)
  then show "distinct (db_obs d)" by (simp add: distinct_map)
  show "inj_on row_key (set (db_obs d))"
    using ids by (intro inj_onI) (auto simp: distinct_map row_key_def dest: inj_onD)
qed

lemma row_number_card:
  assumes "store_valid d" and "of_pair a s r"
  shows "row_number (db_obs d) r
    = Suc (card {x \<in> set (filter (of_pair a s) (db_obs d)). row_key r < row_key x})"
proof -
  have "filter (\<lambda>x. same_pair x r \<and> newer x r) (db_obs d)
      = filter (\<lambda>x. row_key r < row_key x) (filter (of_pair a s) (db_obs d))"
    using assms(2) by (auto simp: same_pair_def of_pair_def newer_iff intro!: filter_cong)
  moreover have "distinct (filter (\<lambda>x. row_key r < row_key x) (filter (of_pair a s) (db_obs d)))"
    using valid_rows(1) [OF assms(1)] by simp
  ultimately show ?thesis
    by (simp add: row_number_def flip: distinct_card)
qed

lemma pruned_pair:
  assumes "store_valid d" and "0 < keep"
  shows "filter (of_pair a s) (db_obs (fst (prune_observations keep d)))
    = filter (\<lambda>r. card {x \<in> set (filter (of_pair a s) (db_obs d)). row_key r < row_key x} < nat keep)
        (filter (of_pair a s) (db_obs d))"
  using assms(2)
  by (auto simp: prune_observations_def Let_def row_number_card [OF assms(1)] intro!: filter_cong)

text \<open>C26 Pruning to K rows leaves min(K, n) rows of every pair that had n, never changes
  which observation is the latest, reports the number of rows it removed and touches no
  agent.\<close>

theorem prune_keeps_newest:
  assumes "store_reachable d" and "0 < keep" and "prune_observations keep d = (d', n)"
  shows "latest_observation a s d' = latest_observation a s d
    \<and> length (filter (of_pair a s) (db_obs d')) = min (nat keep) (length (filter (of_pair a s) (db_obs d)))
    \<and> n + length (db_obs d') = length (db_obs d) \<and> db_agents d' = db_agents d"
proof (intro conjI)
  have v: "store_valid d" using assms(1) by (rule reachable_valid)
  let ?S = "filter (of_pair a s) (db_obs d)"
  have d': "d' = fst (prune_observations keep d)" by (simp add: assms(3))
  note pair = pruned_pair [OF v assms(2), of a s, folded d']
  have inj: "inj_on row_key (set ?S)" using valid_rows(2) [OF v] by (rule inj_on_subset) auto
  have dist: "distinct ?S" using valid_rows(1) [OF v] by simp
  have "length (filter (of_pair a s) (db_obs d'))
      = card {r \<in> set ?S. card {x \<in> set ?S. row_key r < row_key x} < nat keep}"
    unfolding pair using dist by (subst distinct_card [symmetric]) (simp_all only: distinct_filter set_filter)
  also have "\<dots> = min (nat keep) (card (set ?S))" by (rule top_k_card [OF _ inj]) simp
  finally show "length (filter (of_pair a s) (db_obs d')) = min (nat keep) (length ?S)"
    using distinct_card [OF dist] by simp
  have "newest_row a s d' = newest_row a s d"
  proof (cases "newest_row a s d")
    case None
    then show ?thesis by (simp add: newest_row_def pair first_in_order_None_iff)
  next
    case (Some r)
    then have r: "r \<in> set ?S" "\<forall>x \<in> set ?S. \<not> newer x r"
      using first_in_order_max [of ?S r] by (simp_all add: newest_row_def)
    then have "{x \<in> set ?S. row_key r < row_key x} = {}" by (auto simp: newer_iff)
    then have "card {x \<in> set ?S. row_key r < row_key x} < nat keep" using assms(2) by (simp only: card.empty zero_less_nat_eq)
    with r have "r \<in> set (filter (of_pair a s) (db_obs d'))" unfolding pair by (simp only: set_filter) blast
    moreover have "set (filter (of_pair a s) (db_obs d')) \<subseteq> set ?S" unfolding pair by (simp only: set_filter) blast
    ultimately have "first_in_order (filter (of_pair a s) (db_obs d')) = Some r"
      using r(2) inj by (intro first_in_order_unique) (auto intro: inj_on_subset)
    with Some show ?thesis by (simp add: newest_row_def)
  qed
  then show "latest_observation a s d' = latest_observation a s d" by (simp add: latest_observation_row)
  show "n + length (db_obs d') = length (db_obs d)" "db_agents d' = db_agents d"
    using assms(2,3) by (auto simp: prune_observations_def Let_def)
qed

theorem prune_keeps_newest_witness:
  "\<exists>d. length (db_obs d) = 2 \<and> (\<exists>d' n. prune_observations 1 d = (d', n)
     \<and> latest_observation ''agent-1'' ''dnssecurity'' d' = latest_observation ''agent-1'' ''dnssecurity'' d
     \<and> length (filter (of_pair ''agent-1'' ''dnssecurity'') (db_obs d')) = 1)"
proof -
  define d where "d = fst (append_observations [at_time 5000000000 ''a'', at_time 2000000000 ''b''] example_log)"
  have r: "store_reachable d" unfolding d_def by (intro store_reachable.appended example_log_reachable)
  obtain d' n where p: "prune_observations 1 d = (d', n)" by (metis prod.collapse)
  let ?a = "at_time 5000000000 ''a''" and ?b = "at_time 2000000000 ''b''"
  obtain d1 where u: "append_observations [?a, ?b] example_log = (d1, None)"
    using example_log_appends [of "[?a, ?b]"] by (auto simp: at_time_def example_observation_def)
  have "four_digit_year 5000000000" "four_digit_year 2000000000" by code_simp+
  from format_time_less_iff [OF this(2,1)] have "format_time 2000000000 < format_time 5000000000"
    by (simp add: seconds_of_def)
  then have "format_time 2000000000 \<noteq> format_time 5000000000" by simp
  then have "db_obs d1 = [(row_of_obs ?a)\<lparr>or_id := db_next_obs example_log\<rparr>,
      (row_of_obs ?b)\<lparr>or_id := Suc (db_next_obs example_log)\<rparr>]"
    using u example_log_rows(3) unfolding append_observations_run
    by (auto simp: append_observation_def insert_obs_def same_key_def row_of_obs_def at_time_def
        example_observation_def split: option.splits if_splits)
  then have obs: "db_obs d = [(row_of_obs ?a)\<lparr>or_id := db_next_obs example_log\<rparr>,
      (row_of_obs ?b)\<lparr>or_id := Suc (db_next_obs example_log)\<rparr>]"
    using u by (simp add: d_def)
  then have l: "length (db_obs d) = Suc (Suc 0)" by simp
  have "list_all (\<lambda>r. or_agent r = ''agent-1'' \<and> or_signal r = ''dnssecurity'') (db_obs d)"
    unfolding obs by (simp add: row_of_obs_def at_time_def example_observation_def)
  then have "filter (of_pair ''agent-1'' ''dnssecurity'') (db_obs d) = db_obs d"
    by (intro filter_True) (simp add: list_all_iff of_pair_def)
  with prune_keeps_newest [OF r _ p, of "''agent-1''" "''dnssecurity''"] p l show ?thesis
    by (intro exI [of _ d] conjI exI [of _ d'] exI [of _ n]) simp_all
qed

end
