(* ===== verification/Classify.thy ===== *)
theory Classify
  imports TrustDomain "HOL-Library.Multiset"
begin

text \<open>
  The recommended-profile cascade (\<open>classify.go\<close>).  The active dimensions are the entries
  of a Go map, whose iteration order is unspecified: they are a list of pairs, and the results hold
  for every order.  Reading a missing key of \<open>scores\<close> gives 0, so scores are a function.

  Results: what each classification means (\<open>classify_spec\<close>), monotonicity in the scores, and
  independence of the iteration order.
\<close>

record thresholds =
  th_untrusted :: int
  th_transactional :: int
  th_fiduciary :: int
  th_identity_fiduciary :: int

definition default_thresholds :: thresholds where
  "default_thresholds =
     \<lparr>th_untrusted = 20, th_transactional = 50, th_fiduciary = 80, th_identity_fiduciary = 90\<rparr>"

type_synonym activity = "(dimension \<times> bool) list"

definition is_active :: "activity \<Rightarrow> dimension \<Rightarrow> bool" where
  "is_active active d = (map_of active d = Some True)"

fun any_active :: "activity \<Rightarrow> bool" where
  "any_active [] = False"
| "any_active ((d, on) # rest) = (if on then True else any_active rest)"

fun any_below :: "(dimension \<Rightarrow> int) \<Rightarrow> activity \<Rightarrow> int \<Rightarrow> bool" where
  "any_below scores [] t = False"
| "any_below scores ((d, on) # rest) t =
     (if on \<and> scores d < t then True else any_below scores rest t)"

fun all_active_at_least :: "(dimension \<Rightarrow> int) \<Rightarrow> activity \<Rightarrow> int \<Rightarrow> bool" where
  "all_active_at_least scores [] t = True"
| "all_active_at_least scores ((d, on) # rest) t =
     (if on \<and> scores d < t then False else all_active_at_least scores rest t)"

definition classify ::
  "thresholds \<Rightarrow> (dimension \<Rightarrow> int) \<Rightarrow> activity \<Rightarrow> recommended_profile" where
  "classify t scores active =
     (if \<not> any_active active then ReadOnly
      else if any_below scores active (th_untrusted t) then Untrusted
      else if all_active_at_least scores active (th_fiduciary t)
              \<and> is_active active DimensionIdentity
              \<and> scores DimensionIdentity \<ge> th_identity_fiduciary t then Fiduciary
      else if all_active_at_least scores active (th_transactional t) then Transactional
      else ReadOnly)"

section \<open>The loops\<close>

lemma any_active_iff: "any_active active \<longleftrightarrow> (\<exists>d. (d, True) \<in> set active)"
  by (induction active rule: any_active.induct) auto

lemma any_below_iff: "any_below scores active t \<longleftrightarrow> (\<exists>d. (d, True) \<in> set active \<and> scores d < t)"
  by (induction scores active t rule: any_below.induct) auto

lemma all_active_at_least_iff:
  "all_active_at_least scores active t \<longleftrightarrow> (\<forall>d. (d, True) \<in> set active \<longrightarrow> t \<le> scores d)"
  by (induction scores active t rule: all_active_at_least.induct) auto

lemma is_active_iff: "distinct (map fst active) \<Longrightarrow> is_active active d \<longleftrightarrow> (d, True) \<in> set active"
  by (simp add: is_active_def map_of_eq_Some_iff)

lemmas cascade_iffs = any_active_iff any_below_iff all_active_at_least_iff

section \<open>Properties\<close>

text \<open>C11 What each classification means over the active dimensions: UNTRUSTED iff one is
  below the floor, FIDUCIARY iff all reach the fiduciary bar and identity is active and reaches
  its own, at least TRANSACTIONAL iff some are active and all reach that bar.\<close>

theorem classify_spec:
  fixes active :: activity and scores :: "dimension \<Rightarrow> int"
  assumes "distinct (map fst active)"
    and "A = {d. (d, True) \<in> set active}"
    and "th_untrusted t \<le> th_transactional t" and "th_transactional t \<le> th_fiduciary t"
  shows "(classify t scores active = Untrusted \<longleftrightarrow> (\<exists>d \<in> A. scores d < th_untrusted t))
    \<and> (classify t scores active = Fiduciary \<longleftrightarrow>
          DimensionIdentity \<in> A \<and> th_identity_fiduciary t \<le> scores DimensionIdentity
          \<and> (\<forall>d \<in> A. th_fiduciary t \<le> scores d))
    \<and> (Transactional \<le> classify t scores active \<longleftrightarrow>
          A \<noteq> {} \<and> (\<forall>d \<in> A. th_transactional t \<le> scores d))"
  using assms(3,4)
  by (auto simp: classify_def cascade_iffs is_active_iff [OF assms(1)] assms(2)
      less_eq_recommended_profile_def intro: order_trans)

theorem classify_spec_witness:
  "classify default_thresholds (\<lambda>d. if d = DimensionIdentity then 95 else 80)
     [(DimensionIntegrity, True), (DimensionIdentity, True), (DimensionSafety, False)] = Fiduciary"
  using classify_spec [of "[(DimensionIntegrity, True), (DimensionIdentity, True),
      (DimensionSafety, False)]" "{DimensionIntegrity, DimensionIdentity}" default_thresholds
      "\<lambda>d. if d = DimensionIdentity then 95 else 80"]
  by (auto simp: default_thresholds_def dimension_defs)

text \<open>C12 Raising scores never lowers the classification.\<close>

theorem classify_mono:
  assumes "distinct (map fst active)"
    and "th_untrusted t \<le> th_transactional t" and "th_transactional t \<le> th_fiduciary t"
    and "\<forall>d. (d, True) \<in> set active \<longrightarrow> scores d \<le> scores' d"
  shows "classify t scores active \<le> classify t scores' active"
proof -
  let ?on = "\<lambda>d. (d, True) \<in> set active"
  have mono: "all_active_at_least scores' active b" if "all_active_at_least scores active b" for b
    using that assms(4) by (auto simp: all_active_at_least_iff intro: order_trans)
  have below: "any_below scores active b" if "any_below scores' active b" for b
    using that assms(4) by (auto simp: any_below_iff intro: le_less_trans)
  have identity: "th_identity_fiduciary t \<le> scores' DimensionIdentity"
    if "is_active active DimensionIdentity" "th_identity_fiduciary t \<le> scores DimensionIdentity"
    using that assms(1,4) by (auto simp: is_active_iff intro: order_trans)
  have "all_active_at_least scores active (th_transactional t)"
    if "all_active_at_least scores active (th_fiduciary t)"
    using that assms(3) by (auto simp: all_active_at_least_iff intro: order_trans)
  then show ?thesis
    using mono below identity by (auto simp: classify_def less_eq_recommended_profile_def)
qed

theorem classify_mono_witness:
  "classify default_thresholds (\<lambda>_. 55) [(DimensionSafety, True)]
     \<le> classify default_thresholds (\<lambda>_. 85) [(DimensionSafety, True)]"
  using classify_mono [of "[(DimensionSafety, True)]" default_thresholds "\<lambda>_. 55" "\<lambda>_. 85"]
  by (simp add: default_thresholds_def)

text \<open>The classification does not depend on the iteration order of the Go map of
  active dimensions.\<close>

theorem classify_order_irrelevant:
  assumes "distinct (map fst active)" and "mset active' = mset active"
  shows "classify t scores active' = classify t scores active"
proof -
  have "set active' = set active" using assms(2) by (rule mset_eq_setD)
  moreover have "distinct (map fst active')"
    using assms by (metis mset_eq_imp_distinct_iff mset_map)
  ultimately show ?thesis
    using assms(1) by (simp add: classify_def cascade_iffs is_active_iff)
qed

theorem classify_order_irrelevant_witness:
  "classify default_thresholds (\<lambda>_. 60) [(DimensionIdentity, True), (DimensionSafety, False)]
     = classify default_thresholds (\<lambda>_. 60) [(DimensionSafety, False), (DimensionIdentity, True)]"
  using classify_order_irrelevant
    [of "[(DimensionSafety, False), (DimensionIdentity, True)]"
        "[(DimensionIdentity, True), (DimensionSafety, False)]"]
  by (simp add: dimension_defs)

end
