(* ===== verification/Engine.thy ===== *)
theory Engine
  imports Classify SignalContract Registry
begin

text \<open>
  The scoring engine (\<open>engine.go\<close>): each registered signal is evaluated on the agent's
  latest observation, the weighted scores are averaged per dimension in binary64, caps are applied,
  and the result is classified.  The store is the argument \<open>latest\<close>; the two slices keyed
  by dimension are functions with the empty list for a missing key.
\<close>

definition RiskSignalEvaluationFailed :: string where
  "RiskSignalEvaluationFailed = ''SIGNAL_EVALUATION_FAILED''"

section \<open>Helpers\<close>

definition clamp_raw :: "int \<Rightarrow> int" where
  "clamp_raw raw = (if raw < 0 then 0 else if raw > 100 then 100 else raw)"

fun min_from :: "int \<Rightarrow> int list \<Rightarrow> int" where
  "min_from m [] = m"
| "min_from m (x # xs) = (if x < m then min_from x xs else min_from m xs)"

definition min_int :: "int list \<Rightarrow> int" where
  "min_int xs = min_from (hd xs) (tl xs)"

definition has_weighted_signal :: "signal_score list \<Rightarrow> bool" where
  "has_weighted_signal scores = list_ex (\<lambda>s. positive_weight (s_weight s)) scores"

definition dedupe_preserve_order :: "string list \<Rightarrow> string list" where
  "dedupe_preserve_order xs = dedupe_from [] xs"

text \<open>The two running sums of \<open>weightedAverage\<close>.\<close>

fun weighted_sums :: "signal_score list \<Rightarrow> f64 \<times> f64 \<Rightarrow> f64 \<times> f64" where
  "weighted_sums [] acc = acc"
| "weighted_sums (s # ss) (sum_weighted, sum_weight) =
     weighted_sums ss
       (if positive_weight (s_weight s)
        then (f64_add sum_weighted (f64_mul (f64_of_int (s_raw s)) (s_weight s)),
              f64_add sum_weight (s_weight s))
        else (sum_weighted, sum_weight))"

definition weighted_average :: "signal_score list \<Rightarrow> int" where
  "weighted_average scores =
     (case weighted_sums scores (Fin 0, Fin 0) of
        (sum_weighted, sum_weight) \<Rightarrow>
          if f64_eq sum_weight (Fin 0) then 0
          else int_of_f64 (math_round (f64_div sum_weighted sum_weight)))"

section \<open>The loop over the signals\<close>

record accum =
  ac_scores :: "dimension \<Rightarrow> signal_score list"
  ac_caps :: "dimension \<Rightarrow> int list"
  ac_risks :: "string list"

definition empty_accum :: accum where
  "empty_accum = \<lparr>ac_scores = \<lambda>_. [], ac_caps = \<lambda>_. [], ac_risks = []\<rparr>"

type_synonym reader = "agent_id \<Rightarrow> signal_id \<Rightarrow> (string, observation option) result"

text \<open>The absent-observation policy: whether the signal is left out.\<close>

definition skipped :: "signal \<Rightarrow> observation option \<Rightarrow> bool" where
  "skipped sg obs \<longleftrightarrow> obs = None \<and> sig_absence sg = Some False"

text \<open>The degrade policy: an evaluation error becomes a zero with a risk code.\<close>

definition degraded :: "message \<Rightarrow> signal_result" where
  "degraded err =
     \<lparr>r_raw = 0, r_explanation = Lit ''signal evaluation failed: '' # err,
      r_attestation = Unattested, r_risks = [RiskSignalEvaluationFailed], r_cap = None\<rparr>"

definition result_of :: "signal \<Rightarrow> agent \<Rightarrow> observation option \<Rightarrow> signal_result" where
  "result_of sg a obs =
     (case sig_evaluate sg a obs of Inl err \<Rightarrow> degraded err | Inr r \<Rightarrow> r)"

definition score_of :: "scoring_profile \<Rightarrow> signal \<Rightarrow> observation option \<Rightarrow> signal_result \<Rightarrow> signal_score" where
  "score_of profile sg obs res =
     \<lparr>s_signal = sig_id sg, s_dimension = sig_dimension sg, s_raw = clamp_raw (r_raw res),
      s_weight = weight_of (sp_signal_weights profile) (sig_id sg),
      s_explanation = r_explanation res, s_attestation = r_attestation res,
      s_provenance = (case obs of None \<Rightarrow> None | Some ob \<Rightarrow> o_provenance ob)\<rparr>"

text \<open>Appending one result to the accumulators; only a weighted signal adds risks and caps.\<close>

definition add_result ::
  "scoring_profile \<Rightarrow> signal \<Rightarrow> observation option \<Rightarrow> signal_result \<Rightarrow> accum \<Rightarrow> accum" where
  "add_result profile sg obs res acc =
     (let d = sig_dimension sg; score = score_of profile sg obs res;
          acc1 = acc\<lparr>ac_scores := (ac_scores acc)(d := ac_scores acc d @ [score])\<rparr>
      in if positive_weight (s_weight score)
         then acc1\<lparr>ac_risks := ac_risks acc @ r_risks res,
                   ac_caps := (case r_cap res of
                                 None \<Rightarrow> ac_caps acc
                               | Some c \<Rightarrow> (ac_caps acc)(d := ac_caps acc d @ [clamp_raw c]))\<rparr>
         else acc1)"

fun evaluate_signals ::
  "reader \<Rightarrow> agent \<Rightarrow> scoring_profile \<Rightarrow> signal list \<Rightarrow> accum \<Rightarrow> (message, accum) result" where
  "evaluate_signals latest a profile [] acc = Inr acc"
| "evaluate_signals latest a profile (sg # sgs) acc =
     (case latest (a_id a) (sig_id sg) of
        Inl err \<Rightarrow> Inl [Lit ''engine: latest observation '', Lit (a_id a), Lit ''/'', Lit (sig_id sg),
                        Lit '': '', Cause err]
      | Inr obs \<Rightarrow>
          (if skipped sg obs then evaluate_signals latest a profile sgs acc
           else evaluate_signals latest a profile sgs
                  (add_result profile sg obs (result_of sg a obs) acc)))"

section \<open>The roll-up\<close>

definition dimension_value :: "accum \<Rightarrow> dimension \<Rightarrow> int" where
  "dimension_value acc d =
     (let score = weighted_average (ac_scores acc d); caps = ac_caps acc d
      in if length caps > 0 then (let c = min_int caps in if c < score then c else score)
         else score)"

definition activity_of :: "scoring_profile \<Rightarrow> accum \<Rightarrow> activity" where
  "activity_of profile acc =
     map (\<lambda>d. (d, positive_weight (weight_of (sp_dimension_weights profile) d)
                  \<and> has_weighted_signal (ac_scores acc d))) all_dimensions"

definition assemble ::
  "thresholds \<Rightarrow> instant \<Rightarrow> agent \<Rightarrow> scoring_profile \<Rightarrow> accum \<Rightarrow> trust_evaluation" where
  "assemble th now a profile acc =
     (let scores = dimension_value acc
      in \<lparr>e_agent = a_id a, e_time = now,
          e_vector = \<lparr>tv_integrity = scores DimensionIntegrity, tv_identity = scores DimensionIdentity,
                      tv_solvency = scores DimensionSolvency, tv_behavior = scores DimensionBehavior,
                      tv_safety = scores DimensionSafety\<rparr>,
          e_profile = classify th scores (activity_of profile acc),
          e_risks = dedupe_preserve_order (ac_risks acc),
          e_tier = TierUnset,
          e_dimensions = map (\<lambda>d. \<lparr>d_dimension = d, d_score = scores d,
                                   d_signals = ac_scores acc d\<rparr>) all_dimensions,
          e_scoring_profile = sp_name profile\<rparr>)"

definition evaluate ::
  "reader \<Rightarrow> registry \<Rightarrow> thresholds \<Rightarrow> instant \<Rightarrow> agent \<Rightarrow> scoring_profile
     \<Rightarrow> (message, trust_evaluation) result" where
  "evaluate latest reg th now a profile =
     (case evaluate_signals latest a profile (all_signals reg) empty_accum of
        Inl err \<Rightarrow> Inl err
      | Inr acc \<Rightarrow> Inr (assemble th now a profile acc))"

section \<open>The loop as an explicit list of contributions\<close>

text \<open>
  When no read fails, the accumulators are the contributions of the signals in registry order.
  \<open>contributions\<close> lists, per signal that is not skipped, its observation and its result.
\<close>

type_synonym contribution = "signal \<times> observation option \<times> signal_result"

fun contributions :: "reader \<Rightarrow> agent \<Rightarrow> signal list \<Rightarrow> (message, contribution list) result" where
  "contributions latest a [] = Inr []"
| "contributions latest a (sg # sgs) =
     (case latest (a_id a) (sig_id sg) of
        Inl err \<Rightarrow> Inl [Lit ''engine: latest observation '', Lit (a_id a), Lit ''/'', Lit (sig_id sg),
                        Lit '': '', Cause err]
      | Inr obs \<Rightarrow>
          (case contributions latest a sgs of
             Inl err \<Rightarrow> Inl err
           | Inr cs \<Rightarrow> Inr (if skipped sg obs then cs else (sg, obs, result_of sg a obs) # cs)))"

definition add_contribution :: "scoring_profile \<Rightarrow> contribution \<Rightarrow> accum \<Rightarrow> accum" where
  "add_contribution profile c acc = (case c of (sg, obs, r) \<Rightarrow> add_result profile sg obs r acc)"

lemma evaluate_signals_contributions:
  "evaluate_signals latest a profile sgs acc =
     (case contributions latest a sgs of
        Inl err \<Rightarrow> Inl err | Inr cs \<Rightarrow> Inr (fold (add_contribution profile) cs acc))"
  by (induction sgs arbitrary: acc) (auto simp: add_contribution_def split: sum.splits)

text \<open>What one contribution adds, and the accumulators after all of them.\<close>

definition contribution_weight :: "scoring_profile \<Rightarrow> contribution \<Rightarrow> f64" where
  "contribution_weight profile c = weight_of (sp_signal_weights profile) (sig_id (fst c))"

definition weighted_in :: "scoring_profile \<Rightarrow> contribution \<Rightarrow> bool" where
  "weighted_in profile c = positive_weight (contribution_weight profile c)"

definition contribution_score :: "scoring_profile \<Rightarrow> contribution \<Rightarrow> signal_score" where
  "contribution_score profile c = (case c of (sg, obs, r) \<Rightarrow> score_of profile sg obs r)"

definition contribution_dimension :: "contribution \<Rightarrow> dimension" where
  "contribution_dimension c = sig_dimension (fst c)"

definition contribution_result :: "contribution \<Rightarrow> signal_result" where
  "contribution_result c = snd (snd c)"

definition caps_in :: "scoring_profile \<Rightarrow> dimension \<Rightarrow> contribution list \<Rightarrow> int list" where
  "caps_in profile d cs =
     map (\<lambda>c. clamp_raw (the (r_cap (contribution_result c))))
       (filter (\<lambda>c. contribution_dimension c = d \<and> weighted_in profile c
                    \<and> r_cap (contribution_result c) \<noteq> None) cs)"

lemmas contribution_defs =
  contribution_weight_def weighted_in_def contribution_score_def contribution_dimension_def
  contribution_result_def

lemma add_contribution_fields:
  "ac_scores (add_contribution profile c acc) d =
     ac_scores acc d @ (if contribution_dimension c = d then [contribution_score profile c] else [])"
  "ac_caps (add_contribution profile c acc) d = ac_caps acc d @ caps_in profile d [c]"
  "ac_risks (add_contribution profile c acc) =
     ac_risks acc @ (if weighted_in profile c then r_risks (contribution_result c) else [])"
  by (cases c; simp add: add_contribution_def add_result_def score_of_def caps_in_def Let_def
        contribution_defs split: option.splits)+

lemma caps_in_Cons: "caps_in profile d (c # cs) = caps_in profile d [c] @ caps_in profile d cs"
  by (simp add: caps_in_def)

lemma fold_contributions:
  "ac_scores (fold (add_contribution profile) cs acc) d =
     ac_scores acc d @ map (contribution_score profile) (filter (\<lambda>c. contribution_dimension c = d) cs)"
  "ac_caps (fold (add_contribution profile) cs acc) d = ac_caps acc d @ caps_in profile d cs"
  "ac_risks (fold (add_contribution profile) cs acc) =
     ac_risks acc @ concat (map (r_risks \<circ> contribution_result) (filter (weighted_in profile) cs))"
proof (induction cs arbitrary: acc)
  case (Cons c cs)
  case 1 show ?case by (simp add: Cons.IH(1) add_contribution_fields)
  case 2 show ?case by (simp add: Cons.IH(2) add_contribution_fields caps_in_Cons [of _ _ c cs])
  case 3 show ?case by (simp add: Cons.IH(3) add_contribution_fields)
qed (simp_all add: caps_in_def)

lemma accum_after:
  assumes "contributions latest a sgs = Inr cs"
  shows "\<exists>acc. evaluate_signals latest a profile sgs empty_accum = Inr acc
    \<and> (\<forall>d. ac_scores acc d
             = map (contribution_score profile) (filter (\<lambda>c. contribution_dimension c = d) cs))
    \<and> (\<forall>d. ac_caps acc d = caps_in profile d cs)
    \<and> ac_risks acc = concat (map (r_risks \<circ> contribution_result) (filter (weighted_in profile) cs))"
  using fold_contributions [of profile cs empty_accum] assms
  by (auto simp: evaluate_signals_contributions empty_accum_def)

end
