(* ===== verification/WeightedAverage.thy ===== *)
theory WeightedAverage
  imports Engine
begin

text \<open>
  The weighted average of the engine under binary64: it stays in 0..100 whatever the weights
  (rounding errors included), and it is the exactly rounded quotient when the weights are
  integers, as in the shipped profile.
\<close>

section \<open>Rounding of grid values\<close>

lemma f64_of_rat_grid:
  assumes "0 < x" and "on_grid x" and "x \<le> b" and "representable (Fin b)"
  shows "\<exists>v. f64_of_rat x = Fin v \<and> on_grid v \<and> v \<le> b
           \<and> x * (1 - unit_roundoff) \<le> v \<and> v \<le> x * (1 + unit_roundoff)"
proof -
  obtain v where v: "f64_of_rat x = Fin v" "v \<le> b"
    using f64_of_rat_between [of 0 x b] assms by auto
  then have "v = rne_value x" using assms(1) by (auto simp: f64_of_rat_def Let_def split: if_splits)
  with rne_value_error [OF assms(1,2)] on_grid_rne_value [of x] v show ?thesis
    by (auto simp: abs_le_iff algebra_simps)
qed

lemma bernoulli_upper:
  fixes x :: rat
  assumes "0 \<le> x"
  shows "(1 + x) ^ n * (1 - of_nat n * x) \<le> 1"
proof (induction n)
  case (Suc n)
  have "(1 + x) * (1 - of_nat (Suc n) * x) \<le> 1 - of_nat n * x"
    using assms by (simp add: algebra_simps)
  then have "(1 + x) ^ n * ((1 + x) * (1 - of_nat (Suc n) * x)) \<le> (1 + x) ^ n * (1 - of_nat n * x)"
    using assms by (intro mult_left_mono) simp_all
  with Suc show ?case by (simp add: mult.assoc mult.commute mult.left_commute)
qed simp

text \<open>The factor by which rounding may inflate a ratio of running sums after \<open>n\<close> terms.\<close>

definition inflation :: "nat \<Rightarrow> rat" where
  "inflation n = (1 + unit_roundoff) * (1 + 3 * unit_roundoff) ^ n"

lemma unit_roundoff_small: "0 < unit_roundoff" "unit_roundoff \<le> 1 / 4"
  by (simp_all add: unit_roundoff_eq)

lemma inflation_ge: "1 + unit_roundoff \<le> inflation n"
proof -
  have "1 \<le> (1 + 3 * unit_roundoff) ^ n"
    using unit_roundoff_small by (intro one_le_power) simp
  then have "(1 + unit_roundoff) * 1 \<le> inflation n"
    unfolding inflation_def using unit_roundoff_small by (intro mult_left_mono) simp_all
  then show ?thesis by simp
qed

lemma inflation_mono: "inflation n \<le> inflation (Suc n)"
proof -
  have "inflation n * 1 \<le> inflation n * (1 + 3 * unit_roundoff)"
    using inflation_ge [of n] unit_roundoff_small by (intro mult_left_mono) simp_all
  then show ?thesis by (simp add: inflation_def mult_ac)
qed

lemma inflation_bound:
  assumes "n \<le> 2 ^ 40"
  shows "inflation n \<le> 1 + 1 / 1000"
proof -
  let ?x = "3 * unit_roundoff"
  have "(of_nat n :: rat) \<le> of_nat (2 ^ 40)" using assms by (rule of_nat_mono)
  then have n: "of_nat n * ?x \<le> 3 / 8192" by (simp add: unit_roundoff_eq)
  have p: "0 < (1 + ?x) ^ n" using unit_roundoff_small by simp
  have "(1 + ?x) ^ n * (1 - 3 / 8192) \<le> (1 + ?x) ^ n * (1 - of_nat n * ?x)"
    using n p by (intro mult_left_mono) simp_all
  also have "\<dots> \<le> 1" using unit_roundoff_small by (intro bernoulli_upper) simp
  finally have "(1 + ?x) ^ n \<le> 8192 / 8189" by simp
  then have "(1 + unit_roundoff) * (1 + ?x) ^ n \<le> (1 + unit_roundoff) * (8192 / 8189)"
    using unit_roundoff_small by (intro mult_left_mono) simp_all
  also have "\<dots> \<le> 1 + 1 / 1000" by (simp add: unit_roundoff_eq)
  finally show ?thesis by (simp add: inflation_def)
qed

section \<open>The running sums\<close>

definition max_weight :: rat where
  "max_weight = 2 ^ 900"

text \<open>A weight that may enter the sums: representable, and not near the overflow threshold.\<close>

definition moderate :: "f64 \<Rightarrow> bool" where
  "moderate w \<longleftrightarrow> (positive_weight w \<longrightarrow> (\<exists>q. w = Fin q \<and> representable (Fin q) \<and> q \<le> max_weight))"

lemma representable_multiple: "m < 2 ^ 53 \<Longrightarrow> representable (Fin (of_nat m * max_weight))"
proof -
  assume m: "m < 2 ^ 53"
  have e: "of_nat m * max_weight = (of_int (int m) * 2 powi 900 :: rat)" by (simp add: max_weight_def)
  have "(of_nat m :: rat) < of_nat (2 ^ 53)" using m by (subst of_nat_less_iff)
  then have "of_nat m * (2 ^ 900 :: rat) < 2 ^ 53 * 2 ^ 900" by (intro mult_strict_right_mono) simp_all
  also have "\<dots> < 2 ^ 1024" by (simp flip: power_add)
  finally have "\<bar>of_nat m * max_weight\<bar> < 2 ^ 1024" by (simp add: max_weight_def abs_mult)
  moreover have "\<bar>int m\<bar> < 2 ^ 53" using m by simp
  ultimately show ?thesis
    unfolding representable.simps e by (intro f64_of_rat_exact [where m = "int m" and j = 900])
      (simp_all add: emin_def)
qed

definition sums_ok :: "nat \<Rightarrow> f64 \<times> f64 \<Rightarrow> bool" where
  "sums_ok n acc \<longleftrightarrow> (\<exists>s w. acc = (Fin s, Fin w) \<and> on_grid s \<and> on_grid w \<and> 0 \<le> s \<and> 0 \<le> w
     \<and> s \<le> of_nat (100 * n) * max_weight \<and> w \<le> of_nat n * max_weight
     \<and> s \<le> 100 * inflation n * w)"

lemma max_weight_pos: "0 < max_weight"
  by (simp add: max_weight_def)

lemma sums_ok_Suc: "sums_ok n acc \<Longrightarrow> sums_ok (Suc n) acc"
proof -
  assume "sums_ok n acc"
  then obtain s w where a: "acc = (Fin s, Fin w)" "on_grid s" "on_grid w" "0 \<le> s" "0 \<le> w"
      "s \<le> of_nat (100 * n) * max_weight" "w \<le> of_nat n * max_weight" "s \<le> 100 * inflation n * w"
    by (auto simp: sums_ok_def)
  have "100 * inflation n * w \<le> 100 * inflation (Suc n) * w"
    using a(5) inflation_mono [of n] by (intro mult_right_mono) simp_all
  with a show ?thesis
    using max_weight_pos by (auto simp: sums_ok_def distrib_right)
qed

lemma sums_ok_add:
  assumes ok: "sums_ok n (S, W)" and n: "n < 2 ^ 40" and raw: "0 \<le> raw" "raw \<le> 100"
    and w: "0 < w" "w \<le> max_weight" "representable (Fin w)"
  shows "\<exists>S' W'. f64_add S (f64_mul (f64_of_int raw) (Fin w)) = Fin S'
     \<and> f64_add W (Fin w) = Fin W' \<and> sums_ok (Suc n) (Fin S', Fin W') \<and> 0 < W'"
proof -
  let ?u = unit_roundoff and ?M = max_weight
  note u = unit_roundoff_small
  obtain s w0 where a: "S = Fin s" "W = Fin w0" "on_grid s" "on_grid w0" "0 \<le> s" "0 \<le> w0"
      "s \<le> of_nat (100 * n) * ?M" "w0 \<le> of_nat n * ?M" "s \<le> 100 * inflation n * w0"
    using ok by (auto simp: sums_ok_def)
  have gw: "on_grid w" using w by (rule_tac representable_on_grid) simp_all
  obtain t where t: "f64_of_rat (of_int raw * w) = Fin t" "on_grid t" "0 \<le> t" "t \<le> of_nat 100 * ?M"
      "t \<le> 100 * w * (1 + ?u)"
  proof (cases "raw = 0")
    case True
    with that [of 0] w u max_weight_pos show thesis by simp
  next
    case False
    with raw have r: "0 < raw" "(of_int raw :: rat) \<le> 100" by simp_all
    then have x: "of_int raw * w \<le> 100 * w" "0 < of_int raw * w"
      using w by (auto intro: mult_right_mono)
    have "of_int raw * w \<le> of_nat 100 * ?M" by (rule order_trans [OF x(1)]) (use w in simp)
    from f64_of_rat_grid [OF x(2) on_grid_mult_int [OF gw] this representable_multiple]
    obtain v where v: "f64_of_rat (of_int raw * w) = Fin v" "on_grid v" "v \<le> of_nat 100 * ?M"
        "of_int raw * w * (1 - ?u) \<le> v" "v \<le> of_int raw * w * (1 + ?u)" by auto
    have "0 \<le> of_int raw * w * (1 - ?u)" using x u by simp
    moreover have "of_int raw * w * (1 + ?u) \<le> 100 * w * (1 + ?u)"
      by (rule mult_right_mono [OF x(1)]) (use u in simp)
    ultimately show thesis using that [of v] v by simp
  qed
  have mul: "f64_mul (f64_of_int raw) (Fin w) = Fin t"
    using f64_of_rat_int [of raw] raw t(1) by (simp add: f64_of_int_def)
  have W: "\<exists>W'. f64_of_rat (w0 + w) = Fin W' \<and> on_grid W' \<and> W' \<le> of_nat (Suc n) * ?M
      \<and> (w0 + w) * (1 - ?u) \<le> W'"
  proof -
    have "w0 + w \<le> of_nat (Suc n) * ?M" using a w by (simp add: distrib_right)
    moreover have "Suc n < 2 ^ 53" using n by simp
    ultimately show ?thesis
      using f64_of_rat_grid [of "w0 + w" "of_nat (Suc n) * ?M"] representable_multiple [of "Suc n"]
        on_grid_add [OF a(4) gw] a(6) w(1) by auto
  qed
  then obtain W' where W': "f64_of_rat (w0 + w) = Fin W'" "on_grid W'" "W' \<le> of_nat (Suc n) * ?M"
      "(w0 + w) * (1 - ?u) \<le> W'" by blast
  obtain S' where S': "f64_of_rat (s + t) = Fin S'" "on_grid S'" "0 \<le> S'"
      "S' \<le> of_nat (100 * Suc n) * ?M" "S' \<le> (s + t) * (1 + ?u)"
  proof (cases "s + t = 0")
    case True
    with that [of 0] u max_weight_pos show thesis by simp
  next
    case False
    with a t have x: "0 < s + t" by simp
    have "s + t \<le> of_nat (100 * Suc n) * ?M" using a t by (simp add: distrib_right)
    moreover have "100 * Suc n < 2 ^ 53" using n by simp
    ultimately obtain v where "f64_of_rat (s + t) = Fin v" "on_grid v"
        "v \<le> of_nat (100 * Suc n) * ?M" "(s + t) * (1 - ?u) \<le> v" "v \<le> (s + t) * (1 + ?u)"
      using f64_of_rat_grid [OF x on_grid_add [OF a(3) t(2)]] representable_multiple by blast
    moreover have "0 \<le> (s + t) * (1 - ?u)" using x u by simp
    ultimately show thesis using that [of v] by simp
  qed
  have Wpos: "0 < W'"
  proof -
    have "0 < (w0 + w) * (1 - ?u)" using a w u by (intro mult_pos_pos) simp_all
    with W' show ?thesis by simp
  qed
  have c: "1 + ?u \<le> inflation n" by (rule inflation_ge)
  have "s + t \<le> 100 * inflation n * (w0 + w)"
  proof -
    have "100 * w * (1 + ?u) \<le> 100 * inflation n * w" using c w by simp
    with a(9) t(5) show ?thesis by (simp add: distrib_left)
  qed
  then have "S' \<le> 100 * inflation n * (w0 + w) * (1 + ?u)"
    using S'(5) u by (meson add_nonneg_nonneg less_imp_le mult_right_mono order_trans zero_le_one)
  also have "\<dots> \<le> 100 * inflation n * (w0 + w) * ((1 + 3 * ?u) * (1 - ?u))"
  proof (intro mult_left_mono)
    have "?u * ?u \<le> ?u * (1 / 4)" using u by (intro mult_left_mono) simp_all
    then show "1 + ?u \<le> (1 + 3 * ?u) * (1 - ?u)" using u by (simp add: algebra_simps)
    show "0 \<le> 100 * inflation n * (w0 + w)" using c u a w by simp
  qed
  also have "\<dots> = 100 * inflation (Suc n) * ((w0 + w) * (1 - ?u))"
    by (simp add: inflation_def mult_ac)
  also have "\<dots> \<le> 100 * inflation (Suc n) * W'"
    using W'(4) inflation_ge [of "Suc n"] u by (intro mult_left_mono) simp_all
  finally have "S' \<le> 100 * inflation (Suc n) * W'" .
  then show ?thesis
    using S' W' Wpos by (auto simp: a mul sums_ok_def)
qed

lemma weighted_sums_ok:
  assumes "sums_ok n acc" and "n + length ss \<le> 2 ^ 40"
    and "\<forall>s \<in> set ss. 0 \<le> s_raw s \<and> s_raw s \<le> 100 \<and> moderate (s_weight s)"
  shows "sums_ok (n + length ss) (weighted_sums ss acc)
    \<and> (has_weighted_signal ss \<or> f64_less (Fin 0) (snd acc)
         \<longrightarrow> f64_less (Fin 0) (snd (weighted_sums ss acc)))"
  using assms
proof (induction ss acc arbitrary: n rule: weighted_sums.induct)
  case (1 acc)
  then show ?case by (simp add: has_weighted_signal_def)
next
  case (2 s ss S W)
  let ?acc = "if positive_weight (s_weight s)
     then (f64_add S (f64_mul (f64_of_int (s_raw s)) (s_weight s)), f64_add W (s_weight s))
     else (S, W)"
  have step: "sums_ok (Suc n) ?acc
      \<and> (positive_weight (s_weight s) \<or> f64_less (Fin 0) W \<longrightarrow> f64_less (Fin 0) (snd ?acc))"
  proof (cases "positive_weight (s_weight s)")
    case True
    with "2.prems"(3) obtain q where q: "s_weight s = Fin q" "0 < q" "q \<le> max_weight"
        "representable (Fin q)"
      by (auto simp: moderate_def)
    with sums_ok_add [OF "2.prems"(1), of "s_raw s" q] "2.prems"(2,3) True show ?thesis by auto
  next
    case False
    with sums_ok_Suc [OF "2.prems"(1)] show ?thesis by simp
  qed
  have "sums_ok (Suc n + length ss) (weighted_sums ss ?acc)
    \<and> (has_weighted_signal ss \<or> f64_less (Fin 0) (snd ?acc)
         \<longrightarrow> f64_less (Fin 0) (snd (weighted_sums ss ?acc)))"
    by (rule "2.IH") (use step "2.prems" in simp_all)
  with step show ?case by (auto simp: has_weighted_signal_def)
qed

lemma weighted_average_unweighted:
  assumes "\<not> has_weighted_signal ss"
  shows "weighted_average ss = 0"
proof -
  have "weighted_sums ss acc = acc" for acc
    using assms
    by (induction ss acc rule: weighted_sums.induct) (simp_all add: has_weighted_signal_def)
  then show ?thesis by (simp add: weighted_average_def)
qed

lemma weighted_average_bounds:
  assumes "length ss \<le> 2 ^ 40"
    and "\<forall>s \<in> set ss. 0 \<le> s_raw s \<and> s_raw s \<le> 100 \<and> moderate (s_weight s)"
  shows "0 \<le> weighted_average ss \<and> weighted_average ss \<le> 100"
proof (cases "has_weighted_signal ss")
  case False
  then show ?thesis by (simp add: weighted_average_unweighted)
next
  case True
  let ?n = "length ss"
  have "sums_ok 0 (Fin 0, Fin 0)" by (simp add: sums_ok_def)
  from weighted_sums_ok [OF this] assms True
  have "sums_ok ?n (weighted_sums ss (Fin 0, Fin 0))"
    and "f64_less (Fin 0) (snd (weighted_sums ss (Fin 0, Fin 0)))" by simp_all
  then obtain S W where r: "weighted_sums ss (Fin 0, Fin 0) = (Fin S, Fin W)" "0 \<le> S" "0 < W"
      "S \<le> 100 * inflation ?n * W"
    by (auto simp: sums_ok_def)
  have "100 * inflation ?n * W \<le> 401 / 4 * W"
    using inflation_bound [OF assms(1)] r(3) by (intro mult_right_mono) simp_all
  with r(4) have "S \<le> 401 / 4 * W" by (rule order_trans)
  with r(3) have "S / W \<le> 401 / 4" by (simp add: divide_le_eq)
  moreover have "0 \<le> S / W" using r by simp
  ultimately obtain v where v: "f64_of_rat (S / W) = Fin v" "0 \<le> v" "v \<le> 401 / 4"
    using f64_of_rat_between [of 0 "S / W" "401 / 4"] representable_scaled [of 401 2] by auto
  have "0 \<le> \<lfloor>v + 1 / 2\<rfloor>" "\<lfloor>v + 1 / 2\<rfloor> \<le> 100" using v by (simp_all add: le_floor_iff floor_le_iff)
  then show ?thesis
    using r v by (simp add: weighted_average_def round_half_away_def in_int64_def)
qed

section \<open>Integer weights\<close>

text \<open>The weights are the integers \<open>k s\<close>: the sums are exact.\<close>

lemma weighted_sums_int:
  assumes "\<forall>s \<in> set ss. s_weight s = Fin (of_int (k s)) \<and> 0 \<le> k s \<and> 0 \<le> s_raw s \<and> s_raw s \<le> 100"
    and "0 \<le> a" and "0 \<le> b" and "a + 100 * (\<Sum>s\<leftarrow>ss. k s) < 2 ^ 52" and "b + (\<Sum>s\<leftarrow>ss. k s) < 2 ^ 52"
  shows "weighted_sums ss (Fin (of_int a), Fin (of_int b)) =
    (Fin (of_int (a + (\<Sum>s\<leftarrow>ss. s_raw s * k s))), Fin (of_int (b + (\<Sum>s\<leftarrow>ss. k s))))"
  using assms
proof (induction ss arbitrary: a b)
  case (Cons s ss)
  have tail: "0 \<le> (\<Sum>s\<leftarrow>ss. k s)" by (rule sum_list_nonneg) (use Cons.prems(1) in auto)
  let ?p = "s_raw s * k s"
  have p: "0 \<le> ?p" "?p \<le> 100 * k s" using Cons.prems(1) by (auto intro: mult_right_mono)
  have bounds: "a + ?p < 2 ^ 53" "b + k s < 2 ^ 53" "?p < 2 ^ 53" "0 \<le> a + ?p" "0 \<le> b + k s"
    using p tail Cons.prems by simp_all
  have "f64_of_rat (of_int (s_raw s) * of_int (k s)) = Fin (of_int ?p)"
    using f64_of_rat_int [of ?p] p bounds by simp
  moreover have "f64_of_rat (of_int a + of_int ?p) = Fin (of_int (a + ?p))"
    using f64_of_rat_int [of "a + ?p"] bounds by simp
  moreover have "f64_of_rat (of_int b + of_int (k s)) = Fin (of_int (b + k s))"
    using f64_of_rat_int [of "b + k s"] bounds by simp
  moreover have "f64_of_int (s_raw s) = Fin (of_int (s_raw s))"
    using f64_of_rat_int [of "s_raw s"] Cons.prems(1) by (simp add: f64_of_int_def)
  ultimately have step: "weighted_sums (s # ss) (Fin (of_int a), Fin (of_int b)) =
      weighted_sums ss (Fin (of_int (a + ?p)), Fin (of_int (b + k s)))"
    using Cons.prems(1) by (cases "k s = 0") simp_all
  have "weighted_sums ss (Fin (of_int (a + ?p)), Fin (of_int (b + k s))) =
    (Fin (of_int (a + ?p + (\<Sum>s\<leftarrow>ss. s_raw s * k s))), Fin (of_int (b + k s + (\<Sum>s\<leftarrow>ss. k s))))"
    by (rule Cons.IH) (use p bounds Cons.prems in auto)
  then show ?case unfolding step by (simp add: algebra_simps)
qed simp

text \<open>C2 With non-negative integer weights of total K below 2^40 the binary64 weighted
  average is exactly the quotient of the integer sums rounded half up, (2S+K) div 2K, and 0 when
  K is 0.\<close>

theorem weighted_average_int:
  assumes "\<forall>s \<in> set ss. s_weight s = Fin (of_int (k s)) \<and> 0 \<le> k s \<and> 0 \<le> s_raw s \<and> s_raw s \<le> 100"
    and "K = (\<Sum>s\<leftarrow>ss. k s)" and "K < 2 ^ 40" and "S = (\<Sum>s\<leftarrow>ss. s_raw s * k s)"
  shows "weighted_average ss = (if K = 0 then 0 else (2 * S + K) div (2 * K))"
proof -
  have K: "0 \<le> K" unfolding assms(2) by (rule sum_list_nonneg) (use assms(1) in auto)
  have S0: "0 \<le> S" unfolding assms(4) by (rule sum_list_nonneg) (use assms(1) in auto)
  have "(\<Sum>s\<leftarrow>ss. s_raw s * k s) \<le> (\<Sum>s\<leftarrow>ss. 100 * k s)"
    by (rule sum_list_mono) (use assms(1) in \<open>auto intro: mult_right_mono\<close>)
  with S0 have S: "0 \<le> S" "S \<le> 100 * K" by (simp_all add: assms(2,4) sum_list_const_mult)
  have sums: "weighted_sums ss (Fin 0, Fin 0) = (Fin (of_int S), Fin (of_int K))"
    using weighted_sums_int [OF assms(1), of 0 0] assms(2-4) by simp
  show ?thesis
  proof (cases "K = 0")
    case True
    then show ?thesis by (simp add: weighted_average_def sums)
  next
    case False
    with K S assms(3) obtain v where v: "f64_of_rat (of_int S / of_int K) = Fin v"
        "round_half_away v = (2 * S + K) div (2 * K)"
      using round_div_exact [of S K] by auto
    have "(2 * S + K) div (2 * K) \<le> (2 * S + K) div 1"
      by (rule zdiv_mono2) (use K S False in simp_all)
    moreover have "0 \<le> (2 * S + K) div (2 * K)"
      using K S False by (simp add: pos_imp_zdiv_nonneg_iff)
    ultimately have "in_int64 ((2 * S + K) div (2 * K))" using S assms(3) by (simp add: in_int64_def)
    with S assms(3) v False show ?thesis
      by (simp add: weighted_average_def sums)
  qed
qed

theorem weighted_average_int_witness:
  "weighted_average
     (map (\<lambda>r. \<lparr>s_signal = ''s'', s_dimension = DimensionIntegrity, s_raw = r, s_weight = Fin 1,
                s_explanation = [], s_attestation = Unattested, s_provenance = None\<rparr>) [100, 50, 33]) = 61"
  using weighted_average_int
    [of "map (\<lambda>r. \<lparr>s_signal = ''s'', s_dimension = DimensionIntegrity, s_raw = r, s_weight = Fin 1,
                s_explanation = [], s_attestation = Unattested, s_provenance = None\<rparr>) [100, 50, 33]"
        "\<lambda>_. 1" 3 183]
  by simp

end
