(* ===== verification/Signals.thy ===== *)
theory Signals
  imports TrustDomain GoJson
begin

text \<open>
  The eight built-in signals of \<open>internal/scoring/signals\<close>: certificate type, DNS security,
  agent age, version stability and the four drift verdicts.  Each owns the JSON schema of its
  observation value (its \<open>Validate\<close>) and its score, risk codes and attestation tier
  (its \<open>Evaluate\<close>).  The clock of the derived agent-age signal is an argument.

  Results: the exact score of every signal on every accepted value, and the contract every built-in
  keeps (\<open>signal_contract\<close>): an observation that validates evaluates without error to a raw
  score in 0..100.
\<close>

section \<open>Risk codes and attestation (signals.go)\<close>

definition RiskDNSSECBroken :: string where "RiskDNSSECBroken = ''INTEGRITY_DNSSEC_BROKEN''"
definition RiskAgentNew :: string where "RiskAgentNew = ''INTEGRITY_AGENT_NEW''"
definition RiskVersionChurnHigh :: string where
  "RiskVersionChurnHigh = ''INTEGRITY_VERSION_CHURN_HIGH''"
definition RiskServerCertFPDrift :: string where
  "RiskServerCertFPDrift = ''INTEGRITY_SERVER_CERT_FINGERPRINT_DRIFT''"
definition RiskIdentityCertFPDrift :: string where
  "RiskIdentityCertFPDrift = ''INTEGRITY_IDENTITY_CERT_FINGERPRINT_DRIFT''"
definition RiskDNSANSDrift :: string where "RiskDNSANSDrift = ''INTEGRITY_DNS_ANS_DRIFT''"
definition RiskDNSANSBadgeDrift :: string where
  "RiskDNSANSBadgeDrift = ''INTEGRITY_DNS_ANS_BADGE_DRIFT''"
definition RiskCertDVOnly :: string where "RiskCertDVOnly = ''IDENTITY_CERT_DV_ONLY''"
definition RiskCertMissing :: string where "RiskCertMissing = ''IDENTITY_CERT_MISSING''"

lemmas risk_defs [go_defs] =
  RiskDNSSECBroken_def RiskAgentNew_def RiskVersionChurnHigh_def RiskServerCertFPDrift_def
  RiskIdentityCertFPDrift_def RiskDNSANSDrift_def RiskDNSANSBadgeDrift_def RiskCertDVOnly_def
  RiskCertMissing_def

definition source_tl_attestation :: string where "source_tl_attestation = ''tl_attestation''"
definition source_trust_card_hash :: string where "source_trust_card_hash = ''trust_card_hash''"

definition attestation_for :: "string \<Rightarrow> attestation" where
  "attestation_for expected_source =
     (if expected_source = source_tl_attestation then TlAttested
      else if expected_source = source_trust_card_hash then CardAttested
      else Unattested)"

section \<open>Certificate type (certtype.go)\<close>

definition decode_cert_type :: "string \<Rightarrow> (message, string) result" where
  "decode_cert_type value =
     (case unmarshal [(''type'', string_value)] [] value of
        None \<Rightarrow> Inl [Lit ''certtype: invalid value: '', Cause ''json'']
      | Some v \<Rightarrow> Inr v)"

definition cert_type_validate :: "string \<Rightarrow> message option" where
  "cert_type_validate value =
     (case decode_cert_type value of
        Inl err \<Rightarrow> Some err
      | Inr t \<Rightarrow>
          (if t = ''DV'' \<or> t = ''OV'' \<or> t = ''EV'' \<or> t = ''none'' then None
           else Some [Lit ''certtype: type must be one of DV|OV|EV|none, got '', Quoted t]))"

definition cert_type_evaluate ::
  "agent \<Rightarrow> observation option \<Rightarrow> (message, signal_result) result" where
  "cert_type_evaluate a obs =
     (case obs of
        None \<Rightarrow> Inr \<lparr>r_raw = 0, r_explanation = [Lit ''no certificate observed''],
                     r_attestation = Unattested, r_risks = [RiskCertMissing], r_cap = None\<rparr>
      | Some ob \<Rightarrow>
          (case decode_cert_type (o_value ob) of
             Inl err \<Rightarrow> Inl err
           | Inr t \<Rightarrow>
               (let (raw, label, risks) =
                      (if t = ''EV'' then (100, ''EV certificate'', [])
                       else if t = ''OV'' then (70, ''OV certificate'', [])
                       else if t = ''DV'' then (40, ''DV certificate'', [RiskCertDVOnly])
                       else (0, ''no certificate'', []))
                in Inr \<lparr>r_raw = raw, r_explanation = [Lit label, Lit ''; raw '', Num raw],
                        r_attestation = Unattested, r_risks = risks, r_cap = None\<rparr>)))"

definition cert_type_signal :: signal where
  "cert_type_signal =
     \<lparr>sig_id = ''certtype'', sig_dimension = DimensionIdentity, sig_derived = False,
      sig_validate = cert_type_validate, sig_evaluate = cert_type_evaluate,
      sig_absence = None\<rparr>"

section \<open>DNS security (dnssecurity.go)\<close>

record dnssec_value =
  dv_dnssec :: bool
  dv_caa :: bool

definition dnssec_fields :: "(string \<times> dnssec_value field_decoder) list" where
  "dnssec_fields =
     [(''dnssec'', \<lambda>j v. map_option (\<lambda>b. v\<lparr>dv_dnssec := b\<rparr>) (bool_value j (dv_dnssec v))),
      (''caa'', \<lambda>j v. map_option (\<lambda>b. v\<lparr>dv_caa := b\<rparr>) (bool_value j (dv_caa v)))]"

definition decode_dnssec :: "string \<Rightarrow> (message, dnssec_value) result" where
  "decode_dnssec value =
     (case unmarshal dnssec_fields \<lparr>dv_dnssec = False, dv_caa = False\<rparr> value of
        None \<Rightarrow> Inl [Lit ''dnssecurity: invalid value: '', Cause ''json'']
      | Some v \<Rightarrow> Inr v)"

definition dnssec_validate :: "string \<Rightarrow> message option" where
  "dnssec_validate value = (case decode_dnssec value of Inl err \<Rightarrow> Some err | Inr _ \<Rightarrow> None)"

definition dnssec_evaluate ::
  "agent \<Rightarrow> observation option \<Rightarrow> (message, signal_result) result" where
  "dnssec_evaluate a obs =
     (case obs of
        None \<Rightarrow> Inr \<lparr>r_raw = 0, r_explanation = [Lit ''no DNS security observed''],
                     r_attestation = Unattested, r_risks = [], r_cap = None\<rparr>
      | Some ob \<Rightarrow>
          (case decode_dnssec (o_value ob) of
             Inl err \<Rightarrow> Inl err
           | Inr v \<Rightarrow>
               (let (raw, explanation) =
                      (if dv_dnssec v \<and> dv_caa v then (100, ''dnssec + caa present'')
                       else if dv_dnssec v then (50, ''dnssec present; caa missing'')
                       else if dv_caa v then (50, ''caa present; dnssec missing'')
                       else (0, ''no dnssec or caa''));
                    risks = (if \<not> dv_dnssec v then [RiskDNSSECBroken] else [])
                in Inr \<lparr>r_raw = raw, r_explanation = [Lit explanation],
                        r_attestation = Unattested, r_risks = risks, r_cap = None\<rparr>)))"

definition dnssec_signal :: signal where
  "dnssec_signal =
     \<lparr>sig_id = ''dnssecurity'', sig_dimension = DimensionIntegrity, sig_derived = False,
      sig_validate = dnssec_validate, sig_evaluate = dnssec_evaluate, sig_absence = None\<rparr>"

section \<open>Version stability (versionstability.go)\<close>

definition version_churn_high_threshold :: int where
  "version_churn_high_threshold = 4"

definition decode_version :: "string \<Rightarrow> (message, int) result" where
  "decode_version value =
     (case unmarshal [(''versionChanges30d'', int_value)] 0 value of
        None \<Rightarrow> Inl [Lit ''versionstability: invalid value: '', Cause ''json'']
      | Some v \<Rightarrow> Inr v)"

definition version_validate :: "string \<Rightarrow> message option" where
  "version_validate value =
     (case decode_version value of
        Inl err \<Rightarrow> Some err
      | Inr n \<Rightarrow>
          (if n < 0
           then Some [Lit ''versionstability: versionChanges30d must be >= 0, got '', Num n]
           else None))"

text \<open>\<open>int(math.Round(100 / float64(1+changes)))\<close>, the sum in 64 bits.\<close>

definition version_raw :: "int \<Rightarrow> int" where
  "version_raw changes =
     int_of_f64 (math_round (f64_div (Fin 100) (f64_of_int (wrap64 (1 + changes)))))"

definition version_evaluate ::
  "agent \<Rightarrow> observation option \<Rightarrow> (message, signal_result) result" where
  "version_evaluate a obs =
     (case obs of
        None \<Rightarrow> Inr \<lparr>r_raw = 0, r_explanation = [Lit ''no version observation''],
                     r_attestation = Unattested, r_risks = [], r_cap = None\<rparr>
      | Some ob \<Rightarrow>
          (case decode_version (o_value ob) of
             Inl err \<Rightarrow> Inl err
           | Inr n \<Rightarrow>
               (let changes = (if n < 0 then 0 else n);
                    raw = version_raw changes;
                    risks = (if changes \<ge> version_churn_high_threshold
                             then [RiskVersionChurnHigh] else [])
                in Inr \<lparr>r_raw = raw,
                        r_explanation = [Num changes, Lit '' version changes in 30d''],
                        r_attestation = Unattested, r_risks = risks, r_cap = None\<rparr>)))"

definition version_signal :: signal where
  "version_signal =
     \<lparr>sig_id = ''versionstability'', sig_dimension = DimensionIntegrity, sig_derived = False,
      sig_validate = version_validate, sig_evaluate = version_evaluate, sig_absence = None\<rparr>"

section \<open>Agent age (agentage.go)\<close>

text \<open>\<open>time.Time.Sub\<close> saturates at the largest and smallest duration.\<close>

definition time_sub :: "instant \<Rightarrow> instant \<Rightarrow> int" where
  "time_sub t u = (if t - u > 2 ^ 63 - 1 then 2 ^ 63 - 1
                   else if t - u < - (2 ^ 63) then - (2 ^ 63) else t - u)"

definition ns_per_hour :: int where
  "ns_per_hour = 3600000000000"

text \<open>Go's truncated division and remainder, for \<open>Duration.Hours\<close>.\<close>

definition tdiv :: "int \<Rightarrow> int \<Rightarrow> int" where
  "tdiv a b = (if 0 \<le> a then a div b else - ((- a) div b))"

definition tmod :: "int \<Rightarrow> int \<Rightarrow> int" where
  "tmod a b = a - tdiv a b * b"

definition duration_hours :: "int \<Rightarrow> f64" where
  "duration_hours d =
     f64_add (f64_of_int (tdiv d ns_per_hour))
             (f64_div (f64_of_int (tmod d ns_per_hour)) (Fin 3600000000000))"

definition age_days :: "instant \<Rightarrow> instant \<Rightarrow> int" where
  "age_days now first_seen =
     (let days = int_of_f64 (f64_div (duration_hours (time_sub now first_seen)) (Fin 24))
      in if days < 0 then 0 else days)"

definition age_raw :: "int \<Rightarrow> int" where
  "age_raw days =
     (let raw = int_of_f64 (math_round (f64_div (f64_mul (Fin 100) (f64_of_int days)) (Fin 180)))
      in if raw > 100 then 100 else raw)"

definition agent_age_validate :: "string \<Rightarrow> message option" where
  "agent_age_validate value =
     Some [Lit ''agentage is a derived signal; observations are not accepted'']"

definition agent_age_evaluate ::
  "instant \<Rightarrow> agent \<Rightarrow> observation option \<Rightarrow> (message, signal_result) result" where
  "agent_age_evaluate now a obs =
     (let days = age_days now (a_first_seen a);
          raw = age_raw days;
          risks = (if raw < 25 then [RiskAgentNew] else [])
      in Inr \<lparr>r_raw = raw, r_explanation = [Num days, Lit '' days old; ramp to 100 at 180''],
              r_attestation = Unattested, r_risks = risks, r_cap = None\<rparr>)"

definition agent_age_signal :: "instant \<Rightarrow> signal" where
  "agent_age_signal now =
     \<lparr>sig_id = ''agentage'', sig_dimension = DimensionIntegrity, sig_derived = True,
      sig_validate = agent_age_validate, sig_evaluate = agent_age_evaluate now,
      sig_absence = None\<rparr>"

section \<open>Drift verdicts (drift.go)\<close>

definition drift_signal_ids :: "signal_id list" where
  "drift_signal_ids =
     [''certfingerprint.server'', ''certfingerprint.identity'', ''dnsrecord.ans'',
      ''dnsrecord.ans-badge'']"

text \<open>The configuration of one drift signal (\<open>DriftSignal\<close>).\<close>

record drift_config =
  dc_id :: signal_id
  dc_subject :: string
  dc_risk_code :: string
  dc_validate_value :: "(string \<Rightarrow> string \<Rightarrow> message option) option"

record drift_value =
  dr_expected :: string
  dr_observed :: string
  dr_matched :: bool
  dr_expected_source :: string
  dr_observed_source :: string

definition drift_zero :: drift_value where
  "drift_zero = \<lparr>dr_expected = [], dr_observed = [], dr_matched = False,
                 dr_expected_source = [], dr_observed_source = []\<rparr>"

definition drift_fields :: "(string \<times> drift_value field_decoder) list" where
  "drift_fields =
     [(''expected'', \<lambda>j v. map_option (\<lambda>x. v\<lparr>dr_expected := x\<rparr>) (string_value j (dr_expected v))),
      (''observed'', \<lambda>j v. map_option (\<lambda>x. v\<lparr>dr_observed := x\<rparr>) (string_value j (dr_observed v))),
      (''matched'', \<lambda>j v. map_option (\<lambda>x. v\<lparr>dr_matched := x\<rparr>) (bool_value j (dr_matched v))),
      (''expectedSource'', \<lambda>j v. map_option (\<lambda>x. v\<lparr>dr_expected_source := x\<rparr>)
                                  (string_value j (dr_expected_source v))),
      (''observedSource'', \<lambda>j v. map_option (\<lambda>x. v\<lparr>dr_observed_source := x\<rparr>)
                                  (string_value j (dr_observed_source v)))]"

definition decode_drift :: "string \<Rightarrow> (message, drift_value) result" where
  "decode_drift value =
     (case unmarshal drift_fields drift_zero value of
        None \<Rightarrow> Inl [Lit ''invalid value: '', Cause ''json'']
      | Some v \<Rightarrow> Inr v)"

definition drift_validate :: "drift_config \<Rightarrow> string \<Rightarrow> message option" where
  "drift_validate d value =
     (case decode_drift value of
        Inl err \<Rightarrow> Some (Lit (dc_id d) # Lit '': '' # err)
      | Inr v \<Rightarrow>
          (case (case dc_validate_value d of
                   None \<Rightarrow> None
                 | Some check \<Rightarrow> check (dr_expected v) (dr_observed v)) of
             Some err \<Rightarrow> Some (Lit (dc_id d) # Lit '': '' # err)
           | None \<Rightarrow>
               (if dr_expected v \<noteq> [] \<and> dr_observed v \<noteq> []
                   \<and> dr_matched v \<noteq> (dr_expected v = dr_observed v)
                then Some [Lit (dc_id d), Lit '': matched='', Truth (dr_matched v),
                           Lit '' contradicts expected='', Quoted (dr_expected v),
                           Lit '' vs observed='', Quoted (dr_observed v)]
                else None)))"

definition drift_evaluate ::
  "drift_config \<Rightarrow> agent \<Rightarrow> observation option \<Rightarrow> (message, signal_result) result" where
  "drift_evaluate d a obs =
     (case obs of
        None \<Rightarrow> Inr \<lparr>r_raw = 0, r_explanation = [Lit ''no observation''],
                     r_attestation = Unattested, r_risks = [], r_cap = None\<rparr>
      | Some ob \<Rightarrow>
          (case decode_drift (o_value ob) of
             Inl err \<Rightarrow> Inl (Lit (dc_id d) # Lit '': '' # err)
           | Inr v \<Rightarrow>
               (let att = attestation_for (dr_expected_source v)
                in if dr_expected v = []
                   then Inr \<lparr>r_raw = 0, r_explanation = [Lit (dc_subject d), Lit '': not sealed''],
                             r_attestation = att, r_risks = [], r_cap = None\<rparr>
                   else if dr_matched v
                   then Inr \<lparr>r_raw = 100,
                             r_explanation = [Lit (dc_subject d), Lit '' matches sealed value''],
                             r_attestation = att, r_risks = [], r_cap = None\<rparr>
                   else Inr \<lparr>r_raw = 0,
                             r_explanation = [Lit (dc_subject d), Lit '' drift: sealed='',
                                              Lit (dr_expected v), Lit '' observed='',
                                              Lit (dr_observed v)],
                             r_attestation = att, r_risks = [dc_risk_code d], r_cap = None\<rparr>)))"

definition drift_signal :: "drift_config \<Rightarrow> signal" where
  "drift_signal d =
     \<lparr>sig_id = dc_id d, sig_dimension = DimensionIntegrity, sig_derived = False,
      sig_validate = drift_validate d, sig_evaluate = drift_evaluate d, sig_absence = None\<rparr>"

definition hex_char :: "char \<Rightarrow> bool" where
  "hex_char c \<longleftrightarrow>
     48 \<le> ord c \<and> ord c \<le> 57 \<or> 97 \<le> ord c \<and> ord c \<le> 102 \<or> 65 \<le> ord c \<and> ord c \<le> 70"

definition valid_fingerprint :: "string \<Rightarrow> bool" where
  "valid_fingerprint s =
     (if \<not> has_prefix s ''SHA256:'' then False
      else let hex_part = drop 7 s
           in if length hex_part \<noteq> 64 then False else list_all hex_char hex_part)"

definition fingerprint_pair :: "string \<Rightarrow> string \<Rightarrow> message option" where
  "fingerprint_pair expected observed =
     check_all (\<lambda>s. if s = [] then None
                    else if \<not> valid_fingerprint s
                    then Some [Lit ''fingerprint '', Quoted s, Lit '' must be SHA256:<64 hex>'']
                    else None) [expected, observed]"

definition cert_fingerprint_server :: drift_config where
  "cert_fingerprint_server =
     \<lparr>dc_id = ''certfingerprint.server'', dc_subject = ''serverCert fingerprint'',
      dc_risk_code = RiskServerCertFPDrift, dc_validate_value = Some fingerprint_pair\<rparr>"

definition cert_fingerprint_identity :: drift_config where
  "cert_fingerprint_identity =
     \<lparr>dc_id = ''certfingerprint.identity'', dc_subject = ''identityCert fingerprint'',
      dc_risk_code = RiskIdentityCertFPDrift, dc_validate_value = Some fingerprint_pair\<rparr>"

definition dns_record_ans :: drift_config where
  "dns_record_ans =
     \<lparr>dc_id = ''dnsrecord.ans'', dc_subject = ''_ans TXT'',
      dc_risk_code = RiskDNSANSDrift, dc_validate_value = None\<rparr>"

definition dns_record_ans_badge :: drift_config where
  "dns_record_ans_badge =
     \<lparr>dc_id = ''dnsrecord.ans-badge'', dc_subject = ''_ans-badge TXT'',
      dc_risk_code = RiskDNSANSBadgeDrift, dc_validate_value = None\<rparr>"

definition drift_configs :: "drift_config list" where
  "drift_configs =
     [cert_fingerprint_server, cert_fingerprint_identity, dns_record_ans, dns_record_ans_badge]"

lemmas drift_config_defs [go_defs] =
  cert_fingerprint_server_def cert_fingerprint_identity_def dns_record_ans_def
  dns_record_ans_badge_def

section \<open>The built-ins (signals.go)\<close>

definition built_ins :: "instant \<Rightarrow> signal list" where
  "built_ins now =
     [cert_type_signal, dnssec_signal, agent_age_signal now, version_signal,
      drift_signal cert_fingerprint_server, drift_signal cert_fingerprint_identity,
      drift_signal dns_record_ans, drift_signal dns_record_ans_badge]"

lemmas signal_defs [go_defs] =
  cert_type_signal_def dnssec_signal_def agent_age_signal_def version_signal_def drift_signal_def

end
