(* ===== verification/SignalFacts.thy ===== *)
theory SignalFacts
  imports Signals SignalContract
begin

text \<open>
  What the built-in signals compute, through the binary64 arithmetic of their sources, and the
  contract that every one of them keeps.
\<close>

section \<open>The rounded scores\<close>

text \<open>Rounding to an integer stays between integer bounds.\<close>

lemma round_half_away_between:
  "of_int a \<le> q \<Longrightarrow> q \<le> of_int b \<Longrightarrow> 0 \<le> a \<Longrightarrow> a \<le> round_half_away q \<and> round_half_away q \<le> b"
proof -
  assume a: "of_int a \<le> q" "q \<le> of_int b" "0 \<le> a"
  then have "0 \<le> q" by (meson of_int_0_le_iff order_trans)
  moreover have "a \<le> \<lfloor>q + 1 / 2\<rfloor>" using a by (simp add: le_floor_iff)
  moreover have "\<lfloor>q + 1 / 2\<rfloor> \<le> b" using a by (simp add: floor_le_iff)
  ultimately show ?thesis by (simp add: round_half_away_def)
qed

lemma truncate_rat_between:
  "of_int a \<le> q \<Longrightarrow> q < of_int b + 1 \<Longrightarrow> 0 \<le> a \<Longrightarrow> a \<le> truncate_rat q \<and> truncate_rat q \<le> b"
proof -
  assume a: "of_int a \<le> q" "q < of_int b + 1" "0 \<le> a"
  then have "0 \<le> q" by (meson of_int_0_le_iff order_trans)
  moreover have "a \<le> \<lfloor>q\<rfloor>" using a by (simp add: le_floor_iff)
  moreover have "\<lfloor>q\<rfloor> \<le> b" using a by (simp add: floor_le_iff)
  ultimately show ?thesis by (simp add: truncate_rat_def)
qed

lemma int_of_round_between:
  "0 \<le> v \<Longrightarrow> v \<le> 100 \<Longrightarrow> int_of_f64 (math_round (Fin v)) = round_half_away v
     \<and> 0 \<le> round_half_away v \<and> round_half_away v \<le> 100"
  using round_half_away_between [of 0 v 100] by (simp add: in_int64_def)

lemma version_raw_bounds:
  assumes "0 \<le> n" and "in_int64 n"
  shows "0 \<le> version_raw n \<and> version_raw n \<le> 100"
proof (cases "n = 2 ^ 63 - 1")
  case True
  then have w: "wrap64 (1 + n) = - (2 ^ 63)" by (simp add: wrap64_def)
  have f: "f64_of_int (- 9223372036854775808) = Fin (- 9223372036854775808)"
    using f64_of_rat_exact [of "- (2 ^ 63)" "- 1" 63] by (simp add: emin_def f64_of_int_def)
  obtain v where v: "f64_of_rat (100 / 2 ^ 63) = Fin v" "0 \<le> v" "v \<le> 1 / 4"
    using f64_of_rat_between [of 0 "100 / 2 ^ 63" "1 / 4"] representable_scaled [of 1 2]
    by auto
  then have "f64_of_rat (- (100 / 2 ^ 63)) = Fin (- v)"
    by (simp add: f64_of_rat_def Let_def split: if_splits)
  moreover have "round_half_away (- v) = 0"
    using v(2,3) by (auto simp: round_half_away_def floor_eq_iff)
  moreover have "truncate_rat 0 = 0" using truncate_rat_of_int [of 0] by simp
  ultimately show ?thesis by (simp add: version_raw_def w f in_int64_def)
next
  case False
  with assms have m: "1 \<le> 1 + n" "1 + n < 2 ^ 63" "wrap64 (1 + n) = 1 + n"
    by (auto simp: in_int64_def intro!: wrap64_id)
  have "(1::rat) \<le> of_int (1 + n)" using m by simp
  moreover have "(of_int (1 + n) :: rat) \<le> of_int (2 ^ 63)" using m by (subst of_int_le_iff) simp
  ultimately obtain v where v: "f64_of_int (1 + n) = Fin v" "1 \<le> v"
    using f64_of_rat_between [of 1 "of_int (1 + n)" "2 ^ 63"] representable_int [of 1]
      f64_of_rat_exact [of "2 ^ 63" 1 63]
    by (auto simp: emin_def f64_of_int_def representable.simps)
  have "0 \<le> 100 / v" "100 / v \<le> 100" using v by (simp_all add: divide_le_eq)
  then obtain w where w: "f64_of_rat (100 / v) = Fin w" "0 \<le> w" "w \<le> 100"
    using f64_of_rat_between [of 0 "100 / v" 100] representable_int [of 100]
    by auto
  with v m int_of_round_between [of w] show ?thesis by (simp add: version_raw_def)
qed

lemma version_raw_exact:
  assumes "0 \<le> n" and "n + 1 < 2 ^ 40"
  shows "version_raw n = (200 + (n + 1)) div (2 * (n + 1))"
proof -
  have w: "wrap64 (1 + n) = n + 1" using assms by (subst wrap64_id) (simp_all add: in_int64_def)
  have f: "f64_of_int (n + 1) = Fin (of_int (n + 1))" using f64_of_rat_int [of "n + 1"] assms by (simp add: f64_of_int_def)
  obtain v where v: "f64_of_rat (of_int 100 / of_int (n + 1)) = Fin v" "0 \<le> v"
      "round_half_away v = (2 * 100 + (n + 1)) div (2 * (n + 1))"
    using round_div_exact [of 100 "n + 1"] assms by auto
  have "in_int64 (round_half_away v)"
  proof -
    have "(2 * 100 + (n + 1)) div (2 * (n + 1)) \<le> (2 * 100 + (n + 1)) div 1"
      using assms by (intro zdiv_mono2) auto
    moreover have "0 \<le> (2 * 100 + (n + 1)) div (2 * (n + 1))"
      using assms by (intro pos_imp_zdiv_nonneg_iff [THEN iffD2]) auto
    ultimately show ?thesis using v(3) assms by (simp add: in_int64_def)
  qed
  with v assms show ?thesis by (simp add: version_raw_def w f)
qed


text \<open>The age in days, from a clock difference in nanoseconds.\<close>

definition ns_per_second :: int where
  "ns_per_second = 1000000000"

definition ns_per_day :: int where
  "ns_per_day = 24 * ns_per_hour"

lemma duration_hours_bounds:
  assumes "0 \<le> d" and "d < 2 ^ 63"
  shows "\<exists>v. duration_hours d = Fin v \<and> of_int (d div ns_per_hour) \<le> v
           \<and> v \<le> of_int (d div ns_per_hour) + 1
           \<and> (d mod ns_per_hour \<le> ns_per_hour - ns_per_second
              \<longrightarrow> v \<le> of_int (d div ns_per_hour) + 1 - 1 / 4096)"
proof -
  define h r where "h = d div ns_per_hour" and "r = d mod ns_per_hour"
  have "d div ns_per_hour \<le> (2 ^ 63 - 1) div ns_per_hour"
    using assms by (intro zdiv_mono1) (simp_all add: ns_per_hour_def)
  then have h: "0 \<le> h" "h \<le> 2562047"
    using assms by (simp_all add: h_def ns_per_hour_def pos_imp_zdiv_nonneg_iff)
  have r: "0 \<le> r" "r < 3600000000000" by (simp_all add: r_def ns_per_hour_def)
  have e: "tdiv d ns_per_hour = h" "tmod d ns_per_hour = r"
    using assms(1) by (simp_all add: tdiv_def tmod_def h_def r_def minus_div_mult_eq_mod)
  have fh: "f64_of_int h = Fin (of_int h)" "f64_of_int r = Fin (of_int r)"
    using f64_of_rat_int [of h] f64_of_rat_int [of r] h r by (simp_all add: f64_of_int_def)
  define top :: rat where
    "top = (if r \<le> ns_per_hour - ns_per_second then 1 - 1 / 4096 else 1)"
  have top: "of_int r / 3600000000000 \<le> top"
  proof (cases "r \<le> ns_per_hour - ns_per_second")
    case True
    then have "r \<le> 3599000000000" by (simp add: ns_per_hour_def ns_per_second_def)
    then have "(of_int r :: rat) \<le> 3599000000000" by (metis of_int_le_iff of_int_numeral)
    with True show ?thesis by (simp add: top_def)
  next
    case False
    from r(2) have "(of_int r :: rat) \<le> 3600000000000"
      by (metis less_imp_le of_int_le_iff of_int_numeral)
    with False show ?thesis by (simp add: top_def)
  qed
  have rep: "representable (Fin (of_int h + top))" "representable (Fin top)"
    using representable_scaled [of "4096 * h + 4095" 12] representable_scaled [of 4095 12]
      representable_int [of "h + 1"] representable_int [of 1] h
    by (auto simp: top_def add_divide_distrib)
  obtain q where q: "f64_of_rat (of_int r / 3600000000000) = Fin q" "0 \<le> q" "q \<le> top"
    using f64_of_rat_between [of 0 "of_int r / 3600000000000" top] rep(2) top r
    by auto
  obtain v where v: "f64_of_rat (of_int h + q) = Fin v" "of_int h \<le> v" "v \<le> of_int h + top"
    using f64_of_rat_between [of "of_int h" "of_int h + q" "of_int h + top"] q rep(1)
      representable_int [of h] h
    by auto
  have "duration_hours d = Fin v" by (simp add: duration_hours_def e fh q v)
  with v show ?thesis by (auto simp: h_def r_def top_def split: if_splits)
qed


lemma div_hours_bounds:
  assumes "of_int (24 * k) \<le> v" and "v \<le> of_int (24 * (k + 1)) - e" and "e = 0 \<or> e = 1 / 4096"
    and "0 \<le> k" and "k < 200000"
  shows "\<exists>w. f64_of_rat (v / 24) = Fin w \<and> of_int k \<le> w
           \<and> (if e = 0 then w \<le> of_int (k + 1) else w < of_int (k + 1))"
proof -
  define e' :: rat where "e' = (if e = 0 then 0 else 1 / 131072)"
  have "v / 24 \<le> of_int (k + 1) - e'"
    using assms(2,3) by (auto simp: e'_def field_simps)
  moreover have "of_int k \<le> v / 24" using assms(1) by simp
  moreover have "representable (Fin (of_int (k + 1) - e'))"
    using representable_scaled [of "131072 * (k + 1) - 1" 17] representable_int [of "k + 1"] assms
    by (auto simp: e'_def diff_divide_distrib add_divide_distrib add.commute)
  ultimately obtain w where "f64_of_rat (v / 24) = Fin w" "of_int k \<le> w" "w \<le> of_int (k + 1) - e'"
    using f64_of_rat_between [of "of_int k" "v / 24" "of_int (k + 1) - e'"] representable_int [of k]
      assms by auto
  then show ?thesis by (auto simp: e'_def split: if_splits)
qed

lemma age_days_bounds:
  assumes "0 \<le> now - t" and "now - t < 2 ^ 63"
  shows "(now - t) div ns_per_day \<le> age_days now t"
    and "age_days now t \<le> (now - t) div ns_per_day + 1"
    and "(now - t) mod ns_per_day \<le> ns_per_day - ns_per_second
           \<Longrightarrow> age_days now t = (now - t) div ns_per_day"
proof -
  define d k h where "d = now - t" and "k = d div ns_per_day" and "h = d div ns_per_hour"
  have "k \<le> (2 ^ 63 - 1) div ns_per_day"
    using assms unfolding k_def d_def by (intro zdiv_mono1) (simp_all add: ns_per_day_def ns_per_hour_def)
  then have k: "0 \<le> k" "k < 200000"
    using assms by (simp_all add: k_def d_def ns_per_day_def ns_per_hour_def pos_imp_zdiv_nonneg_iff)
  have kh: "k = h div 24"
    by (simp add: k_def h_def ns_per_day_def ns_per_hour_def zdiv_zmult2_eq mult.commute)
  then have h: "24 * k \<le> h" "h + 1 \<le> 24 * (k + 1)" by simp_all
  have sub: "time_sub now t = d" using assms by (simp add: time_sub_def d_def)
  obtain v where v: "duration_hours d = Fin v" "of_int h \<le> v" "v \<le> of_int h + 1"
      "d mod ns_per_hour \<le> ns_per_hour - ns_per_second \<Longrightarrow> v \<le> of_int h + 1 - 1 / 4096"
    using duration_hours_bounds [of d] assms by (auto simp: d_def h_def)
  have hr: "(of_int (24 * k) :: rat) \<le> of_int h" "(of_int (h + 1) :: rat) \<le> of_int (24 * (k + 1))"
    using h by (simp_all only: of_int_le_iff)
  have lo: "of_int (24 * k) \<le> v" using hr(1) v(2) by simp
  have hi: "v \<le> of_int (24 * (k + 1))" using hr(2) v(3) by simp
  have day: "age_days now t = k" if "f64_of_rat (v / 24) = Fin w" "of_int k \<le> w" "w < of_int (k + 1)" for w
    using that k truncate_rat_between [of k w k]
    by (auto simp: age_days_def sub v in_int64_def Let_def)
  obtain w where w: "f64_of_rat (v / 24) = Fin w" "of_int k \<le> w" "w \<le> of_int (k + 1)"
    using div_hours_bounds [of k v 0] lo hi k by auto
  have b: "k \<le> age_days now t \<and> age_days now t \<le> k + 1"
    using w k truncate_rat_between [of k w "k + 1"]
    by (auto simp: age_days_def sub v in_int64_def Let_def)
  then show "(now - t) div ns_per_day \<le> age_days now t"
    and "age_days now t \<le> (now - t) div ns_per_day + 1" by (simp_all add: k_def d_def)
  assume m: "(now - t) mod ns_per_day \<le> ns_per_day - ns_per_second"
  have "v \<le> of_int (24 * (k + 1)) - 1 / 4096"
  proof (cases "h + 1 = 24 * (k + 1)")
    case True
    have "d = h * ns_per_hour + d mod ns_per_hour" by (simp add: h_def)
    moreover have "d = k * ns_per_day + d mod ns_per_day" by (simp add: k_def)
    ultimately have "d mod ns_per_hour \<le> ns_per_hour - ns_per_second"
      using True m by (simp add: d_def ns_per_day_def ns_per_hour_def ns_per_second_def)
    with v(4) True show ?thesis by (simp flip: True)
  next
    case False
    with h have "h + 2 \<le> 24 * (k + 1)" by simp
    then have "(of_int (h + 2) :: rat) \<le> of_int (24 * (k + 1))" by (simp only: of_int_le_iff)
    with v(3) show ?thesis by simp
  qed
  then obtain w where "f64_of_rat (v / 24) = Fin w" "of_int k \<le> w" "w < of_int (k + 1)"
    using div_hours_bounds [of k v "1 / 4096"] lo k by auto
  then show "age_days now t = (now - t) div ns_per_day" using day by (simp add: k_def d_def)
qed


lemma age_raw_exact:
  assumes "0 \<le> k" and "k < 2 ^ 40"
  shows "age_raw k = min 100 ((200 * k + 180) div 360)"
proof -
  have "100 * (of_int k :: rat) = of_int (100 * k)" by simp
  then have m: "f64_mul (Fin 100) (f64_of_int k) = Fin (of_int (100 * k))"
    using f64_of_rat_int [of k] f64_of_rat_int [of "100 * k"] assms
    by (simp add: f64_of_int_def)
  obtain v where v: "f64_of_rat (of_int (100 * k) / of_int 180) = Fin v" "0 \<le> v"
      "round_half_away v = (2 * (100 * k) + 180) div (2 * 180)"
    using round_div_exact [of "100 * k" 180] assms by auto
  have "0 \<le> (2 * (100 * k) + 180) div (2 * 180)" "(2 * (100 * k) + 180) div (2 * 180) < 2 ^ 63"
    using assms by auto
  with v have "int_of_f64 (math_round (f64_div (f64_mul (Fin 100) (f64_of_int k)) (Fin 180)))
      = (200 * k + 180) div 360"
    unfolding m by (simp add: in_int64_def)
  then show ?thesis by (simp add: age_raw_def min_def Let_def)
qed

text \<open>A clock before the agent's first sighting counts as age zero.\<close>

definition nonpositive :: "f64 \<Rightarrow> bool" where
  "nonpositive x \<longleftrightarrow> x = NInf \<or> (\<exists>v \<le> 0. x = Fin v)"

lemma nonpositive_of_rat: "x \<le> 0 \<Longrightarrow> nonpositive (f64_of_rat x)"
  using rne_value_nonneg [of "- x"] by (auto simp: nonpositive_def f64_of_rat_def Let_def)

lemma nonpositive_add: "nonpositive x \<Longrightarrow> nonpositive y \<Longrightarrow> nonpositive (f64_add x y)"
proof -
  assume "nonpositive x" "nonpositive y"
  moreover have "nonpositive (f64_of_rat (a + b))" if "a \<le> 0" "b \<le> 0" for a b
    using that by (intro nonpositive_of_rat) simp
  moreover have "nonpositive NInf" by (simp add: nonpositive_def)
  ultimately show ?thesis unfolding nonpositive_def [of x] nonpositive_def [of y] by auto
qed

lemma nonpositive_div: "nonpositive x \<Longrightarrow> 0 < b \<Longrightarrow> nonpositive (f64_div x (Fin b))"
proof -
  assume "nonpositive x" "0 < b"
  moreover have "nonpositive (f64_of_rat (a / b))" if "a \<le> 0" for a
    using that \<open>0 < b\<close> by (intro nonpositive_of_rat) (simp add: divide_le_0_iff)
  moreover have "nonpositive NInf" by (simp add: nonpositive_def)
  ultimately show ?thesis unfolding nonpositive_def [of x] by auto
qed

lemma nonpositive_int: "nonpositive x \<Longrightarrow> int_of_f64 x \<le> 0"
  by (auto simp: nonpositive_def truncate_rat_def int_indefinite_def)

lemma age_days_future: "now \<le> t \<Longrightarrow> age_days now t = 0"
proof -
  assume "now \<le> t"
  define d where "d = time_sub now t"
  with \<open>now \<le> t\<close> have d: "d \<le> 0" by (simp add: time_sub_def)
  then have "tdiv d ns_per_hour \<le> 0" "tmod d ns_per_hour \<le> 0"
    by (auto simp: tdiv_def tmod_def ns_per_hour_def pos_imp_zdiv_nonneg_iff 
        minus_div_mult_eq_mod [symmetric] )
  then have "nonpositive (duration_hours d)"
    unfolding duration_hours_def f64_of_int_def
    by (intro nonpositive_add nonpositive_div nonpositive_of_rat) simp_all
  then have "int_of_f64 (f64_div (duration_hours d) (Fin 24)) \<le> 0"
    by (intro nonpositive_int nonpositive_div) simp_all
  then show ?thesis by (auto simp: age_days_def d_def Let_def)
qed


section \<open>Every built-in keeps the contract\<close>

lemmas decode_defs =
  decode_cert_type_def decode_dnssec_def decode_version_def decode_drift_def

lemma decode_version_in_int64: "decode_version v = Inr n \<Longrightarrow> in_int64 n"
proof -
  have dec: "in_int64 r'" if "int_value j r = Some r'" "in_int64 r" for j r r'
    using that by (cases j) (auto dest: atoi_in_int64)
  assume "decode_version v = Inr n"
  then have u: "unmarshal [(''versionChanges30d'', int_value)] 0 v = Some n"
    by (simp add: decode_version_def split: option.splits)
  show ?thesis
    by (rule unmarshal_keeps [where P = in_int64, OF _ u]) (auto simp: in_int64_def [of 0] dest: dec)
qed

lemma built_in_risk_ok [simp]:
  "risk_code_ok RiskDNSSECBroken" "risk_code_ok RiskAgentNew" "risk_code_ok RiskVersionChurnHigh"
  "risk_code_ok RiskServerCertFPDrift" "risk_code_ok RiskIdentityCertFPDrift"
  "risk_code_ok RiskDNSANSDrift" "risk_code_ok RiskDNSANSBadgeDrift"
  "risk_code_ok RiskCertDVOnly" "risk_code_ok RiskCertMissing"
  by code_simp+

interpretation cert_type: signal_contract cert_type_signal
  by unfold_locales
    (auto simp: cert_type_signal_def cert_type_validate_def cert_type_evaluate_def Let_def
      good_result_def split: sum.splits if_splits)

interpretation dnssec: signal_contract dnssec_signal
  by unfold_locales
    (auto simp: dnssec_signal_def dnssec_validate_def dnssec_evaluate_def Let_def
      good_result_def split: sum.splits)

interpretation version: signal_contract version_signal
proof unfold_locales
  fix ob :: observation and a :: agent
  assume "sig_validate version_signal (o_value ob) = None"
  then obtain n where n: "decode_version (o_value ob) = Inr n" "0 \<le> n"
    by (auto simp: version_signal_def version_validate_def split: sum.splits if_splits)
  moreover from this have "0 \<le> version_raw n \<and> version_raw n \<le> 100"
    by (intro version_raw_bounds) (auto dest: decode_version_in_int64)
  ultimately show "\<exists>r. sig_evaluate version_signal a (Some ob) = Inr r \<and> good_result r"
    by (simp add: version_signal_def version_evaluate_def good_result_def)
qed (simp add: version_signal_def version_evaluate_def good_result_def)

lemma age_days_range: "0 \<le> age_days now t \<and> age_days now t < 2 ^ 40"
proof (cases "now \<le> t")
  case False
  have "\<exists>d. 0 \<le> d \<and> d < 2 ^ 63 \<and> time_sub now t = time_sub d 0"
  proof (cases "now - t < 2 ^ 63")
    case True
    with False show ?thesis by (intro exI [of _ "now - t"]) (simp add: time_sub_def)
  next
    case big: False
    then show ?thesis by (intro exI [of _ "2 ^ 63 - 1"]) (simp add: time_sub_def)
  qed
  then obtain d where d: "0 \<le> d" "d < 2 ^ 63" "age_days now t = age_days d 0"
    by (auto simp: age_days_def)
  have "d div ns_per_day \<le> 2 ^ 63 div ns_per_day"
    using d by (intro zdiv_mono1) (simp_all add: ns_per_day_def ns_per_hour_def)
  then have "d div ns_per_day + 1 < 2 ^ 40" by (simp add: ns_per_day_def ns_per_hour_def)
  moreover have "0 \<le> d div ns_per_day"
    using d by (simp add: ns_per_day_def ns_per_hour_def pos_imp_zdiv_nonneg_iff)
  ultimately show ?thesis using age_days_bounds [of d 0] d by simp
qed (simp add: age_days_future)

interpretation agent_age: signal_contract "agent_age_signal now"
proof unfold_locales
  have "\<exists>r. agent_age_evaluate now a obs = Inr r \<and> good_result r" for a obs
    using age_days_range [of now "a_first_seen a"]
    by (simp add: agent_age_evaluate_def Let_def age_raw_exact good_result_def pos_imp_zdiv_nonneg_iff)
  then show "\<exists>r. sig_evaluate (agent_age_signal now) a (Some ob) = Inr r \<and> good_result r"
    and "\<exists>r. sig_evaluate (agent_age_signal now) a None = Inr r \<and> good_result r" for a ob
    by (simp_all add: agent_age_signal_def)
qed

lemma drift_contract: "risk_code_ok (dc_risk_code d) \<Longrightarrow> signal_contract (drift_signal d)"
  by unfold_locales
    (auto simp: drift_signal_def drift_validate_def drift_evaluate_def Let_def good_result_def
      split: sum.splits)

interpretation server_drift: signal_contract "drift_signal cert_fingerprint_server"
  by (rule drift_contract) (simp add: drift_config_defs)

interpretation identity_drift: signal_contract "drift_signal cert_fingerprint_identity"
  by (rule drift_contract) (simp add: drift_config_defs)

interpretation ans_drift: signal_contract "drift_signal dns_record_ans"
  by (rule drift_contract) (simp add: drift_config_defs)

interpretation badge_drift: signal_contract "drift_signal dns_record_ans_badge"
  by (rule drift_contract) (simp add: drift_config_defs)

lemma built_ins_contract: "sg \<in> set (built_ins now) \<Longrightarrow> signal_contract sg"
  by (auto simp: built_ins_def intro: cert_type.signal_contract_axioms
      dnssec.signal_contract_axioms version.signal_contract_axioms
      agent_age.signal_contract_axioms server_drift.signal_contract_axioms
      identity_drift.signal_contract_axioms ans_drift.signal_contract_axioms
      badge_drift.signal_contract_axioms)

section \<open>Properties\<close>

text \<open>C13 Every built-in signal evaluates a missing or an accepted observation without
  error, to a raw score in 0..100 and well-formed risk codes.\<close>

theorem built_in_signals_sound:
  assumes "sg \<in> set (built_ins now)"
    and "case obs of None \<Rightarrow> True | Some ob \<Rightarrow> sig_validate sg (o_value ob) = None"
  shows "\<exists>r. sig_evaluate sg a obs = Inr r \<and> 0 \<le> r_raw r \<and> r_raw r \<le> 100
           \<and> list_all risk_code_ok (r_risks r)"
proof -
  have "sig_absence sg \<noteq> Some False"
    using assms(1) by (auto simp: built_ins_def signal_defs)
  with assms(2) have "admissible sg obs"
    by (simp add: admissible_def split: option.splits)
  then show ?thesis
    using signal_contract.evaluates [OF built_ins_contract [OF assms(1)]]
    by (metis good_result_def)
qed

text \<open>The version-stability score is 100/(1+changes) rounded half up, computed exactly
  by the binary64 arithmetic, and the churn risk is raised exactly from four changes on.\<close>

theorem version_score:
  assumes "decode_version (o_value ob) = Inr n" and "n < 2 ^ 39"
  shows "version_evaluate a (Some ob) =
           Inr \<lparr>r_raw = (200 + (max 0 n + 1)) div (2 * (max 0 n + 1)),
                r_explanation = [Num (max 0 n), Lit '' version changes in 30d''],
                r_attestation = Unattested,
                r_risks = (if 4 \<le> n then [RiskVersionChurnHigh] else []), r_cap = None\<rparr>"
  using assms
  by (auto simp: version_evaluate_def Let_def version_raw_exact version_churn_high_threshold_def
      max_def)

theorem version_score_witness:
  "version_evaluate example_agent (Some (example_observation ''versionstability'' ''{\"versionChanges30d\":5}''))
     = Inr \<lparr>r_raw = 17, r_explanation = [Num 5, Lit '' version changes in 30d''],
            r_attestation = Unattested, r_risks = [RiskVersionChurnHigh], r_cap = None\<rparr>"
proof -
  let ?ob = "example_observation ''versionstability'' ''{\"versionChanges30d\":5}''"
  have "decode_version (o_value ?ob) = Inr 5" by code_simp
  from version_score [OF this, of example_agent] show ?thesis by simp
qed

text \<open>C16 The agent-age score, computed through binary64 hours and days, is the rounded
  linear ramp min(100, round(100*days/180)) of the whole days since first sighting, except in
  the last second of a day, and the new-agent risk is raised exactly below 45 days.\<close>

theorem agent_age_score:
  fixes now :: instant and a :: agent
  assumes "age = now - a_first_seen a"
    and "0 \<le> age" and "age < 2 ^ 63" and "age mod ns_per_day \<le> ns_per_day - ns_per_second"
  shows "agent_age_evaluate now a obs =
           Inr \<lparr>r_raw = min 100 ((200 * (age div ns_per_day) + 180) div 360),
                r_explanation = [Num (age div ns_per_day), Lit '' days old; ramp to 100 at 180''],
                r_attestation = Unattested,
                r_risks = (if age div ns_per_day < 45 then [RiskAgentNew] else []),
                r_cap = None\<rparr>"
proof -
  have days: "age_days now (a_first_seen a) = age div ns_per_day"
    using age_days_bounds(3) [of now "a_first_seen a"] assms by simp
  then have range: "0 \<le> age div ns_per_day" "age div ns_per_day < 2 ^ 40"
    using age_days_range [of now "a_first_seen a"] by simp_all
  have "min 100 ((200 * k + 180) div 360) < 25 \<longleftrightarrow> k < 45" for k :: int by linarith
  with range show ?thesis by (simp only: agent_age_evaluate_def Let_def days age_raw_exact)
qed

theorem agent_age_score_witness:
  "agent_age_evaluate (90 * ns_per_day) example_agent None
     = Inr \<lparr>r_raw = 50, r_explanation = [Num 90, Lit '' days old; ramp to 100 at 180''],
            r_attestation = Unattested, r_risks = [], r_cap = None\<rparr>"
  using agent_age_score [of "90 * ns_per_day" "90 * ns_per_day" example_agent None]
  by (simp add: example_agent_def ns_per_day_def ns_per_hour_def ns_per_second_def)

text \<open>C14 An accepted drift verdict with both sides present scores 100 exactly when the
  sealed and the observed value are equal and otherwise 0 with the signal's drift code, whatever
  the producer's matched flag says.\<close>

theorem drift_score_is_equality:
  assumes "drift_validate d (o_value ob) = None" and "decode_drift (o_value ob) = Inr v"
    and "dr_expected v \<noteq> []" and "dr_observed v \<noteq> []"
  shows "\<exists>r. drift_evaluate d a (Some ob) = Inr r
           \<and> r_raw r = (if dr_expected v = dr_observed v then 100 else 0)
           \<and> r_risks r = (if dr_expected v = dr_observed v then [] else [dc_risk_code d])
           \<and> r_attestation r = attestation_for (dr_expected_source v)"
  using assms
  by (auto simp: drift_validate_def drift_evaluate_def Let_def split: option.splits if_splits)

theorem drift_score_is_equality_witness:
  "\<exists>ob. drift_validate dns_record_ans (o_value ob) = None
     \<and> (\<exists>r. drift_evaluate dns_record_ans example_agent (Some ob) = Inr r \<and> r_raw r = 0
             \<and> r_risks r = [RiskDNSANSDrift] \<and> r_attestation r = TlAttested)"
proof -
  let ?ob = "example_observation ''dnsrecord.ans''
    ''{\"expected\":\"x\",\"observed\":\"y\",\"expectedSource\":\"tl_attestation\"}''"
  let ?v = "drift_zero\<lparr>dr_expected := ''x'', dr_observed := ''y'',
                         dr_expected_source := ''tl_attestation''\<rparr>"
  have "drift_validate dns_record_ans (o_value ?ob) = None"
    and "decode_drift (o_value ?ob) = Inr ?v" by code_simp+
  moreover have "attestation_for ''tl_attestation'' = TlAttested"
    by (simp add: attestation_for_def source_tl_attestation_def)
  ultimately show ?thesis
    using drift_score_is_equality [of dns_record_ans ?ob ?v example_agent]
    by (intro exI [of _ ?ob]) (simp add: drift_zero_def dns_record_ans_def)
qed

text \<open>C15 A drift verdict with a sealed value, no observed value and matched set is
  accepted by Validate and scores 100 without a risk code, although nothing was observed: for
  the DNS records whatever the sealed text, for the certificate fingerprints when the sealed one
  has the form SHA256: and 64 hex digits.\<close>

theorem drift_unobserved_match:
  assumes "decode_drift (o_value ob) = Inr v" and "dr_expected v \<noteq> []" and "dr_observed v = []"
    and "dr_matched v" and "d \<in> set drift_configs"
    and "dc_validate_value d \<noteq> None \<Longrightarrow> valid_fingerprint (dr_expected v)"
  shows "drift_validate d (o_value ob) = None
           \<and> (\<exists>r. drift_evaluate d a (Some ob) = Inr r \<and> r_raw r = 100 \<and> r_risks r = [])"
  using assms
  by (auto simp: drift_validate_def drift_evaluate_def fingerprint_pair_def drift_configs_def
      drift_config_defs Let_def)

theorem drift_unobserved_match_witness:
  "(\<exists>ob. drift_validate cert_fingerprint_server (o_value ob) = None
     \<and> (\<exists>r. drift_evaluate cert_fingerprint_server example_agent (Some ob) = Inr r
             \<and> r_raw r = 100 \<and> r_risks r = []))
   \<and> (\<exists>ob. drift_validate dns_record_ans (o_value ob) = None
     \<and> (\<exists>r. drift_evaluate dns_record_ans example_agent (Some ob) = Inr r
             \<and> r_raw r = 100 \<and> r_risks r = []))"
proof -
  let ?fp = "''SHA256:'' @ replicate 64 (CHR ''0'')"
  let ?ob = "example_observation ''certfingerprint.server''
    (''{\"expected\":\"'' @ ?fp @ ''\",\"matched\":true}'')"
  let ?v = "drift_zero\<lparr>dr_expected := ?fp, dr_matched := True\<rparr>"
  have "decode_drift (o_value ?ob) = Inr ?v" and "valid_fingerprint (dr_expected ?v)"
    by code_simp+
  then have "\<exists>ob. drift_validate cert_fingerprint_server (o_value ob) = None
     \<and> (\<exists>r. drift_evaluate cert_fingerprint_server example_agent (Some ob) = Inr r
             \<and> r_raw r = 100 \<and> r_risks r = [])"
    using drift_unobserved_match [of ?ob ?v cert_fingerprint_server example_agent]
    by (intro exI [of _ ?ob]) (simp add: drift_zero_def drift_configs_def)
  moreover
  let ?tx = "example_observation ''dnsrecord.ans'' ''{\"expected\":\"v=ans1\",\"matched\":true}''"
  let ?w = "drift_zero\<lparr>dr_expected := ''v=ans1'', dr_matched := True\<rparr>"
  have "decode_drift (o_value ?tx) = Inr ?w" by code_simp
  then have "\<exists>ob. drift_validate dns_record_ans (o_value ob) = None
     \<and> (\<exists>r. drift_evaluate dns_record_ans example_agent (Some ob) = Inr r
             \<and> r_raw r = 100 \<and> r_risks r = [])"
    using drift_unobserved_match [of ?tx ?w dns_record_ans example_agent]
    by (intro exI [of _ ?tx]) (simp add: drift_zero_def drift_configs_def dns_record_ans_def)
  ultimately show ?thesis by blast
qed

theorem built_in_signals_sound_witness:
  "\<exists>r. sig_evaluate cert_type_signal example_agent
          (Some (example_observation ''certtype'' ''{\"type\":\"DV\"}'')) = Inr r
       \<and> 0 \<le> r_raw r \<and> r_raw r \<le> 100 \<and> list_all risk_code_ok (r_risks r)"
proof -
  have "sig_validate cert_type_signal ''{\"type\":\"DV\"}'' = None" by code_simp
  moreover have "cert_type_signal \<in> set (built_ins 0)" by (simp add: built_ins_def)
  ultimately show ?thesis
    using built_in_signals_sound [of cert_type_signal 0
        "Some (example_observation ''certtype'' ''{\"type\":\"DV\"}'')" example_agent]
    by (simp add: example_observation_def)
qed

end
