(* ===== verification/ScoreContainer.thy ===== *)
theory ScoreContainer
  imports SignalContract GoJson
begin

text \<open>
  The reusable provider-score signal (\<open>scorecontainer.go\<close>) and its configuration
  loader (\<open>config.go\<close>).  The YAML library and the file system are arguments of
  \<open>load_signals\<close>: what reading the path gave, and what decoding the bytes gave.

  Results: every code an evaluation emits is well formed and carries the prefix of the signal's
  dimension, accepted observations evaluate to their score, a loaded configuration has unique ids
  whose dimension segment is their dimension, and every loaded signal keeps the signal contract.
\<close>

section \<open>The signal (scorecontainer.go)\<close>

definition default_low_threshold :: int where "default_low_threshold = 70"
definition max_risk_codes :: nat where "max_risk_codes = 16"
definition subject_agent :: string where "subject_agent = ''agent''"

record score_value =
  sv_score :: "int option"
  sv_risk_codes :: "string list"
  sv_explanation :: string

definition score_fields :: "(string \<times> score_value field_decoder) list" where
  "score_fields =
     [(''score'', \<lambda>j v. map_option (\<lambda>x. v\<lparr>sv_score := x\<rparr>) (int_ptr_value j)),
      (''riskCodes'', \<lambda>j v. map_option (\<lambda>x. v\<lparr>sv_risk_codes := x\<rparr>)
                             (strings_value j (sv_risk_codes v))),
      (''explanation'', \<lambda>j v. map_option (\<lambda>x. v\<lparr>sv_explanation := x\<rparr>)
                               (string_value j (sv_explanation v)))]"

definition score_zero :: score_value where
  "score_zero = \<lparr>sv_score = None, sv_risk_codes = [], sv_explanation = []\<rparr>"

text \<open>\<open>decodeScore\<close>: the value with its required score.\<close>

definition decode_score :: "string \<Rightarrow> (message, int \<times> score_value) result" where
  "decode_score raw =
     (case decode_strict score_fields score_zero raw of
        None \<Rightarrow> Inl [Cause ''json'']
      | Some v \<Rightarrow> (case sv_score v of None \<Rightarrow> Inl [Lit ''score is required''] | Some n \<Rightarrow> Inr (n, v)))"

record score_signal =
  ss_id :: signal_id
  ss_dimension :: dimension
  ss_vendor :: string
  ss_subject :: string
  ss_threshold :: int

definition vendor_segment :: "string \<Rightarrow> string" where
  "vendor_segment i =
     (case split_last (CHR ''.'') i of
        None \<Rightarrow> i
      | Some (rest, _) \<Rightarrow>
          (case split_last (CHR ''.'') rest of None \<Rightarrow> rest | Some (v, _) \<Rightarrow> v))"

text \<open>
  \<open>strings.ToUpper\<close> followed by the mapping of each rune.  Of the runes outside ASCII,
  only the dotless i (U+0131) and the long s (U+017F) have an upper case in \<open>A..Z\<close>; an
  invalid byte is one replacement rune.
\<close>

definition upper_char :: "char \<Rightarrow> char" where
  "upper_char c = (if ascii_lower c then char_of (ord c - 32) else c)"

definition upper_rune :: "string \<Rightarrow> char option" where
  "upper_rune s =
     (if s = [CHR 0xC4, CHR 0xB1] then Some (CHR ''I'')
      else if s = [CHR 0xC5, CHR 0xBF] then Some (CHR ''S'')
      else (case s of [c] \<Rightarrow> (if ord c < 128 then Some (upper_char c) else None) | _ \<Rightarrow> None))"

function sanitize_segment :: "string \<Rightarrow> string" where
  "sanitize_segment s =
     (case s of
        [] \<Rightarrow> []
      | _ # _ \<Rightarrow>
          (let w = max 1 (rune_width s)
           in (case upper_rune (take w s) of
                 Some u \<Rightarrow> if risk_code_char u then u else CHR ''_''
               | None \<Rightarrow> CHR ''_'') # sanitize_segment (drop w s)))"
  by auto
termination
  by (relation "measure length") (auto simp: Let_def)

declare sanitize_segment.simps [simp del]

definition new_with_subject ::
  "signal_id \<Rightarrow> dimension \<Rightarrow> string \<Rightarrow> int option \<Rightarrow> score_signal" where
  "new_with_subject i dmn subject threshold =
     \<lparr>ss_id = i, ss_dimension = dmn, ss_vendor = sanitize_segment (vendor_segment i),
      ss_subject = (if subject = [] then subject_agent else subject),
      ss_threshold = (case threshold of None \<Rightarrow> default_low_threshold | Some t \<Rightarrow> t)\<rparr>"

definition new_score_signal :: "signal_id \<Rightarrow> dimension \<Rightarrow> int option \<Rightarrow> score_signal" where
  "new_score_signal i dmn threshold = new_with_subject i dmn subject_agent threshold"

text \<open>The upper-cased dimension and an underscore (dimensions are ASCII).\<close>

definition code_prefix :: "score_signal \<Rightarrow> string" where
  "code_prefix s = map upper_char (ss_dimension s) @ ''_''"

definition check_risk_code :: "score_signal \<Rightarrow> string \<Rightarrow> message option" where
  "check_risk_code s c =
     (if \<not> risk_code_ok c
      then Some [Lit (ss_id s), Lit '': risk code '', Quoted c, Lit '' must match ^[A-Z0-9_]+$'']
      else if \<not> has_prefix c (code_prefix s)
      then Some [Lit (ss_id s), Lit '': risk code '', Quoted c, Lit '' must be prefixed '',
                 Quoted (code_prefix s), Lit '' (the signal's dimension)'']
      else None)"

definition score_validate :: "score_signal \<Rightarrow> string \<Rightarrow> message option" where
  "score_validate s value =
     (case decode_score value of
        Inl err \<Rightarrow> Some (Lit (ss_id s) # Lit '': invalid value: '' # err)
      | Inr (n, v) \<Rightarrow>
          (if n < 0 \<or> n > 100
           then Some [Lit (ss_id s), Lit '': score must be in [0,100], got '', Num n]
           else if length (sv_risk_codes v) > max_risk_codes
           then Some [Lit (ss_id s), Lit '': too many riskCodes ('',
                      Num (int (length (sv_risk_codes v))), Lit '' > 16)'']
           else check_all (check_risk_code s) (sv_risk_codes v)))"

definition score_evaluate ::
  "score_signal \<Rightarrow> agent \<Rightarrow> observation option \<Rightarrow> (message, signal_result) result" where
  "score_evaluate s a obs =
     (case obs of
        None \<Rightarrow> Inl [Lit (ss_id s), Lit '': Evaluate called with nil observation; scorecontainer is AbsenceAware so the engine excludes absent signals'']
      | Some ob \<Rightarrow>
          (case decode_score (o_value ob) of
             Inl err \<Rightarrow> Inl (Lit (ss_id s) # Lit '': '' # err)
           | Inr (n, v) \<Rightarrow>
               (let prefix = code_prefix s;
                    kept = filter (\<lambda>c. has_prefix c prefix) (sv_risk_codes v);
                    codes = (if n < ss_threshold s
                             then kept @ [prefix @ ss_vendor s @ ''_SCORE_LOW''] else kept);
                    explanation = (if sv_explanation v = []
                                   then [Lit (ss_id s), Lit '' score '', Num n, Lit ''/100'']
                                   else [Lit (sv_explanation v)])
                in Inr \<lparr>r_raw = n, r_explanation = explanation, r_attestation = Unattested,
                        r_risks = codes, r_cap = None\<rparr>)))"

definition score_signal_of :: "score_signal \<Rightarrow> signal" where
  "score_signal_of s =
     \<lparr>sig_id = ss_id s, sig_dimension = ss_dimension s, sig_derived = False,
      sig_validate = score_validate s, sig_evaluate = score_evaluate s,
      sig_absence = Some False\<rparr>"

section \<open>The configuration loader (config.go)\<close>

record signal_entry =
  se_id :: string
  se_dimension :: string
  se_subject :: string
  se_threshold :: "int option"

text \<open>The regular expression \<open>^[a-z][a-z0-9_]*$\<close>.\<close>

definition subject_ok :: "string \<Rightarrow> bool" where
  "subject_ok s \<longleftrightarrow>
     (case s of [] \<Rightarrow> False
      | c # r \<Rightarrow> ascii_lower c \<and> list_all (\<lambda>x. ascii_lower x \<or> ascii_digit x \<or> x = CHR ''_'') r)"

definition dimension_segment :: "string \<Rightarrow> string option" where
  "dimension_segment i =
     (case split_last (CHR ''.'') i of
        None \<Rightarrow> None
      | Some (rest, name) \<Rightarrow>
          (case split_last (CHR ''.'') rest of
             None \<Rightarrow> None
           | Some (vendor, dmn) \<Rightarrow>
               (if vendor = [] \<or> dmn = [] \<or> name = [] then None else Some dmn)))"

text \<open>One entry of the loop; \<open>seen\<close> holds the ids before it.\<close>

definition load_entry :: "string list \<Rightarrow> message \<Rightarrow> signal_entry \<Rightarrow> (message, score_signal) result" where
  "load_entry seen place e =
     (if se_id e = [] then Inl (Lit ''score-signals: '' # place @ [Lit '': id is required''])
      else if se_id e \<in> set seen
      then Inl (Lit ''score-signals: '' # place @ [Lit '': duplicate id '', Quoted (se_id e)])
      else if \<not> dimension_valid (se_dimension e)
      then Inl (Lit ''score-signals: '' # place @ [Lit '' ('', Lit (se_id e),
                Lit ''): unknown dimension '', Quoted (se_dimension e)])
      else (case dimension_segment (se_id e) of
        None \<Rightarrow> Inl (Lit ''score-signals: '' # place @ [Lit '': id '', Quoted (se_id e),
                     Lit '' must be vendor.dimension.name''])
      | Some seg \<Rightarrow>
          (if seg \<noteq> se_dimension e
           then Inl (Lit ''score-signals: '' # place @ [Lit '': id '', Quoted (se_id e),
                     Lit '' dimension segment '', Quoted seg, Lit '' must match dimension '',
                     Quoted (se_dimension e)])
           else if (case se_threshold e of None \<Rightarrow> False | Some t \<Rightarrow> t < 0 \<or> t > 100)
           then Inl (Lit ''score-signals: '' # place @ [Lit '' ('', Lit (se_id e),
                     Lit ''): threshold must be in [0,100], got '', Num (the (se_threshold e))])
           else if se_subject e \<noteq> [] \<and> \<not> subject_ok (se_subject e)
           then Inl (Lit ''score-signals: '' # place @ [Lit '' ('', Lit (se_id e),
                     Lit ''): subject '', Quoted (se_subject e),
                     Lit '' must match ^[a-z][a-z0-9_]*$''])
           else Inr (new_with_subject (se_id e) (se_dimension e) (se_subject e) (se_threshold e)))))"

fun load_entries ::
  "string \<Rightarrow> string list \<Rightarrow> nat \<Rightarrow> signal_entry list \<Rightarrow> (message, score_signal list) result" where
  "load_entries path seen i [] = Inr []"
| "load_entries path seen i (e # es) =
     (case load_entry seen [Lit path, Lit ''['', Num (int i), Lit '']''] e of
        Inl err \<Rightarrow> Inl err
      | Inr s \<Rightarrow>
          (case load_entries path (se_id e # seen) (Suc i) es of
             Inl err \<Rightarrow> Inl err | Inr ss \<Rightarrow> Inr (s # ss)))"

text \<open>What the YAML decoder may report: the end of an empty file, an error, or a document.\<close>

datatype 'd yaml_result = YamlEnd | YamlError string | YamlDoc 'd

definition load_signals ::
  "(string \<Rightarrow> (string, string) result) \<Rightarrow> (string \<Rightarrow> signal_entry list yaml_result)
     \<Rightarrow> string \<Rightarrow> (message, score_signal list) result" where
  "load_signals read_file decode_yaml path =
     (case read_file path of
        Inl err \<Rightarrow> Inl [Lit ''score-signals: read '', Lit path, Lit '': '', Cause err]
      | Inr b \<Rightarrow>
          (case decode_yaml b of
             YamlEnd \<Rightarrow> Inr []
           | YamlError err \<Rightarrow> Inl [Lit ''score-signals: parse '', Lit path, Lit '': '', Cause err]
           | YamlDoc entries \<Rightarrow> load_entries path [] 0 entries))"

section \<open>Risk codes\<close>

lemma risk_code_char_underscore [simp]: "risk_code_char (CHR ''_'')"
  by (simp add: risk_code_char_def)

lemma sanitize_segment_chars: "list_all risk_code_char (sanitize_segment s)"
proof (induction s rule: sanitize_segment.induct)
  case (1 s)
  show ?case
  proof (cases s)
    case (Cons c r)
    with 1 have "list_all risk_code_char (sanitize_segment (drop (max 1 (rune_width s)) s))" by simp
    with Cons show ?thesis
      by (subst sanitize_segment.simps) (simp add: Let_def split: option.splits)
  qed (simp add: sanitize_segment.simps)
qed

lemma code_prefix_chars:
  assumes "dimension_valid (ss_dimension s)"
  shows "list_all risk_code_char (code_prefix s)" and "code_prefix s \<noteq> []"
proof -
  have "list_all (\<lambda>d. list_all risk_code_char (map upper_char d)) all_dimensions" by code_simp
  with assms show "list_all risk_code_char (code_prefix s)"
    by (auto simp: dimension_valid_iff code_prefix_def list_all_iff)
qed (simp add: code_prefix_def)

definition backstop_code :: "score_signal \<Rightarrow> string" where
  "backstop_code s = code_prefix s @ ss_vendor s @ ''_SCORE_LOW''"

lemma backstop_code_ok:
  assumes "dimension_valid (ss_dimension s)" and "ss_vendor s = sanitize_segment v"
  shows "check_risk_code s (backstop_code s) = None"
proof -
  have "list_all risk_code_char ''_SCORE_LOW''" by code_simp
  with code_prefix_chars [OF assms(1)] sanitize_segment_chars [of v] assms(2)
  show ?thesis by (simp add: check_risk_code_def risk_code_ok_def backstop_code_def)
qed

lemma check_risk_code_None_iff [result_simps]:
  "check_risk_code s c = None \<longleftrightarrow> risk_code_ok c \<and> has_prefix c (code_prefix s)"
  by (simp add: check_risk_code_def)

text \<open>On an accepted value no provider code is dropped.\<close>

lemma score_evaluate_accepted:
  assumes "score_validate s (o_value ob) = None"
  shows "\<exists>n v. decode_score (o_value ob) = Inr (n, v) \<and> 0 \<le> n \<and> n \<le> 100
           \<and> list_all (\<lambda>c. check_risk_code s c = None) (sv_risk_codes v)
           \<and> score_evaluate s a (Some ob) =
               Inr \<lparr>r_raw = n,
                    r_explanation = (if sv_explanation v = []
                                     then [Lit (ss_id s), Lit '' score '', Num n, Lit ''/100'']
                                     else [Lit (sv_explanation v)]),
                    r_attestation = Unattested,
                    r_risks = sv_risk_codes v
                                @ (if n < ss_threshold s then [backstop_code s] else []),
                    r_cap = None\<rparr>"
proof -
  from assms obtain n v where v: "decode_score (o_value ob) = Inr (n, v)" "0 \<le> n" "n \<le> 100"
      "\<forall>c \<in> set (sv_risk_codes v). check_risk_code s c = None"
    by (auto simp: score_validate_def check_all_None_iff split: sum.splits if_splits)
  then have "filter (\<lambda>c. has_prefix c (code_prefix s)) (sv_risk_codes v) = sv_risk_codes v"
    by (simp add: filter_id_conv result_simps)
  with v show ?thesis
    by (simp add: score_evaluate_def Let_def backstop_code_def list_all_iff)
qed

lemma score_contract:
  assumes "dimension_valid dmn" and "s = new_with_subject i dmn subj thr"
  shows "signal_contract (score_signal_of s)"
proof
  fix ob :: observation and a :: agent
  assume "sig_validate (score_signal_of s) (o_value ob) = None"
  then have v: "score_validate s (o_value ob) = None" by (simp add: score_signal_of_def)
  have "risk_code_ok (backstop_code s)"
    using backstop_code_ok [of s "vendor_segment i"] assms
    by (simp add: new_with_subject_def check_risk_code_None_iff)
  with score_evaluate_accepted [OF v, of a]
  show "\<exists>r. sig_evaluate (score_signal_of s) a (Some ob) = Inr r \<and> good_result r"
    by (elim exE conjE) (simp add: score_signal_of_def good_result_def check_risk_code_None_iff list_all_iff ball_Un)
qed (simp add: score_signal_of_def)

section \<open>Loading\<close>

lemma load_entry_Inr:
  assumes "load_entry seen p e = Inr s"
  shows "se_id e \<noteq> [] \<and> se_id e \<notin> set seen \<and> dimension_valid (se_dimension e)
    \<and> dimension_segment (se_id e) = Some (se_dimension e)
    \<and> (case se_threshold e of None \<Rightarrow> True | Some t \<Rightarrow> 0 \<le> t \<and> t \<le> 100)
    \<and> (se_subject e = [] \<or> subject_ok (se_subject e))
    \<and> s = new_with_subject (se_id e) (se_dimension e) (se_subject e) (se_threshold e)"
proof -
  obtain seg where seg: "dimension_segment (se_id e) = Some seg"
  proof (cases "dimension_segment (se_id e)")
    case None
    have False using assms unfolding load_entry_def None option.case if_Inl_eq_Inr by blast
    then show thesis ..
  qed
  have "se_id e \<noteq> [] \<and> se_id e \<notin> set seen \<and> dimension_valid (se_dimension e)
    \<and> seg = se_dimension e
    \<and> \<not> (case se_threshold e of None \<Rightarrow> False | Some t \<Rightarrow> t < 0 \<or> t > 100)
    \<and> \<not> (se_subject e \<noteq> [] \<and> \<not> subject_ok (se_subject e))
    \<and> new_with_subject (se_id e) (se_dimension e) (se_subject e) (se_threshold e) = s"
    using assms unfolding load_entry_def seg option.case if_Inl_eq_Inr sum.inject not_not .
  with seg show ?thesis by (auto split: option.splits)
qed

lemma load_entry_ok:
  assumes "load_entry seen p e = Inr s"
  shows "ss_id s = se_id e" and "se_id e \<notin> set seen"
    and "dimension_valid (ss_dimension s) \<and> dimension_segment (ss_id s) = Some (ss_dimension s)
         \<and> 0 \<le> ss_threshold s \<and> ss_threshold s \<le> 100 \<and> subject_ok (ss_subject s)
         \<and> signal_contract (score_signal_of s)"
proof -
  note e = load_entry_Inr [OF assms]
  have "subject_ok subject_agent" by code_simp
  moreover have "signal_contract (score_signal_of s)" using e by (blast intro: score_contract)
  ultimately show "dimension_valid (ss_dimension s)
         \<and> dimension_segment (ss_id s) = Some (ss_dimension s)
         \<and> 0 \<le> ss_threshold s \<and> ss_threshold s \<le> 100 \<and> subject_ok (ss_subject s)
         \<and> signal_contract (score_signal_of s)"
    using e by (auto simp: new_with_subject_def default_low_threshold_def split: option.splits)
  from e show "ss_id s = se_id e" "se_id e \<notin> set seen" by (simp_all add: new_with_subject_def)
qed

lemma load_entries_ids:
  "load_entries path seen i es = Inr ss
     \<Longrightarrow> distinct (map ss_id ss) \<and> set (map ss_id ss) \<inter> set seen = {}"
proof (induction es arbitrary: seen i ss)
  case (Cons e es)
  then obtain s ss' where s: "load_entry seen [Lit path, Lit ''['', Num (int i), Lit '']''] e = Inr s"
      "load_entries path (se_id e # seen) (Suc i) es = Inr ss'" "ss = s # ss'"
    by (auto split: sum.splits)
  from Cons.IH [OF s(2)] load_entry_ok(1,2) [OF s(1)] s(3) show ?case by auto
qed simp

lemma load_entries_each:
  "load_entries path seen i es = Inr ss \<Longrightarrow> s \<in> set ss
     \<Longrightarrow> \<exists>seen' p e. load_entry seen' p e = Inr s"
proof (induction es arbitrary: seen i ss)
  case (Cons e es)
  then obtain s' ss' where s: "load_entry seen [Lit path, Lit ''['', Num (int i), Lit '']''] e = Inr s'"
      "load_entries path (se_id e # seen) (Suc i) es = Inr ss'" "ss = s' # ss'"
    by (auto split: sum.splits)
  with Cons.IH [OF s(2)] Cons.prems(2) show ?case by auto
qed simp

section \<open>Properties\<close>

text \<open>C17 An accepted provider score evaluates to its score with all of the provider's
  codes plus the low-score backstop exactly below the threshold, and every emitted code is well
  formed and prefixed with the dimension, for any vendor name.\<close>

theorem score_accepted:
  assumes "dimension_valid dmn" and "s = new_with_subject i dmn subj thr"
    and "score_validate s (o_value ob) = None"
  shows "\<exists>n v. decode_score (o_value ob) = Inr (n, v) \<and> 0 \<le> n \<and> n \<le> 100
           \<and> (\<exists>r. score_evaluate s a (Some ob) = Inr r \<and> r_raw r = n
                \<and> r_risks r = sv_risk_codes v @ (if n < ss_threshold s then [backstop_code s] else [])
                \<and> (\<forall>c \<in> set (r_risks r). risk_code_ok c \<and> has_prefix c (code_prefix s)))"
proof -
  have "check_risk_code s (backstop_code s) = None"
    using assms(1,2) by (intro backstop_code_ok) (simp_all add: new_with_subject_def)
  with score_evaluate_accepted [OF assms(3), of a] show ?thesis
    by (fastforce simp: result_simps list_all_iff)
qed

definition example_score :: string where
  "example_score = ''{\"score\":40,\"riskCodes\":[\"SAFETY_PROMPT_INJECTION\"]}''"

theorem score_accepted_witness:
  "\<exists>s r. s = new_score_signal ''acme-labs.safety.score'' DimensionSafety None
     \<and> score_evaluate s example_agent (Some (example_observation (ss_id s) example_score)) = Inr r
     \<and> r_raw r = 40 \<and> r_risks r = [''SAFETY_PROMPT_INJECTION'', ''SAFETY_ACME_LABS_SCORE_LOW'']"
proof -
  let ?s = "new_score_signal ''acme-labs.safety.score'' DimensionSafety None"
  let ?ob = "example_observation (ss_id ?s) example_score"
  have "dimension_valid DimensionSafety" and v: "score_validate ?s (o_value ?ob) = None"
    and d: "decode_score (o_value ?ob) = Inr (40, score_zero\<lparr>sv_score := Some 40,
                sv_risk_codes := [''SAFETY_PROMPT_INJECTION'']\<rparr>)"
    and b: "backstop_code ?s = ''SAFETY_ACME_LABS_SCORE_LOW''" and t: "ss_threshold ?s = 70"
    by code_simp+
  with score_accepted [OF this(1) new_score_signal_def v, of example_agent] show ?thesis
    by (intro exI [of _ ?s]) auto
qed

lemma loaded_signals:
  assumes "load_signals read_file decode_yaml path = Inr ss"
  shows "distinct (map ss_id ss)
    \<and> (\<forall>s \<in> set ss. dimension_valid (ss_dimension s)
         \<and> dimension_segment (ss_id s) = Some (ss_dimension s)
         \<and> 0 \<le> ss_threshold s \<and> ss_threshold s \<le> 100 \<and> subject_ok (ss_subject s)
         \<and> signal_contract (score_signal_of s))"
proof (cases "ss = []")
  case False
  with assms obtain es where es: "load_entries path [] 0 es = Inr ss"
    by (auto simp: load_signals_def split: sum.splits yaml_result.splits)
  with load_entries_ids [OF es] show ?thesis
    using load_entries_each [OF es] load_entry_ok(3) by blast
qed simp

lemma loaded_signals_contract:
  "load_signals read_file decode_yaml path = Inr ss \<Longrightarrow> s \<in> set ss \<Longrightarrow> signal_contract (score_signal_of s)"
  using loaded_signals by blast

text \<open>C18 A loaded score-signal configuration has unique ids; each has a valid dimension
  equal to the dimension segment of its id, a threshold in 0..100, a valid subject, and keeps
  the signal contract.\<close>

theorem load_signals_valid:
  assumes "load_signals read_file decode_yaml path = Inr ss"
  shows "distinct (map ss_id ss)
    \<and> (\<forall>s \<in> set ss. dimension_valid (ss_dimension s)
         \<and> dimension_segment (ss_id s) = Some (ss_dimension s)
         \<and> 0 \<le> ss_threshold s \<and> ss_threshold s \<le> 100 \<and> subject_ok (ss_subject s)
         \<and> signal_contract (score_signal_of s))"
  using assms by (rule loaded_signals)

definition example_entries :: "signal_entry list" where
  "example_entries =
     [\<lparr>se_id = ''did:web:x.org.safety.score'', se_dimension = ''safety'', se_subject = [],
       se_threshold = Some 0\<rparr>,
      \<lparr>se_id = ''acme.behavior.score'', se_dimension = ''behavior'', se_subject = ''tool'',
       se_threshold = None\<rparr>]"

theorem load_signals_valid_witness:
  "\<exists>ss. load_signals (\<lambda>_. Inr []) (\<lambda>_. YamlDoc example_entries) ''signals.yaml'' = Inr ss
     \<and> distinct (map ss_id ss) \<and> map ss_threshold ss = [0, 70]"
proof -
  let ?load = "load_signals (\<lambda>_. Inr []) (\<lambda>_. YamlDoc example_entries) ''signals.yaml''"
  have "?load = Inr (projr ?load)" and "map ss_threshold (projr ?load) = [0, 70]" by code_simp+
  moreover obtain ss where "ss = projr ?load" by simp
  ultimately show ?thesis using load_signals_valid [of "\<lambda>_. Inr []" _ _ ss] by metis
qed

end
