(* ===== verification/EngineFacts.thy ===== *)
theory EngineFacts
  imports WeightedAverage SignalFacts ScoreContainer
begin

text \<open>
  What an evaluation contains: the properties of \<open>Engine.Evaluate\<close>, from the explicit list
  of contributions behind its loop.
\<close>

section \<open>Contributions\<close>

lemma contributions_set:
  "contributions latest a sgs = Inr cs \<Longrightarrow>
     c \<in> set cs \<longleftrightarrow> (\<exists>sg \<in> set sgs. \<exists>obs. latest (a_id a) (sig_id sg) = Inr obs
                      \<and> \<not> skipped sg obs \<and> c = (sg, obs, result_of sg a obs))"
  by (induction sgs arbitrary: cs) (auto split: sum.splits if_splits)

lemma contributions_Inl_iff:
  "(\<exists>err. contributions latest a sgs = Inl err) \<longleftrightarrow>
     (\<exists>sg \<in> set sgs. \<exists>e. latest (a_id a) (sig_id sg) = Inl e)"
  by (induction sgs) (auto split: sum.splits)

lemma contributions_filter:
  "contributions latest a sgs = Inr cs \<Longrightarrow>
     contributions latest a (filter P sgs) = Inr (filter (P \<circ> fst) cs)"
  by (induction sgs arbitrary: cs) (auto split: sum.splits if_splits)

lemma contributions_length: "contributions latest a sgs = Inr cs \<Longrightarrow> length cs \<le> length sgs"
  by (induction sgs arbitrary: cs) (fastforce split: sum.splits if_splits)+

text \<open>The accumulators of a list of contributions, and an evaluation in terms of them.\<close>

definition accum_of :: "scoring_profile \<Rightarrow> contribution list \<Rightarrow> accum" where
  "accum_of profile cs = fold (add_contribution profile) cs empty_accum"

lemma accum_of_fields:
  "ac_scores (accum_of profile cs) d
     = map (contribution_score profile) (filter (\<lambda>c. contribution_dimension c = d) cs)"
  "ac_caps (accum_of profile cs) d = caps_in profile d cs"
  "ac_risks (accum_of profile cs)
     = concat (map (r_risks \<circ> contribution_result) (filter (weighted_in profile) cs))"
  by (simp_all add: accum_of_def fold_contributions empty_accum_def)

lemma evaluate_Inr_iff:
  "evaluate latest reg th now a profile = Inr ev \<longleftrightarrow>
     (\<exists>cs. contributions latest a (all_signals reg) = Inr cs
        \<and> ev = assemble th now a profile (accum_of profile cs))"
  by (auto simp: evaluate_def evaluate_signals_contributions accum_of_def split: sum.splits)

lemma score_of_fields:
  "s_weight (contribution_score profile c) = contribution_weight profile c"
  "s_raw (contribution_score profile c) = clamp_raw (r_raw (contribution_result c))"
  "s_dimension (contribution_score profile c) = contribution_dimension c"
  "s_signal (contribution_score profile c) = sig_id (fst c)"
  by (cases c; simp add: contribution_defs score_of_def)+

lemma clamp_raw_range: "0 \<le> clamp_raw r \<and> clamp_raw r \<le> 100"
  by (simp add: clamp_raw_def)

lemma clamp_raw_id: "0 \<le> r \<Longrightarrow> r \<le> 100 \<Longrightarrow> clamp_raw r = r"
  by (simp add: clamp_raw_def)

section \<open>Caps\<close>

lemma min_from_le: "min_from m xs \<le> m \<and> (\<forall>x \<in> set xs. min_from m xs \<le> x)"
  by (induction m xs rule: min_from.induct) fastforce+

lemma min_from_in: "min_from m xs \<in> insert m (set xs)"
  by (induction m xs rule: min_from.induct) auto

lemma min_int_eq: "xs \<noteq> [] \<Longrightarrow> min_int xs = Min (set xs)"
proof -
  assume "xs \<noteq> []"
  then obtain y ys where xs: "xs = y # ys" by (cases xs) auto
  have "Min (set xs) = min_from y ys"
    using min_from_le [of y ys] min_from_in [of y ys] by (intro Min_eqI) (auto simp: xs)
  then show ?thesis by (simp add: xs min_int_def)
qed

lemma dimension_value_eq:
  "dimension_value acc d = Min (insert (weighted_average (ac_scores acc d)) (set (ac_caps acc d)))"
proof (cases "ac_caps acc d = []")
  case False
  have "dimension_value acc d = min (weighted_average (ac_scores acc d)) (min_int (ac_caps acc d))"
    using False by (simp add: dimension_value_def Let_def min_def)
  also have "min_int (ac_caps acc d) = Min (set (ac_caps acc d))"
    using False by (rule min_int_eq)
  finally show ?thesis using False by (subst Min_insert) simp_all
qed (simp add: dimension_value_def)

lemma dimension_value_le_cap: "c \<in> set (ac_caps acc d) \<Longrightarrow> dimension_value acc d \<le> c"
  by (simp add: dimension_value_eq Min_le)

lemma caps_in_range: "c \<in> set (caps_in profile d cs) \<Longrightarrow> 0 \<le> c \<and> c \<le> 100"
  using clamp_raw_range by (auto simp: caps_in_def)

lemma dimension_value_range:
  assumes "0 \<le> weighted_average (ac_scores acc d) \<and> weighted_average (ac_scores acc d) \<le> 100"
    and "\<And>c. c \<in> set (ac_caps acc d) \<Longrightarrow> 0 \<le> c \<and> c \<le> 100"
  shows "0 \<le> dimension_value acc d \<and> dimension_value acc d \<le> 100"
proof -
  let ?A = "insert (weighted_average (ac_scores acc d)) (set (ac_caps acc d))"
  have "dimension_value acc d \<in> ?A" unfolding dimension_value_eq by (rule Min_in) simp_all
  with assms show ?thesis by auto
qed

section \<open>The weighted signals decide\<close>

lemma weighted_sums_filter:
  "weighted_sums ss acc = weighted_sums (filter (\<lambda>s. positive_weight (s_weight s)) ss) acc"
  by (induction ss acc rule: weighted_sums.induct) simp_all

lemma weighted_average_filter:
  "weighted_average (filter (\<lambda>s. positive_weight (s_weight s)) ss) = weighted_average ss"
  by (simp add: weighted_average_def flip: weighted_sums_filter)

lemma accum_of_weighted:
  fixes profile cs
  defines "acc \<equiv> accum_of profile cs" and "acc' \<equiv> accum_of profile (filter (weighted_in profile) cs)"
  shows "dimension_value acc' d = dimension_value acc d"
    and "activity_of profile acc' = activity_of profile acc"
    and "ac_risks acc' = ac_risks acc"
proof -
  have sc: "ac_scores acc' e = filter (\<lambda>s. positive_weight (s_weight s)) (ac_scores acc e)" for e
    by (simp add: acc_def acc'_def accum_of_fields filter_map o_def score_of_fields weighted_in_def
        conj_commute)
  have "ac_caps acc' e = ac_caps acc e" for e
    by (simp add: acc_def acc'_def accum_of_fields caps_in_def conj_ac cong: conj_cong)
  then show "dimension_value acc' d = dimension_value acc d"
    by (simp add: dimension_value_eq sc weighted_average_filter)
  show "activity_of profile acc' = activity_of profile acc"
    by (auto simp: activity_of_def sc has_weighted_signal_def list_ex_iff)
  show "ac_risks acc' = ac_risks acc" by (simp add: acc_def acc'_def accum_of_fields)
qed

section \<open>A concrete evaluation\<close>

text \<open>
  Three signals: DNS security (a built-in), a gating signal of a provider that blocked the agent,
  and a provider score with no observation, which the profile does not weight.
\<close>

definition example_block :: signal where
  "example_block =
     \<lparr>sig_id = ''acme.safety.block'', sig_dimension = DimensionSafety, sig_derived = False,
      sig_validate = (\<lambda>_. None),
      sig_evaluate = (\<lambda>a obs. case obs of None \<Rightarrow> Inl [Lit ''absent'']
         | Some _ \<Rightarrow> Inr \<lparr>r_raw = 0, r_explanation = [Lit ''blocked''], r_attestation = Unattested,
                          r_risks = [''SAFETY_BLOCKED''], r_cap = Some 0\<rparr>),
      sig_absence = Some False\<rparr>"

definition example_score_signal :: signal where
  "example_score_signal = score_signal_of (new_score_signal ''acme.safety.score'' DimensionSafety None)"

definition example_registry :: registry where
  "example_registry =
     \<lparr>reg_signals = [''dnssecurity'' \<mapsto> dnssec_signal, ''acme.safety.block'' \<mapsto> example_block,
                     ''acme.safety.score'' \<mapsto> example_score_signal],
      reg_order = [''dnssecurity'', ''acme.safety.block'', ''acme.safety.score'']\<rparr>"

definition example_profile :: scoring_profile where
  "example_profile =
     \<lparr>sp_name = ''default'', sp_dimension_weights = [DimensionIntegrity \<mapsto> Fin 1, DimensionSafety \<mapsto> Fin 1],
      sp_signal_weights = [''dnssecurity'' \<mapsto> Fin 1, ''acme.safety.block'' \<mapsto> Fin 1]\<rparr>"

definition example_reader :: reader where
  "example_reader a sid =
     (if sid = ''acme.safety.block'' then Inr (Some (example_observation sid ''{}'')) else Inr None)"

abbreviation example_evaluation :: "(message, trust_evaluation) result" where
  "example_evaluation \<equiv>
     evaluate example_reader example_registry default_thresholds 0 example_agent example_profile"

lemma example_signals:
  "all_signals example_registry = [dnssec_signal, example_block, example_score_signal]"
  by (simp add: all_signals_def example_registry_def)

lemma example_ids:
  "sig_id dnssec_signal = ''dnssecurity''" "sig_id example_block = ''acme.safety.block''"
  "sig_id example_score_signal = ''acme.safety.score''"
  "sig_absence dnssec_signal = None" "sig_absence example_score_signal = Some False"
  by (simp_all add: dnssec_signal_def example_block_def example_score_signal_def score_signal_of_def
      new_score_signal_def new_with_subject_def)

lemma evaluate_ex:
  assumes "\<forall>sg \<in> set (all_signals reg). \<exists>obs. latest (a_id a) (sig_id sg) = Inr obs"
  shows "\<exists>ev. evaluate latest reg th now a profile = Inr ev"
proof -
  have "\<not> (\<exists>err. contributions latest a (all_signals reg) = Inl err)"
    unfolding contributions_Inl_iff using assms by force
  then show ?thesis by (auto simp: evaluate_Inr_iff intro: sumE [of "contributions latest a (all_signals reg)"])
qed

lemma evaluate_has_dimension:
  "evaluate latest reg th now a profile = Inr ev \<Longrightarrow> d \<in> set all_dimensions
     \<Longrightarrow> \<exists>ds \<in> set (e_dimensions ev). d_dimension ds = d"
  by (auto simp: evaluate_Inr_iff assemble_def Let_def)

lemma example_evaluates: "\<exists>ev. example_evaluation = Inr ev"
  by (rule evaluate_ex) (auto simp: example_reader_def)

lemma example_weights:
  "w \<in> ran (sp_signal_weights example_profile) \<Longrightarrow> moderate w"
  using representable_int [of 1] by (auto simp: example_profile_def moderate_def max_weight_def ran_def split: if_splits)

lemma example_weighted:
  "positive_weight (weight_of (sp_signal_weights example_profile) (sig_id sg)) \<longleftrightarrow>
     sig_id sg = ''dnssecurity'' \<or> sig_id sg = ''acme.safety.block''"
  by (auto simp: example_profile_def weight_of_def)

lemma example_contract: "sg \<in> set (all_signals example_registry) \<Longrightarrow> signal_contract sg"
proof -
  have "signal_contract example_block"
    by unfold_locales (auto simp: example_block_def good_result_def, code_simp)
  moreover have "signal_contract example_score_signal"
    unfolding example_score_signal_def new_score_signal_def
    by (rule score_contract [OF _ refl]) code_simp
  ultimately show "sg \<in> set (all_signals example_registry) \<Longrightarrow> signal_contract sg"
    by (auto simp: example_signals intro: dnssec.signal_contract_axioms)
qed

definition example_registry_without :: "signal_id \<Rightarrow> registry" where
  "example_registry_without i =
     \<lparr>reg_signals = reg_signals example_registry, reg_order = filter (\<lambda>j. j \<noteq> i) (reg_order example_registry)\<rparr>"

section \<open>Properties\<close>

text \<open>An evaluation fails exactly when reading the latest observation of some
  registered signal fails; an error of a signal itself never fails it.\<close>

theorem evaluate_fails_iff:
  "(\<exists>err. evaluate latest reg th now a profile = Inl err) \<longleftrightarrow>
     (\<exists>sg \<in> set (all_signals reg). \<exists>e. latest (a_id a) (sig_id sg) = Inl e)"
proof -
  have "(\<exists>err. evaluate latest reg th now a profile = Inl err) \<longleftrightarrow>
        (\<exists>err. contributions latest a (all_signals reg) = Inl err)"
    by (auto simp: evaluate_def evaluate_signals_contributions split: sum.splits)
  then show ?thesis by (simp only: contributions_Inl_iff)
qed

text \<open>Every evaluation carries the five dimensions in canonical order, its trust vector
  is their scores, every signal score sits under its own dimension, and agent, profile name and
  unset tier are carried through.\<close>

theorem evaluate_shape:
  assumes "evaluate latest reg th now a profile = Inr ev"
  shows "map d_dimension (e_dimensions ev) = all_dimensions
    \<and> map d_score (e_dimensions ev)
        = [tv_integrity (e_vector ev), tv_identity (e_vector ev), tv_solvency (e_vector ev),
           tv_behavior (e_vector ev), tv_safety (e_vector ev)]
    \<and> (\<forall>ds \<in> set (e_dimensions ev). \<forall>s \<in> set (d_signals ds). s_dimension s = d_dimension ds)
    \<and> e_agent ev = a_id a \<and> e_scoring_profile ev = sp_name profile \<and> e_tier ev = TierUnset"
  using assms
  by (auto simp: evaluate_Inr_iff assemble_def Let_def all_dimensions_def accum_of_fields
      score_of_fields o_def)

theorem evaluate_shape_witness:
  "\<exists>ev. example_evaluation = Inr ev \<and> map d_dimension (e_dimensions ev) = all_dimensions"
  using example_evaluates evaluate_shape by blast

text \<open>C1 Under weights of moderate size (finite, at most 2^900, rounding errors of
  binary64 included) every dimension score and every raw signal score of an evaluation lies in
  0..100.\<close>

theorem evaluate_scores_bounded:
  assumes "evaluate latest reg th now a profile = Inr ev"
    and "\<forall>w \<in> ran (sp_signal_weights profile). moderate w"
    and "length (all_signals reg) \<le> 2 ^ 40"
  shows "\<forall>ds \<in> set (e_dimensions ev). 0 \<le> d_score ds \<and> d_score ds \<le> 100
           \<and> (\<forall>s \<in> set (d_signals ds). 0 \<le> s_raw s \<and> s_raw s \<le> 100)"
proof -
  obtain cs where cs: "contributions latest a (all_signals reg) = Inr cs"
    and ev: "ev = assemble th now a profile (accum_of profile cs)"
    using assms(1) by (auto simp: evaluate_Inr_iff)
  have wt: "moderate (weight_of (sp_signal_weights profile) i)" for i
    using assms(2) by (auto simp: weight_of_def moderate_def ranI split: option.splits)
  have "0 \<le> weighted_average (ac_scores (accum_of profile cs) d)
      \<and> weighted_average (ac_scores (accum_of profile cs) d) \<le> 100" for d
  proof (rule weighted_average_bounds)
    have "length (filter (\<lambda>c. contribution_dimension c = d) cs) \<le> length cs" by simp
    with contributions_length [OF cs] assms(3)
    show "length (ac_scores (accum_of profile cs) d) \<le> 2 ^ 40"
      by (simp add: accum_of_fields del: length_filter_le)
  qed (auto simp: accum_of_fields score_of_fields clamp_raw_range wt contribution_weight_def)
  then have "0 \<le> dimension_value (accum_of profile cs) d \<and> dimension_value (accum_of profile cs) d \<le> 100" for d
    by (intro dimension_value_range) (auto simp: accum_of_fields dest: caps_in_range)
  then show ?thesis
    by (auto simp: ev assemble_def Let_def accum_of_fields score_of_fields clamp_raw_range)
qed

theorem evaluate_scores_bounded_witness:
  "\<exists>ev. example_evaluation = Inr ev
     \<and> (\<forall>ds \<in> set (e_dimensions ev). 0 \<le> d_score ds \<and> d_score ds \<le> 100)"
  using example_evaluates evaluate_scores_bounded [OF _ ballI [OF example_weights]]
  by (fastforce simp: example_signals)

text \<open>C3 A weighted signal that returns a dimension cap bounds the score of its dimension
  by the clamped cap however well the other signals score, and an agent capped below the
  untrusted floor in a gating dimension is classified UNTRUSTED.\<close>

theorem hard_stop_caps:
  assumes "evaluate latest reg th now a profile = Inr ev"
    and "sg \<in> set (all_signals reg)" and "latest (a_id a) (sig_id sg) = Inr obs"
    and "\<not> skipped sg obs" and "sig_evaluate sg a obs = Inr r" and "r_cap r = Some c"
    and "positive_weight (weight_of (sp_signal_weights profile) (sig_id sg))"
    and "ds \<in> set (e_dimensions ev)" and "d_dimension ds = sig_dimension sg"
  shows "d_score ds \<le> clamp_raw c
    \<and> (positive_weight (weight_of (sp_dimension_weights profile) (sig_dimension sg))
         \<and> clamp_raw c < th_untrusted th \<longrightarrow> e_profile ev = Untrusted)"
proof -
  obtain cs where cs: "contributions latest a (all_signals reg) = Inr cs"
    and ev: "ev = assemble th now a profile (accum_of profile cs)"
    using assms(1) by (auto simp: evaluate_Inr_iff)
  let ?acc = "accum_of profile cs" and ?d = "sig_dimension sg" and ?c = "(sg, obs, r)"
  have r: "result_of sg a obs = r" using assms(5) by (simp add: result_of_def)
  then have mem: "?c \<in> set cs" using contributions_set [OF cs] assms(2-4) by blast
  have w: "weighted_in profile ?c" using assms(7) by (simp add: contribution_defs)
  let ?in = "\<lambda>c. contribution_dimension c = ?d \<and> weighted_in profile c \<and> r_cap (contribution_result c) \<noteq> None"
  have "?c \<in> set (filter ?in cs)"
    using mem w assms(6) by (simp add: contribution_dimension_def contribution_result_def)
  then have "(\<lambda>c. clamp_raw (the (r_cap (contribution_result c)))) ?c \<in> set (ac_caps ?acc ?d)"
    unfolding accum_of_fields caps_in_def set_map by (rule imageI)
  then have "clamp_raw c \<in> set (ac_caps ?acc ?d)" by (simp add: contribution_result_def assms(6))
  then have le: "dimension_value ?acc ?d \<le> clamp_raw c" by (rule dimension_value_le_cap)
  have d: "?d \<in> set all_dimensions" and sc: "d_score ds = dimension_value ?acc ?d"
    using assms(8,9) by (auto simp: ev assemble_def Let_def)
  have "contribution_score profile ?c \<in> set (ac_scores ?acc ?d)"
    using mem by (auto simp: accum_of_fields contribution_dimension_def)
  moreover have "positive_weight (s_weight (contribution_score profile ?c))"
    using w by (simp add: score_of_fields weighted_in_def)
  ultimately have has: "has_weighted_signal (ac_scores ?acc ?d)"
    unfolding has_weighted_signal_def list_ex_iff by blast
  have "e_profile ev = Untrusted"
    if pos: "positive_weight (weight_of (sp_dimension_weights profile) ?d)"
      and below: "clamp_raw c < th_untrusted th"
  proof -
    have on: "(?d, True) \<in> set (activity_of profile ?acc)"
      using d has pos by (force simp: activity_of_def)
    with le below have "any_below (dimension_value ?acc) (activity_of profile ?acc) (th_untrusted th)"
      unfolding any_below_iff by (meson le_less_trans)
    moreover have "any_active (activity_of profile ?acc)" using on by (auto simp: any_active_iff)
    ultimately show ?thesis by (simp add: ev assemble_def Let_def classify_def)
  qed
  with le sc show ?thesis by simp
qed

theorem hard_stop_caps_witness:
  "\<exists>ev. example_evaluation = Inr ev \<and> e_profile ev = Untrusted"
proof -
  obtain ev where ev: "example_evaluation = Inr ev" using example_evaluates by blast
  let ?r = "\<lparr>r_raw = 0, r_explanation = [Lit ''blocked''], r_attestation = Unattested,
             r_risks = [''SAFETY_BLOCKED''], r_cap = Some 0\<rparr>"
  let ?ob = "Some (example_observation ''acme.safety.block'' ''{}'')"
  have "sig_evaluate example_block example_agent ?ob = Inr ?r"
    and "\<not> skipped example_block ?ob" by (simp_all add: example_block_def skipped_def)
  moreover obtain ds where "ds \<in> set (e_dimensions ev)" "d_dimension ds = sig_dimension example_block"
    using evaluate_has_dimension [OF ev, of DimensionSafety]
    by (auto simp: all_dimensions_def example_block_def)
  ultimately have "e_profile ev = Untrusted"
    using hard_stop_caps [OF ev, of example_block ?ob ?r 0 ds]
    by (auto simp: example_signals example_ids example_reader_def example_weighted clamp_raw_def
        default_thresholds_def example_profile_def example_block_def weight_of_def dimension_defs)
  with ev show ?thesis by blast
qed

text \<open>C8 Signals of weight zero change neither the trust vector, nor the classification,
  nor the risk factors: all equal those of the registry without them.\<close>

theorem inactive_signals_inert:
  assumes "evaluate latest reg th now a profile = Inr ev"
    and "all_signals reg' = filter (\<lambda>sg. positive_weight
            (weight_of (sp_signal_weights profile) (sig_id sg))) (all_signals reg)"
  shows "\<exists>ev'. evaluate latest reg' th now a profile = Inr ev' \<and> e_vector ev' = e_vector ev
           \<and> e_profile ev' = e_profile ev \<and> e_risks ev' = e_risks ev"
proof -
  obtain cs where cs: "contributions latest a (all_signals reg) = Inr cs"
    and ev: "ev = assemble th now a profile (accum_of profile cs)"
    using assms(1) by (auto simp: evaluate_Inr_iff)
  have W: "(\<lambda>sg. positive_weight (weight_of (sp_signal_weights profile) (sig_id sg))) \<circ> fst
      = weighted_in profile"
    by (simp add: fun_eq_iff weighted_in_def contribution_weight_def)
  have "contributions latest a (all_signals reg') = Inr (filter (weighted_in profile) cs)"
    using contributions_filter [OF cs] unfolding assms(2)
    by (simp add: W)
  then have "evaluate latest reg' th now a profile
      = Inr (assemble th now a profile (accum_of profile (filter (weighted_in profile) cs)))"
    by (auto simp: evaluate_Inr_iff)
  moreover have "dimension_value (accum_of profile (filter (weighted_in profile) cs))
      = dimension_value (accum_of profile cs)"
    by (simp add: fun_eq_iff accum_of_weighted)
  ultimately show ?thesis by (simp add: ev assemble_def Let_def accum_of_weighted)
qed

theorem inactive_signals_inert_witness:
  "\<exists>ev ev'. example_evaluation = Inr ev
     \<and> evaluate example_reader (example_registry_without ''acme.safety.score'') default_thresholds 0
         example_agent example_profile = Inr ev'
     \<and> e_vector ev' = e_vector ev \<and> e_profile ev' = e_profile ev"
proof -
  obtain ev where ev: "example_evaluation = Inr ev" using example_evaluates by blast
  have "all_signals (example_registry_without ''acme.safety.score'')
     = filter (\<lambda>sg. positive_weight (weight_of (sp_signal_weights example_profile) (sig_id sg)))
         (all_signals example_registry)"
    by (simp add: example_weighted example_signals example_ids)
      (simp add: all_signals_def example_registry_without_def example_registry_def)
  from inactive_signals_inert [OF ev this] ev show ?thesis by blast
qed

text \<open>C7 A signal that declares absence non-informative and has no observation for the
  agent changes nothing: the evaluation equals the one of the registry without it.\<close>

theorem uncovered_signals_excluded:
  assumes "evaluate latest reg th now a profile = Inr ev"
    and "all_signals reg' = filter (\<lambda>sg. \<not> (sig_absence sg = Some False
            \<and> latest (a_id a) (sig_id sg) = Inr None)) (all_signals reg)"
  shows "evaluate latest reg' th now a profile = Inr ev"
proof -
  let ?P = "\<lambda>sg. \<not> (sig_absence sg = Some False \<and> latest (a_id a) (sig_id sg) = Inr None)"
  obtain cs where cs: "contributions latest a (all_signals reg) = Inr cs"
    and ev: "ev = assemble th now a profile (accum_of profile cs)"
    using assms(1) by (auto simp: evaluate_Inr_iff)
  have "filter (?P \<circ> fst) cs = cs"
    using contributions_set [OF cs] by (auto simp: filter_id_conv skipped_def)
  then have "contributions latest a (all_signals reg') = Inr cs"
    using contributions_filter [OF cs, of ?P] unfolding assms(2) by simp
  then show ?thesis by (simp add: evaluate_Inr_iff ev)
qed

theorem uncovered_signals_excluded_witness:
  "\<exists>ev. example_evaluation = Inr ev
     \<and> evaluate example_reader (example_registry_without ''acme.safety.score'') default_thresholds 0
         example_agent example_profile = Inr ev"
proof -
  obtain ev where ev: "example_evaluation = Inr ev" using example_evaluates by blast
  have "all_signals (example_registry_without ''acme.safety.score'')
     = filter (\<lambda>sg. \<not> (sig_absence sg = Some False
            \<and> example_reader (a_id example_agent) (sig_id sg) = Inr None)) (all_signals example_registry)"
    by (simp add: example_reader_def example_signals example_ids)
      (simp add: all_signals_def example_registry_without_def example_registry_def)
  from uncovered_signals_excluded [OF ev this] ev show ?thesis by blast
qed

text \<open>C10 The risk factors of an evaluation are distinct and are exactly the codes of the
  weighted signals that were not skipped.\<close>

theorem risk_factors_distinct_union:
  assumes "evaluate latest reg th now a profile = Inr ev"
  shows "distinct (e_risks ev)
    \<and> set (e_risks ev) = (\<Union>sg \<in> {sg \<in> set (all_signals reg).
          positive_weight (weight_of (sp_signal_weights profile) (sig_id sg))}.
        \<Union>obs \<in> {obs. latest (a_id a) (sig_id sg) = Inr obs \<and> \<not> skipped sg obs}.
          set (r_risks (result_of sg a obs)))"
proof -
  obtain cs where cs: "contributions latest a (all_signals reg) = Inr cs"
    and ev: "ev = assemble th now a profile (accum_of profile cs)"
    using assms(1) by (auto simp: evaluate_Inr_iff)
  have "e_risks ev = dedupe_from [] (ac_risks (accum_of profile cs))"
    by (simp add: ev assemble_def Let_def dedupe_preserve_order_def)
  moreover have "set (ac_risks (accum_of profile cs)) = (\<Union>sg \<in> {sg \<in> set (all_signals reg).
          positive_weight (weight_of (sp_signal_weights profile) (sig_id sg))}.
        \<Union>obs \<in> {obs. latest (a_id a) (sig_id sg) = Inr obs \<and> \<not> skipped sg obs}.
          set (r_risks (result_of sg a obs)))"
    using contributions_set [OF cs]
    by (fastforce simp: accum_of_fields contribution_defs)
  ultimately show ?thesis by (simp add: set_dedupe_from distinct_dedupe_from)
qed

theorem risk_factors_distinct_union_witness:
  "\<exists>ev. example_evaluation = Inr ev \<and> distinct (e_risks ev)"
  using example_evaluates risk_factors_distinct_union by blast

lemma accepted_exact:
  assumes "evaluate latest reg th now a profile = Inr ev"
    and "\<forall>sg \<in> set (all_signals reg). signal_contract sg"
    and "\<forall>sg \<in> set (all_signals reg). \<forall>ob. latest (a_id a) (sig_id sg) = Inr (Some ob)
           \<longrightarrow> sig_validate sg (o_value ob) = None"
  shows "(\<forall>ds \<in> set (e_dimensions ev). \<forall>s \<in> set (d_signals ds).
            \<exists>sg \<in> set (all_signals reg). \<exists>obs r. latest (a_id a) (sig_id sg) = Inr obs
              \<and> s_signal s = sig_id sg \<and> sig_evaluate sg a obs = Inr r
              \<and> s_raw s = r_raw r \<and> s_explanation s = r_explanation r)
    \<and> (\<forall>code \<in> set (e_risks ev). risk_code_ok code)"
proof -
  obtain cs where cs: "contributions latest a (all_signals reg) = Inr cs"
    and ev: "ev = assemble th now a profile (accum_of profile cs)"
    using assms(1) by (auto simp: evaluate_Inr_iff)
  have good: "\<exists>sg \<in> set (all_signals reg). \<exists>obs r. c = (sg, obs, r) \<and> sig_evaluate sg a obs = Inr r
      \<and> latest (a_id a) (sig_id sg) = Inr obs \<and> good_result r" if "c \<in> set cs" for c
  proof -
    from that contributions_set [OF cs] obtain sg obs where c: "sg \<in> set (all_signals reg)"
        "latest (a_id a) (sig_id sg) = Inr obs" "\<not> skipped sg obs" "c = (sg, obs, result_of sg a obs)"
      by blast
    then have "admissible sg obs"
      using assms(3) by (auto simp: admissible_def skipped_def split: option.splits)
    with assms(2) c(1) obtain r where "sig_evaluate sg a obs = Inr r" "good_result r"
      by (blast elim: signal_contract.evaluates)
    with c show ?thesis by (auto simp: result_of_def)
  qed
  have "\<exists>sg \<in> set (all_signals reg). \<exists>obs r. latest (a_id a) (sig_id sg) = Inr obs
      \<and> s_signal s = sig_id sg \<and> sig_evaluate sg a obs = Inr r
      \<and> s_raw s = r_raw r \<and> s_explanation s = r_explanation r"
    if "ds \<in> set (e_dimensions ev)" "s \<in> set (d_signals ds)" for ds s
  proof -
    from that obtain c where "c \<in> set cs" "s = contribution_score profile c"
      by (auto simp: ev assemble_def Let_def accum_of_fields)
    with good [of c] show ?thesis
      by (fastforce simp: contribution_score_def score_of_def good_result_def clamp_raw_id)
  qed
  moreover have "risk_code_ok code" if "code \<in> set (e_risks ev)" for code
  proof -
    from that obtain c where "c \<in> set cs" "code \<in> set (r_risks (contribution_result c))"
      by (auto simp: ev assemble_def Let_def dedupe_preserve_order_def set_dedupe_from accum_of_fields)
    with good [of c] show ?thesis
      by (auto simp: good_result_def contribution_result_def list_all_iff)
  qed
  ultimately show ?thesis by blast
qed

text \<open>C9 When every signal keeps the signal contract and every stored observation was
  accepted by its signal, no score is degraded or clamped (each is what Evaluate returned) and
  every risk factor is a well-formed code.\<close>

theorem accepted_never_degrade:
  assumes "evaluate latest reg th now a profile = Inr ev"
    and "\<forall>sg \<in> set (all_signals reg). signal_contract sg"
    and "\<forall>sg \<in> set (all_signals reg). \<forall>ob. latest (a_id a) (sig_id sg) = Inr (Some ob)
           \<longrightarrow> sig_validate sg (o_value ob) = None"
  shows "(\<forall>ds \<in> set (e_dimensions ev). \<forall>s \<in> set (d_signals ds).
            \<exists>sg \<in> set (all_signals reg). \<exists>obs r. latest (a_id a) (sig_id sg) = Inr obs
              \<and> s_signal s = sig_id sg \<and> sig_evaluate sg a obs = Inr r
              \<and> s_raw s = r_raw r \<and> s_explanation s = r_explanation r)
    \<and> (\<forall>code \<in> set (e_risks ev). risk_code_ok code)"
  using assms by (rule accepted_exact)

theorem accepted_never_degrade_witness:
  "\<exists>ev. example_evaluation = Inr ev \<and> (\<forall>code \<in> set (e_risks ev). risk_code_ok code)"
proof -
  obtain ev where ev: "example_evaluation = Inr ev" using example_evaluates by blast
  have "\<forall>sg \<in> set (all_signals example_registry). \<forall>ob. example_reader (a_id example_agent) (sig_id sg)
      = Inr (Some ob) \<longrightarrow> sig_validate sg (o_value ob) = None"
    by (auto simp: example_signals example_ids example_reader_def) (simp_all add: example_block_def)
  with accepted_never_degrade [OF ev] example_contract ev show ?thesis by blast
qed

end
