(* ===== verification/ImportFacts.thy ===== *)
theory ImportFacts
  imports ImportSvc StoreLatest EngineFacts
begin

text \<open>
  The import service over its ports.  The locale \<open>import_store\<close> states what the service needs
  of the storage port (a failed batch changes nothing); the facts about the handlers are proved in
  it and interpreted on the SQLite store.  The states the import API reaches satisfy the invariant
  that every stored observation was accepted by the registered signal it names.
\<close>

lemma reject_simps [simp]:
  "rs_status (h_response (reject e d)) \<noteq> 200" "h_store (reject e d) = d" "h_accepted (reject e d) = 0"
proof -
  have "400 \<le> rs_status (h_response (reject e d))" by (simp add: reject_def write_problem_status)
  then show "rs_status (h_response (reject e d)) \<noteq> 200" by linarith
qed (simp_all add: reject_def)

lemma acknowledge_simps [simp]:
  "rs_status (h_response (acknowledge xs d)) = 200" "h_store (acknowledge xs d) = d"
  "h_accepted (acknowledge xs d) = int (length xs)"
  by (simp_all add: acknowledge_def write_json_def)

section \<open>Over any store that keeps the batch contract\<close>

locale import_store =
  fixes sp :: "'s store_port" and ok :: "'s \<Rightarrow> bool"
  assumes upserts_atomic: "ok d \<Longrightarrow> sp_upserts sp as d = (d', Some e) \<Longrightarrow> d' = d"
    and appends_atomic: "ok d \<Longrightarrow> sp_appends sp obs d = (d', Some e) \<Longrightarrow> d' = d"
    and upserts_ok: "ok d \<Longrightarrow> ok (fst (sp_upserts sp as d))"
    and appends_ok: "ok d \<Longrightarrow> ok (fst (sp_appends sp obs d))"
begin

lemma import_agents_failed: "ok d \<Longrightarrow> import_agents sp as d = (d', Some e) \<Longrightarrow> d' = d"
  by (auto simp: import_agents_def dest: upserts_atomic split: prod.splits option.splits)

lemma import_observations_failed:
  "ok d \<Longrightarrow> import_observations sp lookup obs d = (d', Some e) \<Longrightarrow> d' = d"
  by (auto simp: import_observations_def dest: appends_atomic split: prod.splits option.splits)

lemma import_agents_ok: "ok d \<Longrightarrow> ok (fst (import_agents sp as d))"
  using upserts_ok [of d as] by (auto simp: import_agents_def split: prod.splits option.splits)

lemma import_observations_ok: "ok d \<Longrightarrow> ok (fst (import_observations sp lookup obs d))"
  using appends_ok [of d obs] by (auto simp: import_observations_def split: prod.splits option.splits)

lemma agents_unchanged:
  assumes "ok d" and "rs_status (h_response (import_agents_handler sp body d)) \<noteq> 200"
  shows "h_store (import_agents_handler sp body d) = d"
  using assms
  by (auto simp: import_agents_handler_def dest: import_agents_failed split: sum.splits prod.splits option.splits)

lemma observations_unchanged:
  assumes "ok d" and "rs_status (h_response (import_observations_handler ph sp lookup body d)) \<noteq> 200"
  shows "h_store (import_observations_handler ph sp lookup body d) = d"
  using assms
  by (auto simp: import_observations_handler_def dest: import_observations_failed split: sum.splits prod.splits option.splits)

text \<open>A 200 stands for a decoded, converted and stored batch.\<close>

lemma agents_stored:
  assumes "rs_status (h_response (import_agents_handler sp body d)) = 200"
  shows "\<exists>as d'. try_bind (decode_body agents_request [] body) agents_to_domain = Inr as
    \<and> sp_upserts sp as d = (d', None) \<and> import_agents_handler sp body d = acknowledge as d'"
  using assms
  by (auto simp: import_agents_handler_def import_agents_def split: sum.splits prod.splits option.splits)

lemma observations_stored:
  assumes "rs_status (h_response (import_observations_handler ph sp lookup body d)) = 200"
  shows "\<exists>obs d'. try_bind (decode_body observations_request [] body) (observations_to_domain ph) = Inr obs
    \<and> (\<forall>ob \<in> set obs. validate_observation sp lookup d ob = None)
    \<and> sp_appends sp obs d = (d', None)
    \<and> import_observations_handler ph sp lookup body d = acknowledge obs d'"
proof -
  from assms obtain obs where obs: "try_bind (decode_body observations_request [] body) (observations_to_domain ph) = Inr obs"
    by (auto simp: import_observations_handler_def split: sum.splits)
  with assms have none: "check_all (validate_observation sp lookup d) obs = None"
    by (auto simp: import_observations_handler_def import_observations_def split: option.splits)
  with assms obs have "snd (sp_appends sp obs d) = None"
    by (auto simp: import_observations_handler_def import_observations_def split: prod.splits option.splits)
  then obtain d' where d': "sp_appends sp obs d = (d', None)" by (metis prod.collapse)
  with obs none have "import_observations_handler ph sp lookup body d = acknowledge obs d'"
    by (simp add: import_observations_handler_def import_observations_def)
  with obs none d' show ?thesis by (simp add: check_all_None_iff)
qed

end

section \<open>Over the SQLite store\<close>

interpretation sqlite: import_store sqlite_port store_valid
proof
  fix d d' :: db and as obs e
  show "d' = d" if "sp_upserts sqlite_port as d = (d', Some e)"
    using that by (auto simp: sqlite_port_def upsert_agents_def in_transaction_def split: if_splits sum.splits)
  show "d' = d" if "sp_appends sqlite_port obs d = (d', Some e)"
    using that by (auto simp: sqlite_port_def append_observations_def in_transaction_def split: if_splits sum.splits)
  show "store_valid (fst (sp_upserts sqlite_port as d))" if "store_valid d"
    using that in_transaction_invariant [of store_valid upsert_agent] upsert_agent_valid
    by (simp add: sqlite_port_def upsert_agents_def)
  show "store_valid (fst (sp_appends sqlite_port obs d))" if "store_valid d"
    using that in_transaction_invariant [of store_valid append_observation] append_observation_valid
    by (simp add: sqlite_port_def append_observations_def)
qed

text \<open>The states reached through the import service and the pruner.\<close>

inductive service_reachable :: "registry \<Rightarrow> db \<Rightarrow> bool" for reg :: registry where
  service_fresh: "service_reachable reg empty_db"
| service_agents: "service_reachable reg d \<Longrightarrow> service_reachable reg (fst (import_agents sqlite_port as d))"
| service_observations: "service_reachable reg d \<Longrightarrow>
    service_reachable reg (fst (import_observations sqlite_port (get_signal reg) obs d))"
| service_pruned: "service_reachable reg d \<Longrightarrow> service_reachable reg (fst (prune_observations keep d))"

inductive_cases service_reachableE: "service_reachable reg d"

lemma import_agents_step: "fst (import_agents sqlite_port as d) = fst (upsert_agents as d)"
  by (simp add: import_agents_def sqlite_port_def split: prod.split option.split)

lemma import_observations_step:
  "\<forall>ob \<in> set obs. validate_observation sqlite_port lookup d ob = None
     \<Longrightarrow> fst (import_observations sqlite_port lookup obs d) = fst (append_observations obs d)"
  "\<not> (\<forall>ob \<in> set obs. validate_observation sqlite_port lookup d ob = None)
     \<Longrightarrow> fst (import_observations sqlite_port lookup obs d) = d"
  by (auto simp: import_observations_def sqlite_port_def check_all_None_iff [symmetric]
      simp del: not_None_eq split: prod.split option.split)

text \<open>The handlers move through these states.\<close>

lemma handlers_reachable:
  assumes "service_reachable reg d"
  shows "service_reachable reg (h_store (import_agents_handler sqlite_port body d))"
    and "service_reachable reg (h_store (import_observations_handler ph sqlite_port (get_signal reg) body d))"
proof -
  have "h_store (import_agents_handler sqlite_port body d) = d
      \<or> (\<exists>as. h_store (import_agents_handler sqlite_port body d) = fst (import_agents sqlite_port as d))"
    by (auto simp: import_agents_handler_def split: sum.splits prod.splits option.splits) (metis fst_conv)+
  then show "service_reachable reg (h_store (import_agents_handler sqlite_port body d))"
    using assms service_agents by metis
  let ?h = "import_observations_handler ph sqlite_port (get_signal reg) body d"
  have "h_store ?h = d \<or> (\<exists>obs. h_store ?h = fst (import_observations sqlite_port (get_signal reg) obs d))"
    by (auto simp: import_observations_handler_def split: sum.splits prod.splits option.splits) (metis fst_conv)+
  then show "service_reachable reg (h_store ?h)" using assms service_observations by metis
qed

lemma service_store_reachable: "service_reachable reg d \<Longrightarrow> store_reachable d"
proof (induction rule: service_reachable.induct)
  case (service_agents d as)
  then show ?case by (simp add: import_agents_step store_reachable.upserted)
next
  case (service_observations d obs)
  then show ?case
    by (cases "\<forall>ob \<in> set obs. validate_observation sqlite_port (get_signal reg) d ob = None")
      (simp_all only: import_observations_step store_reachable.appended simp_thms)
qed (rule store_reachable.intros; assumption?)+

text \<open>A row that a registered, non-derived signal accepted.\<close>

definition row_accepted :: "registry \<Rightarrow> obs_row \<Rightarrow> bool" where
  "row_accepted reg r \<longleftrightarrow>
     (\<exists>sg. get_signal reg (or_signal r) = Some sg \<and> \<not> sig_derived sg \<and> sig_validate sg (or_value r) = None)"

lemma validated_row:
  "validate_observation sp (get_signal reg) d ob = None \<Longrightarrow> row_accepted reg ((row_of_obs ob)\<lparr>or_id := n\<rparr>)"
  by (auto simp: validate_observation_def row_accepted_def row_of_obs_def split: sum.splits option.splits if_splits)

lemma run_rows_obs:
  "run_rows append_observation obs d = Inr d' \<Longrightarrow> r \<in> set (db_obs d') \<Longrightarrow>
   r \<in> set (db_obs d) \<or> (\<exists>ob \<in> set obs. r = (row_of_obs ob)\<lparr>or_id := or_id r\<rparr>)"
proof (induction obs arbitrary: d)
  case (Cons ob obs)
  then obtain d1 where d1: "append_observation ob d = Inr d1" "run_rows append_observation obs d1 = Inr d'"
    by (auto split: sum.splits)
  have "set (db_obs d1) \<subseteq> insert ((row_of_obs ob)\<lparr>or_id := db_next_obs d\<rparr>) (set (db_obs d))"
    using d1(1) by (auto simp: append_observation_def insert_obs_def split: option.splits if_splits)
  with Cons.IH [OF d1(2) Cons.prems(2)] show ?case by auto
qed simp

lemma upsert_keeps_obs: "upsert_agent a d = Inr d' \<Longrightarrow> db_obs d' = db_obs d"
  by (auto simp: upsert_agent_def upsert_row_def split: option.splits if_splits)

lemma upserts_keep_obs: "db_obs (fst (upsert_agents as d)) = db_obs d"
proof -
  have "db_obs d' = db_obs d" if "run_rows upsert_agent as d = Inr d'" for d'
    using that
  proof (induction as arbitrary: d)
    case (Cons a as)
    then obtain d1 where "upsert_agent a d = Inr d1" "run_rows upsert_agent as d1 = Inr d'"
      by (auto split: sum.splits)
    with Cons.IH [of d1] upsert_keeps_obs [of a d d1] show ?case by simp
  qed simp
  note run = this
  show ?thesis
  proof (cases "run_rows upsert_agent as d")
    case (Inr d')
    from run [OF Inr] Inr show ?thesis by (simp add: upsert_agents_def in_transaction_def)
  qed (simp add: upsert_agents_def in_transaction_def)
qed

lemma service_rows_accepted: "service_reachable reg d \<Longrightarrow> r \<in> set (db_obs d) \<Longrightarrow> row_accepted reg r"
proof (induction arbitrary: r rule: service_reachable.induct)
  case service_fresh
  then show ?case by (simp add: empty_db_def)
next
  case (service_agents d as)
  then show ?case by (simp add: import_agents_step upserts_keep_obs)
next
  case (service_observations d obs)
  note step = import_observations_step [of obs "get_signal reg" d]
  show ?case
  proof (cases "\<forall>ob \<in> set obs. validate_observation sqlite_port (get_signal reg) d ob = None")
    case v: True
    show ?thesis
    proof (cases "run_rows append_observation obs d")
      case (Inr d')
      then have "append_observations obs d = (d', None)" by (simp add: append_observations_run)
      with v service_observations.prems have r: "r \<in> set (db_obs d')" using step(1) by simp
      from run_rows_obs [OF Inr r] show ?thesis
      proof (elim disjE bexE)
        fix ob assume ob: "ob \<in> set obs" "r = (row_of_obs ob)\<lparr>or_id := or_id r\<rparr>"
        have "row_accepted reg ((row_of_obs ob)\<lparr>or_id := or_id r\<rparr>)"
          by (rule validated_row) (use v ob(1) in blast)
        with ob(2) show ?thesis by simp
      qed (rule service_observations.IH)
    next
      case (Inl e)
      then have "fst (append_observations obs d) = d" by (auto simp: append_observations_def in_transaction_def)
      with v service_observations show ?thesis using step(1) by simp
    qed
  next
    case False
    with service_observations show ?thesis using step(2) by simp
  qed
next
  case (service_pruned d keep)
  then show ?case by (auto simp: prune_observations_def Let_def split: if_splits)
qed

section \<open>From the import service to the engine\<close>

text \<open>The engine's reader over the store.\<close>

definition store_reader :: "db \<Rightarrow> reader" where
  "store_reader d a s =
     (case latest_observation a s d of Inl e \<Rightarrow> Inl ''sqlitestore'' | Inr ob \<Rightarrow> Inr ob)"

lemma latest_in_rows:
  assumes "latest_observation a s d = Inr (Some ob)"
  shows "\<exists>r \<in> set (db_obs d). or_agent r = a \<and> or_signal r = s \<and> or_value r = o_value ob"
proof -
  from assms obtain r where r: "newest_row a s d = Some r" "read_row r = Inr ob"
    by (auto simp: latest_observation_row result_simps split: option.splits)
  then have "r \<in> set (db_obs d)" "of_pair a s r"
    using first_in_order_max [of "filter (of_pair a s) (db_obs d)" r] by (auto simp: newest_row_def)
  moreover have "or_value r = o_value ob" using r(2) by (auto simp: read_row_def result_simps)
  ultimately show ?thesis by (auto simp: of_pair_def)
qed

lemma reader_accepted:
  assumes "service_reachable reg d" and "registry_valid reg" and "sg \<in> set (all_signals reg)"
    and "store_reader d a (sig_id sg) = Inr (Some ob)"
  shows "sig_validate sg (o_value ob) = None"
proof -
  from assms(4) have "latest_observation a (sig_id sg) d = Inr (Some ob)"
    by (auto simp: store_reader_def split: sum.splits)
  then obtain r where r: "r \<in> set (db_obs d)" "or_signal r = sig_id sg" "or_value r = o_value ob"
    using latest_in_rows by blast
  from service_rows_accepted [OF assms(1) r(1)] obtain sg' where
    "get_signal reg (sig_id sg) = Some sg'" "sig_validate sg' (o_value ob) = None"
    by (auto simp: row_accepted_def r)
  moreover have "get_signal reg (sig_id sg) = Some sg"
    using reg.lookup_iff [OF assms(2), of "sig_id sg" sg] assms(3) by simp
  ultimately show ?thesis by simp
qed

text \<open>C29 In every state the import service reaches, evaluating any agent over signals
  that keep their contract gives each signal exactly the result of its Evaluate, never the
  degraded zero, and only well-formed risk codes.\<close>

theorem imported_never_degrade:
  assumes "service_reachable reg d" and "registry_valid reg"
    and "\<forall>sg \<in> set (all_signals reg). signal_contract sg"
    and "evaluate (store_reader d) reg th now a profile = Inr ev"
  shows "(\<forall>ds \<in> set (e_dimensions ev). \<forall>s \<in> set (d_signals ds).
            \<exists>sg \<in> set (all_signals reg). \<exists>obs r. store_reader d (a_id a) (sig_id sg) = Inr obs
              \<and> s_signal s = sig_id sg \<and> sig_evaluate sg a obs = Inr r
              \<and> s_raw s = r_raw r \<and> s_explanation s = r_explanation r)
    \<and> (\<forall>code \<in> set (e_risks ev). risk_code_ok code)"
  using assms(4,3) by (rule accepted_exact) (use reader_accepted [OF assms(1,2)] in blast)

text \<open>A concrete import: one agent, and a provider's verdict about it.\<close>

definition imported_db :: db where
  "imported_db =
     fst (import_observations sqlite_port (get_signal example_registry)
       [example_observation ''acme.safety.block'' ''{}''] example_log)"

lemma imported_db_reachable: "service_reachable example_registry imported_db"
proof -
  have "service_reachable example_registry (fst (import_agents sqlite_port [example_agent] empty_db))"
    by (rule service_agents [OF service_fresh])
  then have "service_reachable example_registry example_log"
    by (simp only: example_log_def import_agents_step)
  then show ?thesis unfolding imported_db_def by (rule service_observations)
qed

lemma example_registry_valid: "registry_valid example_registry"
  by (auto simp: registry_valid_def example_registry_def example_ids split: if_splits)

lemma imported_db_rows:
  "store_reader imported_db a s =
     Inr (if a = ''agent-1'' \<and> s = ''acme.safety.block'' then Some (example_observation s ''{}'') else None)"
proof -
  let ?ob = "example_observation ''acme.safety.block'' ''{}''"
  have "utf8_valid ''A2A''" "utf8_valid ''HTTP''" "four_digit_year 0" by code_simp+
  then have "storable_agent example_agent" by (simp add: storable_agent_def example_agent_def)
  then have "get_agent ''agent-1'' example_log = Inr (Some (stored_agent example_agent))"
    using scan_row_of_agent [of example_agent] example_log_rows(4)
    by (simp add: get_agent_def row_of_agent_def example_agent_def)
  then have v: "\<forall>ob \<in> set [?ob]. validate_observation sqlite_port (get_signal example_registry) example_log ob = None"
    by (auto simp: validate_observation_def sqlite_port_def example_observation_def get_signal_def
        example_registry_def example_block_def split: sum.splits option.splits)
  have "list_all (\<lambda>ob. o_agent ob = ''agent-1'') [?ob]" by (simp add: example_observation_def)
  then obtain d' where "append_observations [?ob] example_log = (d', None)" using example_log_appends by blast
  then have "append_observations [?ob] example_log = (imported_db, None)"
    unfolding imported_db_def import_observations_step(1) [OF v] by simp
  then have "run_rows append_observation [?ob] example_log = Inr imported_db"
    by (simp only: append_observations_run)
  moreover note e = example_log_rows(3)
  then have "rows_readable example_log" "latest_observation a s example_log = Inr None"
    by (simp_all add: rows_readable_def latest_observation_def)
  moreover have "list_all storable_observation [?ob]" by code_simp
  ultimately have "latest_observation a s imported_db
      = Inr (foldl keep_newest None (filter (\<lambda>ob. o_agent ob = a \<and> o_signal ob = s) [?ob]))"
    using reachable_valid [OF example_log_reachable] by (intro latest_after_batch)
  then show ?thesis
    by (auto simp: store_reader_def keep_newest_def example_observation_def stored_observation_def
        whole_seconds_def seconds_of_def)
qed

theorem imported_never_degrade_witness:
  "\<exists>ev. evaluate (store_reader imported_db) example_registry default_thresholds 0 example_agent example_profile = Inr ev
     \<and> (\<forall>code \<in> set (e_risks ev). risk_code_ok code)
     \<and> store_reader imported_db ''agent-1'' ''acme.safety.block''
         = Inr (Some (example_observation ''acme.safety.block'' ''{}''))"
proof -
  obtain ev where ev: "evaluate (store_reader imported_db) example_registry default_thresholds 0 example_agent example_profile = Inr ev"
    using evaluate_ex [of example_registry "store_reader imported_db" example_agent] imported_db_rows by blast
  have "\<forall>code \<in> set (e_risks ev). risk_code_ok code"
    using imported_never_degrade [OF imported_db_reachable example_registry_valid _ ev] example_contract by blast
  with ev show ?thesis by (simp add: imported_db_rows)
qed

section \<open>What the API answers\<close>

lemma check_status:
  "check_str_len l s n = Inl e \<Longrightarrow> we_status e = 400"
  "check_string_slice l vs = Inl e \<Longrightarrow> we_status e = 400"
  "parse_required_time l s = Inl e \<Longrightarrow> we_status e = 400"
  "check_evidence_url ph l s = Inl e \<Longrightarrow> we_status e = 400"
  "ensure b (err_invalid_request m) = Inl e \<Longrightarrow> we_status e = 400"
proof -
  have items: "check_slice_items l i vs = Inl e \<Longrightarrow> we_status e = 400" for i
    by (induction vs arbitrary: i) (auto simp: import_error_defs split: if_splits)
  then show "check_string_slice l vs = Inl e \<Longrightarrow> we_status e = 400"
    by (auto simp: check_string_slice_def import_error_defs split: if_splits)
qed (auto simp: check_str_len_def parse_required_time_def check_evidence_url_def ensure_def import_error_defs
    split: if_splits option.splits)

lemma agents_conversion_status:
  "try_bind (decode_body agents_request [] body) agents_to_domain = Inl e \<Longrightarrow> we_status e = 400"
proof -
  have one: "agent_to_domain d = Inl e \<Longrightarrow> we_status e = 400" for d e
    unfolding agent_to_domain_def try_bind_Inl_iff by (auto dest: check_status)
  have body: "decode_body dec z b = Inl e \<Longrightarrow> we_status e = 400" for dec :: "'r text_decoder" and z b e
    by (auto simp: decode_body_def import_error_defs split: option.splits)
  assume "try_bind (decode_body agents_request [] body) agents_to_domain = Inl e"
  then show ?thesis
    by (auto simp: try_bind_Inl_iff agents_to_domain_def collect_Inl_iff import_error_defs
        split: if_splits dest: one body)
qed

lemma observations_conversion_status:
  "try_bind (decode_body observations_request [] body) (observations_to_domain ph) = Inl e \<Longrightarrow> we_status e = 400"
proof -
  have prov: "provenance_to_domain ph p = Inl e \<Longrightarrow> we_status e = 400" for p e
    by (cases p) (auto simp: provenance_to_domain_def try_bind_Inl_iff dest: check_status)
  have one: "observation_to_domain ph d = Inl e \<Longrightarrow> we_status e = 400" for d e
    unfolding observation_to_domain_def try_bind_Inl_iff by (auto dest: check_status prov)
  have body: "decode_body dec z b = Inl e \<Longrightarrow> we_status e = 400" for dec :: "'r text_decoder" and z b e
    by (auto simp: decode_body_def import_error_defs split: option.splits)
  assume "try_bind (decode_body observations_request [] body) (observations_to_domain ph) = Inl e"
  then show ?thesis
    by (auto simp: try_bind_Inl_iff observations_to_domain_def collect_Inl_iff import_error_defs
        split: if_splits dest: one body)
qed

lemma write_problem_400: "we_status e = 400 \<Longrightarrow> rs_status (write_problem (Typed e)) = 400"
  using write_problem_typed [of e] by simp

lemma import_agents_accepted:
  assumes "agents_to_domain ds = Inr as"
  shows "\<exists>d'. upsert_agents as d = (d', None)"
proof -
  have "status_valid (a_status a)" if "a \<in> set as" for a
  proof -
    from assms have "collect agent_to_domain ds = Inr as" by (auto simp: agents_to_domain_def split: if_splits)
    from collect_set [OF this that] obtain x where "agent_to_domain x = Inr a" by blast
    then show ?thesis by (simp add: agent_to_domain_ok)
  qed
  then have "\<exists>d'. run_rows upsert_agent as d = Inr d'"
    by (intro run_rows_succeeds) (simp add: upsert_agent_iff(1))
  then show ?thesis by (auto simp: upsert_agents_def in_transaction_def)
qed

lemma agents_outcome:
  assumes h_def: "h = import_agents_handler sqlite_port body d"
  shows "rs_status (h_response h) = 400 \<and> h_store h = d \<and> h_accepted h = 0
    \<or> rs_status (h_response h) = 200
      \<and> (\<exists>as. try_bind (decode_body agents_request [] body) agents_to_domain = Inr as
           \<and> upsert_agents as d = (h_store h, None) \<and> h_accepted h = int (length as))"
proof (cases "try_bind (decode_body agents_request [] body) agents_to_domain")
  case (Inl e)
  then have "h = reject (Typed e) d" by (simp add: h_def import_agents_handler_def)
  moreover have "rs_status (write_problem (Typed e) :: import_ack response) = 400"
    by (rule write_problem_400) (rule agents_conversion_status [OF Inl])
  ultimately show ?thesis by (simp add: reject_def)
next
  case (Inr as)
  then obtain ds where "agents_to_domain ds = Inr as" by (auto simp: try_bind_Inr_iff)
  then obtain d' where d': "upsert_agents as d = (d', None)" using import_agents_accepted by blast
  then have "h = acknowledge as d'"
    using Inr by (simp add: h_def import_agents_handler_def import_agents_def sqlite_port_def)
  with Inr d' show ?thesis by simp
qed

text \<open>The agent import endpoint answers 400 and changes nothing, or answers 200,
  stores exactly the converted batch and reports its size; it never answers 500.\<close>

theorem agents_import_outcome:
  "let h = import_agents_handler sqlite_port body d in
    rs_status (h_response h) = 400 \<and> h_store h = d \<and> h_accepted h = 0
    \<or> rs_status (h_response h) = 200
      \<and> (\<exists>as. try_bind (decode_body agents_request [] body) agents_to_domain = Inr as
           \<and> upsert_agents as d = (h_store h, None) \<and> h_accepted h = int (length as))"
  unfolding Let_def by (rule agents_outcome [OF refl])

lemma validated_agent_row:
  "validate_observation sqlite_port lookup d ob = None \<Longrightarrow> \<exists>r \<in> set (db_agents d). ar_id r = o_agent ob"
  by (auto simp: validate_observation_def sqlite_port_def get_agent_def dest!: find_SomeD
      split: sum.splits option.splits)

lemma append_one_succeeds:
  assumes "\<exists>r \<in> set (db_agents d). ar_id r = o_agent ob"
  shows "\<exists>d'. append_observation ob d = Inr d'"
proof -
  have "list_ex (\<lambda>x. ar_id x = or_agent (row_of_obs ob)) (db_agents d)"
    using assms by (simp add: list_ex_iff row_of_obs_def)
  then show ?thesis by (simp add: append_observation_def insert_obs_def)
qed

lemma appends_succeed:
  "\<forall>ob \<in> set obs. \<exists>r \<in> set (db_agents d). ar_id r = o_agent ob \<Longrightarrow> \<exists>d'. run_rows append_observation obs d = Inr d'"
proof (induction obs arbitrary: d)
  case (Cons ob obs)
  obtain d1 where d1: "append_observation ob d = Inr d1"
    using append_one_succeeds [of d ob] Cons.prems by auto
  then have "db_agents d1 = db_agents d"
    by (auto simp: append_observation_def insert_obs_def split: if_splits)
  with Cons.IH [of d1] Cons.prems d1 show ?case by simp
qed simp

text \<open>What an observation needs to be imported: its agent is stored and can be read, and its signal is
  registered, takes imported observations and accepts the value.\<close>

definition importable :: "(signal_id \<Rightarrow> signal option) \<Rightarrow> db \<Rightarrow> observation \<Rightarrow> bool" where
  "importable lookup d ob \<longleftrightarrow>
     (\<exists>a. get_agent (o_agent ob) d = Inr (Some a))
     \<and> (\<exists>sg. lookup (o_signal ob) = Some sg \<and> \<not> sig_derived sg \<and> sig_validate sg (o_value ob) = None)"

lemma validate_importable:
  "validate_observation sqlite_port lookup d ob = None \<longleftrightarrow> importable lookup d ob"
  by (auto simp: validate_observation_def sqlite_port_def importable_def split: sum.splits option.splits)

lemma validate_refusal:
  assumes "validate_observation sqlite_port lookup d ob = Some e"
  shows "rs_status (write_problem e :: import_ack response)
    = (case get_agent (o_agent ob) d of Inl _ \<Rightarrow> 500 | Inr _ \<Rightarrow> 422)"
proof (cases e)
  case (Typed we)
  with assms have "we_status we = 422 \<and> (\<exists>x. get_agent (o_agent ob) d = Inr x)"
    by (auto simp: validate_observation_def sqlite_port_def import_error_defs split: sum.splits option.splits if_splits)
  then show ?thesis using Typed write_problem_typed [of we] by auto
next
  case (Internal m)
  with assms have "\<exists>x. get_agent (o_agent ob) d = Inl x"
    by (auto simp: validate_observation_def sqlite_port_def split: sum.splits option.splits if_splits)
  then show ?thesis using Internal by (auto simp: write_problem_def problem_for_def)
qed

lemma check_all_find: "check_all f xs = (case find (\<lambda>x. f x \<noteq> None) xs of None \<Rightarrow> None | Some x \<Rightarrow> f x)"
  by (induction xs) (auto split: option.splits)

lemma observations_outcome:
  assumes h_def: "h = import_observations_handler ph sqlite_port lookup body d"
  shows "case try_bind (decode_body observations_request [] body) (observations_to_domain ph) of
      Inl e \<Rightarrow> rs_status (h_response h) = 400 \<and> h_store h = d \<and> h_accepted h = 0
    | Inr obs \<Rightarrow>
        (case find (\<lambda>ob. \<not> importable lookup d ob) obs of
           None \<Rightarrow> rs_status (h_response h) = 200 \<and> append_observations obs d = (h_store h, None)
                   \<and> h_accepted h = int (length obs)
         | Some ob \<Rightarrow> rs_status (h_response h) = (case get_agent (o_agent ob) d of Inl _ \<Rightarrow> 500 | Inr _ \<Rightarrow> 422)
                   \<and> h_store h = d \<and> h_accepted h = 0)"
proof (cases "try_bind (decode_body observations_request [] body) (observations_to_domain ph)")
  case (Inl e)
  then have "h = reject (Typed e) d" by (simp add: h_def import_observations_handler_def)
  moreover have "rs_status (write_problem (Typed e) :: import_ack response) = 400"
    by (rule write_problem_400) (rule observations_conversion_status [OF Inl])
  ultimately show ?thesis using Inl by (simp add: reject_def)
next
  case (Inr obs)
  have check: "check_all (validate_observation sqlite_port lookup d) obs
      = (case find (\<lambda>ob. \<not> importable lookup d ob) obs of
           None \<Rightarrow> None | Some ob \<Rightarrow> validate_observation sqlite_port lookup d ob)"
    unfolding check_all_find validate_importable [symmetric] ..
  show ?thesis
  proof (cases "find (\<lambda>ob. \<not> importable lookup d ob) obs")
    case (Some ob)
    then have "\<not> importable lookup d ob" by (auto dest: find_SomeD)
    then obtain err where err: "validate_observation sqlite_port lookup d ob = Some err"
      by (auto simp flip: validate_importable)
    then have "h = reject err d"
      using Inr check Some by (simp add: h_def import_observations_handler_def import_observations_def)
    then show ?thesis using Inr Some validate_refusal [OF err] by (simp add: reject_def)
  next
    case None
    then have v: "\<forall>ob \<in> set obs. validate_observation sqlite_port lookup d ob = None"
      by (auto simp: find_None_iff validate_importable)
    then obtain d' where "run_rows append_observation obs d = Inr d'"
      using appends_succeed [of obs d] validated_agent_row by blast
    then have d': "append_observations obs d = (d', None)" by (simp add: append_observations_run)
    with None Inr check have "h = acknowledge obs d'"
      by (simp add: h_def import_observations_handler_def import_observations_def sqlite_port_def)
    with Inr d' None show ?thesis by simp
  qed
qed

text \<open>C28 The status of an observation import is determined: 400 if the body cannot be
  decoded or converted; otherwise 200 exactly if every observation names a stored, readable
  agent and a registered signal that is not derived and whose Validate accepts the value, and
  then the batch is stored and its size reported; otherwise, by the first observation that does
  not, 500 if its agent cannot be read back and 422 if it can. Unless it is 200 the store is
  unchanged.\<close>

theorem observations_import_outcome:
  "let h = import_observations_handler ph sqlite_port lookup body d in
    case try_bind (decode_body observations_request [] body) (observations_to_domain ph) of
      Inl e \<Rightarrow> rs_status (h_response h) = 400 \<and> h_store h = d \<and> h_accepted h = 0
    | Inr obs \<Rightarrow>
        (case find (\<lambda>ob. \<not> importable lookup d ob) obs of
           None \<Rightarrow> rs_status (h_response h) = 200 \<and> append_observations obs d = (h_store h, None)
                   \<and> h_accepted h = int (length obs)
         | Some ob \<Rightarrow> rs_status (h_response h) = (case get_agent (o_agent ob) d of Inl _ \<Rightarrow> 500 | Inr _ \<Rightarrow> 422)
                   \<and> h_store h = d \<and> h_accepted h = 0)"
  unfolding Let_def by (rule observations_outcome [OF refl])

text \<open>C30 An accepted evidence URL has the scheme http or https, a slash-slash, and an
  authority without userinfo that names a host: no javascript, file or credential-bearing URL
  gets in.\<close>

theorem evidence_url_safe:
  assumes "observation_to_domain ph dto = Inr ob" and "o_provenance ob = Some q" and "p_evidence_url q \<noteq> []"
  shows "\<exists>scheme authority rest. p_evidence_url q = scheme @ ''://'' @ authority @ rest
    \<and> map lower_byte scheme \<in> {''http'', ''https''} \<and> (\<exists>host. ph authority = Some host \<and> host \<noteq> [])
    \<and> CHR ''@'' \<notin> set authority \<and> CHR ''/'' \<notin> set authority
    \<and> (rest = [] \<or> hd rest \<in> {CHR ''/'', CHR ''?'', CHR ''#''})"
proof -
  from assms(1) have "provenance_to_domain ph (od_provenance dto) = Inr (Some q)"
    using assms(2) by (simp add: observation_to_domain_ok)
  then obtain u where u: "url_parse ph (p_evidence_url q) = Some u" "u_scheme u \<in> {''http'', ''https''}"
    "u_host u \<noteq> []" "\<not> u_has_user u"
    using assms(3) by (auto simp: provenance_to_domain_ok check_evidence_url_ok split: option.splits)
  then have "u_scheme u \<noteq> []" by auto
  from url_parse_absolute [OF u(1) this u(3)] obtain scheme authority rest
    where x: "p_evidence_url q = scheme @ ''://'' @ authority @ rest" "u_scheme u = map lower_byte scheme"
      "rest = [] \<or> hd rest \<in> {CHR ''/'', CHR ''?'', CHR ''#''}" "CHR ''/'' \<notin> set authority"
      "u_has_user u \<longleftrightarrow> CHR ''@'' \<in> set authority" "\<not> u_has_user u \<longrightarrow> ph authority = Some (u_host u)"
    by blast
  show ?thesis
    by (rule exI [of _ scheme], rule exI [of _ authority], rule exI [of _ rest]) (use x u in simp)
qed

definition example_provenance_dto :: observation_dto where
  "example_provenance_dto =
     \<lparr>od_agent = ''a'', od_signal = ''s'', od_observed_at = ''2025-01-02T03:04:05Z'', od_value = ''{}'',
      od_provenance = Some \<lparr>pd_aim_id = [], pd_evidence_url = ''https://e.io/x''\<rparr>\<rparr>"

theorem evidence_url_safe_witness:
  "\<exists>ob q. observation_to_domain Some example_provenance_dto = Inr ob \<and> o_provenance ob = Some q
     \<and> (\<exists>scheme authority rest. p_evidence_url q = scheme @ ''://'' @ authority @ rest
          \<and> map lower_byte scheme \<in> {''http'', ''https''})"
proof -
  obtain ob q where o: "observation_to_domain Some example_provenance_dto = Inr ob" "o_provenance ob = Some q"
    and q: "p_evidence_url q = ''https://e.io/x''"
  proof -
    have "case observation_to_domain Some example_provenance_dto of Inl _ \<Rightarrow> False
        | Inr ob \<Rightarrow> (case o_provenance ob of None \<Rightarrow> False | Some q \<Rightarrow> p_evidence_url q = ''https://e.io/x'')"
      by code_simp
    then show thesis using that by (auto split: sum.splits option.splits)
  qed
  then have "p_evidence_url q \<noteq> []" by simp
  from evidence_url_safe [OF o this] obtain scheme authority rest
    where "p_evidence_url q = scheme @ ''://'' @ authority @ rest" "map lower_byte scheme \<in> {''http'', ''https''}"
    by (elim exE conjE) (rule that)
  with o show ?thesis by (intro exI conjI)
qed

section \<open>Years that do not fit\<close>

lemma digits_value_bound: "list_all ascii_digit ds \<Longrightarrow> digits_value ds < 10 ^ length ds"
proof (induction ds rule: rev_induct)
  case (snoc c ds)
  then have "digits_value ds + 1 \<le> 10 ^ length ds" "digit_value c < 10"
    by (auto simp: digit_value_def ascii_digit_def)
  then show ?case by (simp add: digits_value_snoc)
qed simp

lemma itoa_long: "10 ^ k \<le> n \<Longrightarrow> k < length (itoa n)"
proof -
  assume "10 ^ k \<le> n"
  have "digits_value (itoa n) = int n" "digits_value (itoa n) < 10 ^ length (itoa n)"
    using itoa_digits [of n] digits_value_bound [of "itoa n"] by simp_all
  then have "int n < int (10 ^ length (itoa n))" by simp
  with \<open>10 ^ k \<le> n\<close> have "10 ^ k < (10 :: nat) ^ length (itoa n)" by linarith
  then show ?thesis by simp
qed

text \<open>A UTC year before 0 is written with a sign, one after 9999 with five digits: neither can be
  parsed.\<close>

lemma unparsable_year:
  assumes "\<not> four_digit_year t"
  shows "parse_time (format_time t) = Inl (BadTime (format_time t))"
proof -
  obtain y m d where c: "civil (seconds_of t div 86400) = (y, m, d)" by (metis prod_cases3)
  obtain rest where f: "format_time t = append_year y @ CHR ''-'' # rest"
    by (simp add: format_time_def format_rfc3339_def format_seconds_def c Let_def)
  have "parse_rfc3339 (append_year y @ CHR ''-'' # rest) = None"
  proof (cases "y < 0")
    case True
    then obtain s where "append_year y @ CHR ''-'' # rest = CHR ''-'' # s" by (simp add: append_year_def Let_def)
    then show ?thesis by (simp add: parse_rfc3339_def fixed_def ascii_digit_def)
  next
    case False
    with assms have y: "10000 \<le> nat y" by (simp add: four_digit_year_def c le_nat_iff)
    then have a: "append_year y = itoa (nat y)" using False by (simp add: append_year_def)
    have "4 < length (itoa (nat y))" using itoa_long [of 4 "nat y"] y by simp
    then have "itoa (nat y) = take 4 (itoa (nat y)) @ itoa (nat y) ! 4 # drop 5 (itoa (nat y))"
      by (metis Cons_nth_drop_Suc append_take_drop_id eval_nat_numeral(3))
    then obtain p x q where i: "itoa (nat y) = p @ x # q" "length p = 4"
      using \<open>4 < length (itoa (nat y))\<close> by (metis length_take min.absorb4)
    have "ascii_digit x" using itoa_digits [of "nat y"] by (simp add: i(1))
    then have "x \<noteq> CHR ''-''" by (auto simp: ascii_digit_def)
    then have "expect (CHR ''-'') (drop 4 (append_year y @ CHR ''-'' # rest)) = None" by (simp add: a i)
    then show ?thesis by (auto simp: parse_rfc3339_def fixed_def Option.bind_eq_None_conv)
  qed
  then show ?thesis by (simp add: parse_time_def f)
qed

lemma unreadable_row:
  assumes "\<not> four_digit_year (a_first_seen a) \<or> \<not> four_digit_year (a_last_updated a)"
  shows "\<exists>e. scan_agent (row_of_agent a) = Inl e"
proof (cases "scan_agent (row_of_agent a)")
  case (Inr x)
  then obtain t1 t2 where "parse_time (format_time (a_first_seen a)) = Inr t1"
      "parse_time (format_time (a_last_updated a)) = Inr t2"
    by (auto simp: scan_agent_def try_bind_Inr_iff row_of_agent_def)
  with assms show ?thesis by (auto simp: unparsable_year)
qed simp

lemma upsert_one:
  assumes "status_valid (a_status a)"
  obtains d' where "upsert_agents [a] d = (d', None)"
    and "get_agent (a_id a) d' = (case scan_agent (row_of_agent a) of
           Inl e \<Rightarrow> Inl (GetFailed (a_id a) e) | Inr x \<Rightarrow> Inr (Some x))"
proof -
  have "\<exists>d'. run_rows upsert_agent [a] d = Inr d'"
    by (intro run_rows_succeeds) (use assms in \<open>simp add: upsert_agent_iff(1)\<close>)
  then obtain d' where r: "run_rows upsert_agent [a] d = Inr d'" by blast
  then have "upsert_agents [a] d = (d', None)" by (simp add: upsert_agents_def in_transaction_def)
  moreover have "row_at (a_id a) d' = Some (row_of_agent a)" using row_at_upserts [OF r, of "a_id a"] by simp
  ultimately show thesis by (intro that [of d']) (simp_all add: get_agent_row)
qed

text \<open>C31 An agent that passes all checks of the import and whose firstSeen or lastUpdated
  falls in a UTC year that is not 0..9999 (RFC 3339 reaches such years through the zone offset)
  is stored in any state of the store, but GetAgent then fails and every observation that names
  it is refused as an internal error; importing the id again with four-digit UTC years and UTF-8
  lists makes it readable.\<close>

theorem far_future_unreadable:
  assumes "agent_to_domain dto = Inr a"
    and "\<not> four_digit_year (a_first_seen a) \<or> \<not> four_digit_year (a_last_updated a)"
  shows "\<exists>d'. upsert_agents [a] d = (d', None)
    \<and> (\<exists>e. get_agent (a_id a) d' = Inl (GetFailed (a_id a) e))
    \<and> (\<forall>lookup ob. o_agent ob = a_id a \<longrightarrow> (\<exists>m. validate_observation sqlite_port lookup d' ob = Some (Internal m)))
    \<and> (\<forall>b. a_id b = a_id a \<and> status_valid (a_status b) \<and> storable_agent b \<longrightarrow>
         (\<exists>d''. upsert_agents [b] d' = (d'', None) \<and> get_agent (a_id a) d'' = Inr (Some (stored_agent b))))"
proof -
  have "status_valid (a_status a)" using assms(1) by (simp add: agent_to_domain_ok)
  then obtain d' where d': "upsert_agents [a] d = (d', None)"
      "get_agent (a_id a) d' = (case scan_agent (row_of_agent a) of
         Inl e \<Rightarrow> Inl (GetFailed (a_id a) e) | Inr x \<Rightarrow> Inr (Some x))"
    by (rule upsert_one)
  obtain e where e: "get_agent (a_id a) d' = Inl (GetFailed (a_id a) e)"
    using d'(2) unreadable_row [OF assms(2)] by auto
  have again: "\<exists>d''. upsert_agents [b] d' = (d'', None) \<and> get_agent (a_id a) d'' = Inr (Some (stored_agent b))"
    if b: "a_id b = a_id a \<and> status_valid (a_status b) \<and> storable_agent b" for b
  proof -
    obtain d'' where "upsert_agents [b] d' = (d'', None)"
        "get_agent (a_id b) d'' = (case scan_agent (row_of_agent b) of
           Inl e \<Rightarrow> Inl (GetFailed (a_id b) e) | Inr x \<Rightarrow> Inr (Some x))"
      using b upsert_one [of b d'] by blast
    with b show ?thesis by (auto simp: scan_row_of_agent)
  qed
  have "\<exists>m. validate_observation sqlite_port lookup d' ob = Some (Internal m)" if "o_agent ob = a_id a" for lookup ob
    using e that by (simp add: validate_observation_def sqlite_port_def)
  with d'(1) e again show ?thesis by blast
qed

text \<open>A timestamp whose UTC year has five digits.\<close>

definition far_future_dto :: agent_dto where
  "far_future_dto =
     zero_agent_dto\<lparr>ad_id := ''a'', ad_dns_name := ''d'', ad_display_name := ''n'', ad_status := ''ACTIVE'',
       ad_first_seen := ''2025-01-02T03:04:05Z'', ad_last_updated := ''9999-12-31T23:59:59-01:00''\<rparr>"

theorem far_future_unreadable_witness:
  "\<exists>a d e. agent_to_domain far_future_dto = Inr a \<and> upsert_agents [a] empty_db = (d, None)
     \<and> get_agent ''a'' d = Inl (GetFailed ''a'' e)"
proof -
  let ?t1 = "1735787045000000000" and ?t2 = "253402304399000000000"
  have t: "parse_rfc3339 ''2025-01-02T03:04:05Z'' = Some ?t1"
    "parse_rfc3339 ''9999-12-31T23:59:59-01:00'' = Some ?t2"
    by code_simp+
  have "civil 2932897 = (10000, 1, 1)"
    by (rule civil_eqI; simp add: valid_date_def days_in_month_def day_number_def days_before_year_def unix_epoch_day_def)
  then have far: "\<not> four_digit_year ?t2" by (simp add: four_digit_year_def seconds_of_def)
  obtain a where a: "agent_to_domain far_future_dto = Inr a" "a_last_updated a = ?t2" "a_id a = ''a''"
  proof
    show "agent_to_domain far_future_dto = Inr \<lparr>a_id = ''a'', a_dns_name = ''d'', a_display_name = ''n'', a_description = [],
        a_provider = [], a_status = ''ACTIVE'', a_protocols = [], a_transports = [], a_tags = [],
        a_capabilities = [], a_first_seen = ?t1, a_last_updated = ?t2\<rparr>"
      unfolding agent_to_domain_ok
      by (simp add: far_future_dto_def zero_agent_dto_def cap_defs byte_len_def status_valid_def status_defs t)
  qed simp_all
  from far_future_unreadable [OF a(1), of empty_db] far a show ?thesis by auto
qed

end
