(* ===== verification/Config.thy ===== *)
theory Config
  imports Classify
begin

text \<open>
  The runtime configuration (\<open>internal/config/config.go\<close>): defaults, the environment override of
  the admin key, the resolution of a relative signals path against the configuration file, and the
  check of the classification thresholds.  The YAML decoder is an argument.
\<close>

section \<open>Paths (path/filepath on Unix)\<close>

fun split_at :: "char \<Rightarrow> string \<Rightarrow> string \<Rightarrow> string list" where
  "split_at c acc [] = [rev acc]"
| "split_at c acc (x # s) = (if x = c then rev acc # split_at c [] s else split_at c (x # acc) s)"

definition path_rooted :: "string \<Rightarrow> bool" where
  "path_rooted p = has_prefix p ''/''"

text \<open>The elements of a cleaned path, innermost first.\<close>

fun clean_elems :: "bool \<Rightarrow> string list \<Rightarrow> string list \<Rightarrow> string list" where
  "clean_elems rooted stack [] = stack"
| "clean_elems rooted stack (e # es) =
     (if e = [] \<or> e = ''.'' then clean_elems rooted stack es
      else if e = ''..'' then
        (case stack of
           [] \<Rightarrow> clean_elems rooted (if rooted then [] else [e]) es
         | e1 # below \<Rightarrow> clean_elems rooted (if e1 = ''..'' then e # stack else below) es)
      else clean_elems rooted (e # stack) es)"

fun join_slash :: "string list \<Rightarrow> string" where
  "join_slash [] = []"
| "join_slash [e] = e"
| "join_slash (e # es) = e @ ''/'' @ join_slash es"

definition path_clean :: "string \<Rightarrow> string" where
  "path_clean p =
     (let body = join_slash (rev (clean_elems (path_rooted p) [] (split_at (CHR ''/'') [] p)))
      in if path_rooted p then ''/'' @ body else if body = [] then ''.'' else body)"

definition path_dir :: "string \<Rightarrow> string" where
  "path_dir p =
     (case split_last (CHR ''/'') p of None \<Rightarrow> ''.'' | Some (d, _) \<Rightarrow> path_clean (d @ ''/''))"

text \<open>Joining two non-empty elements.\<close>

definition path_join :: "string \<Rightarrow> string \<Rightarrow> string" where
  "path_join d p = path_clean (d @ ''/'' @ p)"

section \<open>The configuration\<close>

record classify_config =
  cc_untrusted :: int
  cc_transactional :: int
  cc_fiduciary :: int
  cc_identity_fiduciary :: int

record config =
  cf_listen_addr :: string
  cf_db_path :: string
  cf_require_key :: bool
  cf_admin_key :: string
  cf_log_level :: string
  cf_classify :: classify_config
  cf_signals_path :: string

definition default_classify :: classify_config where
  "default_classify =
     \<lparr>cc_untrusted = 20, cc_transactional = 50, cc_fiduciary = 80, cc_identity_fiduciary = 90\<rparr>"

record yaml_config =
  yc_listen_addr :: string
  yc_db_path :: string
  yc_require_key :: "bool option"
  yc_admin_key :: string
  yc_log_level :: string
  yc_signals_path :: string
  yc_classify :: "classify_config option"

definition or_default :: "string \<Rightarrow> string \<Rightarrow> string" where
  "or_default v d = (if v = [] then d else v)"

fun validate_steps :: "int \<Rightarrow> (string \<times> int) list \<Rightarrow> message option" where
  "validate_steps prev [] = None"
| "validate_steps prev ((name, v) # steps) =
     (if v \<le> 0 \<or> v > 100
      then Some [Lit ''classify.'', Lit name, Lit '' = '', Num v,
        Lit '', must be in (0,100] (a partial classify block zero-fills omitted thresholds)'']
      else if v \<le> prev
      then Some [Lit ''classify.'', Lit name, Lit '' = '', Num v,
        Lit '' must be strictly greater than the preceding threshold ('', Num prev,
        Lit ''); thresholds must ascend'']
      else validate_steps v steps)"

definition validate_classify :: "classify_config \<Rightarrow> message option" where
  "validate_classify c =
     validate_steps 0
       [(''untrustedThreshold'', cc_untrusted c), (''transactionalThreshold'', cc_transactional c),
        (''fiduciaryThreshold'', cc_fiduciary c), (''identityFiduciaryThreshold'', cc_identity_fiduciary c)]"

text \<open>\<open>Load\<close>: the file, the decoder and the value of \<open>ANS_ADMIN_KEY\<close>, if it is set.\<close>

definition load_config ::
  "(string \<Rightarrow> (string, string) result) \<Rightarrow> (string \<Rightarrow> (string, yaml_config) result) \<Rightarrow> string option
     \<Rightarrow> string \<Rightarrow> (message, config) result" where
  "load_config read_file decode env_key path =
     (case read_file path of
        Inl err \<Rightarrow> Inl [Lit ''config: read '', Lit path, Lit '': '', Cause err]
      | Inr b \<Rightarrow>
     (case decode b of
        Inl err \<Rightarrow> Inl [Lit ''config: parse '', Lit path, Lit '': '', Cause err]
      | Inr yc \<Rightarrow>
          (let c = \<lparr>cf_listen_addr = or_default (yc_listen_addr yc) '':8080'',
                    cf_db_path = or_default (yc_db_path yc) ''agent-trust-discovery.db'',
                    cf_require_key = (yc_require_key yc = None \<or> yc_require_key yc = Some True),
                    cf_admin_key = (case env_key of Some v \<Rightarrow> v | None \<Rightarrow> yc_admin_key yc),
                    cf_log_level = or_default (yc_log_level yc) ''info'',
                    cf_classify = default_classify,
                    cf_signals_path =
                      (if yc_signals_path yc \<noteq> [] \<and> \<not> path_rooted (yc_signals_path yc)
                       then path_join (path_dir path) (yc_signals_path yc) else yc_signals_path yc)\<rparr>
           in case yc_classify yc of
                None \<Rightarrow> Inr c
              | Some cl \<Rightarrow>
                  (case validate_classify cl of
                     Some err \<Rightarrow> Inl ([Lit ''config: '', Lit path, Lit '': ''] @ err)
                   | None \<Rightarrow> Inr (c\<lparr>cf_classify := cl\<rparr>)))))"

datatype slog_level = LevelDebug | LevelInfo | LevelWarn | LevelError

definition ascii_lower_text :: "string \<Rightarrow> string" where
  "ascii_lower_text s = map (\<lambda>c. if ascii_upper c then char_of (ord c + 32) else c) s"

text \<open>The four names are ASCII, and no other character folds to one of their letters except the
  Kelvin sign, which is no letter of theirs.\<close>

definition slog_level :: "config \<Rightarrow> slog_level" where
  "slog_level c =
     (let l = ascii_lower_text (cf_log_level c)
      in if l = ''debug'' then LevelDebug else if l = ''warn'' then LevelWarn
         else if l = ''error'' then LevelError else LevelInfo)"

section \<open>Properties\<close>

definition ascending :: "classify_config \<Rightarrow> bool" where
  "ascending c \<longleftrightarrow>
     0 < cc_untrusted c \<and> cc_untrusted c < cc_transactional c \<and> cc_transactional c < cc_fiduciary c
     \<and> cc_fiduciary c < cc_identity_fiduciary c \<and> cc_identity_fiduciary c \<le> 100"

lemma validate_classify_iff: "validate_classify c = None \<longleftrightarrow> ascending c"
  by (auto simp: validate_classify_def ascending_def)

lemma load_config_ascending:
  assumes "load_config read_file decode env path = Inr c"
  shows "ascending (cf_classify c)"
proof -
  have "ascending default_classify" by (simp add: ascending_def default_classify_def)
  with assms show ?thesis
    by (auto simp: load_config_def Let_def validate_classify_iff split: sum.splits option.splits)
qed

text \<open>The only way to an unauthenticated server is an explicit \<open>requireKey: false\<close>.\<close>

lemma load_config_require_key:
  assumes "load_config read_file decode env path = Inr c"
  shows "\<exists>b yc. read_file path = Inr b \<and> decode b = Inr yc
    \<and> (cf_require_key c \<longleftrightarrow> yc_require_key yc \<noteq> Some False)
    \<and> cf_admin_key c = (case env of Some v \<Rightarrow> v | None \<Rightarrow> yc_admin_key yc)"
proof -
  have flag: "r = None \<or> r = Some True \<longleftrightarrow> r \<noteq> Some False" for r :: "bool option" by (cases r) auto
  from assms show ?thesis
    by (auto simp: load_config_def Let_def flag split: sum.splits option.splits)
qed

end
