(* ===== verification/Profiles.thy ===== *)
theory Profiles
  imports EngineFacts
begin

text \<open>
  Loading and validating scoring profiles (\<open>profile.go\<close>).  The YAML decoder and the file
  system are arguments.  The weights of a decoded file are the entries of a Go map in the order in
  which the loop meets them, with distinct keys.
\<close>

record profile_file =
  pf_name :: string
  pf_dimension_weights :: "(string \<times> f64) list"
  pf_signal_weights :: "(string \<times> f64) list"

text \<open>The checks of the two loops.\<close>

definition check_dimension_weight :: "string \<Rightarrow> string \<times> f64 \<Rightarrow> message option" where
  "check_dimension_weight name kv =
     (case kv of (k, v) \<Rightarrow>
        if \<not> dimension_valid k
        then Some [Lit ''profile '', Quoted name, Lit '': unknown dimension '', Quoted k]
        else if \<not> f64_eq v (Fin 0) \<and> \<not> f64_eq v (Fin 1)
        then Some [Lit ''profile '', Quoted name, Lit '': dimension '', Quoted k, Lit '' weight '',
                   Cause ''value'', Lit '': v1 supports only 0 or 1 (magnitude is reserved for a future cross-dimension aggregate)'']
        else None)"

definition check_signal_weight :: "string \<Rightarrow> string \<times> f64 \<Rightarrow> message option" where
  "check_signal_weight name kv =
     (case kv of (k, v) \<Rightarrow>
        if f64_less v (Fin 0)
        then Some [Lit ''profile '', Quoted name, Lit '': signal '', Quoted k, Lit '' weight '',
                   Cause ''value'', Lit '' must be >= 0'']
        else None)"

type_synonym file_reader = "string \<Rightarrow> (string, string) result"

definition load_profile ::
  "file_reader \<Rightarrow> (string \<Rightarrow> (string, profile_file) result) \<Rightarrow> string
     \<Rightarrow> (message, scoring_profile) result" where
  "load_profile read_file decode path =
     (case read_file path of
        Inl err \<Rightarrow> Inl [Lit ''profile: read '', Lit path, Lit '': '', Cause err]
      | Inr b \<Rightarrow>
     (case decode b of
        Inl err \<Rightarrow> Inl [Lit ''profile: parse '', Lit path, Lit '': '', Cause err]
      | Inr pf \<Rightarrow>
     (if pf_name pf = [] then Inl [Lit ''profile '', Lit path, Lit '': name is required'']
      else
     (case check_all (check_dimension_weight (pf_name pf)) (pf_dimension_weights pf) of
        Some err \<Rightarrow> Inl err
      | None \<Rightarrow>
     (case check_all (check_signal_weight (pf_name pf)) (pf_signal_weights pf) of
        Some err \<Rightarrow> Inl err
      | None \<Rightarrow> Inr \<lparr>sp_name = pf_name pf, sp_dimension_weights = map_of (pf_dimension_weights pf),
                     sp_signal_weights = map_of (pf_signal_weights pf)\<rparr>)))))"

text \<open>A directory entry: its name and whether it is a directory.\<close>

type_synonym dir_entry = "string \<times> bool"

text \<open>The profiles loaded so far, in load order; their names are the keys of the Go map.\<close>

fun load_dir_profiles ::
  "(string \<Rightarrow> (message, scoring_profile) result) \<Rightarrow> (string \<Rightarrow> string) \<Rightarrow> dir_entry list
     \<Rightarrow> scoring_profile list \<Rightarrow> (message, scoring_profile list) result" where
  "load_dir_profiles load join [] out = Inr out"
| "load_dir_profiles load join ((name, is_dir) # es) out =
     (if is_dir \<or> \<not> has_suffix name ''.yaml'' then load_dir_profiles load join es out
      else case load (join name) of
        Inl err \<Rightarrow> Inl err
      | Inr p \<Rightarrow>
          (if sp_name p \<in> sp_name ` set out
           then Inl [Lit ''profile: duplicate profile name '', Quoted (sp_name p)]
           else load_dir_profiles load join es (out @ [p])))"

definition load_profiles ::
  "file_reader \<Rightarrow> (string \<Rightarrow> (string, profile_file) result) \<Rightarrow> (string \<Rightarrow> string \<Rightarrow> string)
     \<Rightarrow> (string \<Rightarrow> (string, dir_entry list) result) \<Rightarrow> string \<Rightarrow> string
     \<Rightarrow> (message, scoring_profile list) result" where
  "load_profiles read_file decode join read_dir default_path dir =
     (case load_profile read_file decode default_path of
        Inl err \<Rightarrow> Inl err
      | Inr def \<Rightarrow>
          (if dir = [] then Inr [def]
           else case read_dir dir of
             Inl err \<Rightarrow> Inl [Lit ''profile: read dir '', Lit dir, Lit '': '', Cause err]
           | Inr entries \<Rightarrow>
               load_dir_profiles (load_profile read_file decode) (join dir) entries [def]))"

text \<open>\<open>ValidateSignalWeights\<close>; \<open>ids\<close> are the weighted ids in iteration order.\<close>

definition validate_signal_weights ::
  "string \<Rightarrow> signal_id list \<Rightarrow> (signal_id \<Rightarrow> bool) \<Rightarrow> message option" where
  "validate_signal_weights name ids known =
     check_all (\<lambda>i. if \<not> known i
                    then Some [Lit ''profile '', Quoted name, Lit '': unknown signal '', Quoted i]
                    else None) ids"

section \<open>Lemmas\<close>

lemma f64_eq_Fin [simp]: "f64_eq v (Fin q) \<longleftrightarrow> v = Fin q"
  by (cases v) auto

lemma load_profile_Inr:
  assumes "load_profile read_file decode path = Inr p"
  obtains pf :: profile_file where "sp_name p = pf_name pf" and "pf_name pf \<noteq> []"
    and "sp_dimension_weights p = map_of (pf_dimension_weights pf)"
    and "sp_signal_weights p = map_of (pf_signal_weights pf)"
    and "\<forall>kv \<in> set (pf_dimension_weights pf). check_dimension_weight (pf_name pf) kv = None"
    and "\<forall>kv \<in> set (pf_signal_weights pf). check_signal_weight (pf_name pf) kv = None"
proof -
  from assms obtain b pf where "read_file path = Inr b" "decode b = Inr pf" "pf_name pf \<noteq> []"
    and "\<forall>kv \<in> set (pf_dimension_weights pf). check_dimension_weight (pf_name pf) kv = None"
    and "\<forall>kv \<in> set (pf_signal_weights pf). check_signal_weight (pf_name pf) kv = None"
    by (auto simp: load_profile_def check_all_None_iff split: sum.splits if_splits option.splits)
  moreover from this assms have "p = \<lparr>sp_name = pf_name pf,
      sp_dimension_weights = map_of (pf_dimension_weights pf),
      sp_signal_weights = map_of (pf_signal_weights pf)\<rparr>"
    by (simp add: load_profile_def check_all_None_iff [THEN iffD2] split: option.splits)
  ultimately show thesis by (intro that [of pf]) simp_all
qed

lemma load_dir_profiles_names:
  "load_dir_profiles load join es out = Inr ps \<Longrightarrow> distinct (map sp_name out) \<Longrightarrow>
     distinct (map sp_name ps) \<and> (\<exists>qs. ps = out @ qs)"
proof (induction load join es out rule: load_dir_profiles.induct)
  case (2 load join name is_dir es out)
  then show ?case by (auto split: if_splits sum.splits)
qed simp

section \<open>Properties\<close>

text \<open>C19 A loaded scoring profile has a name, only known dimensions with weight 0 or 1,
  and no negative signal weight.\<close>

theorem load_profile_valid:
  assumes "load_profile read_file decode path = Inr p"
  shows "sp_name p \<noteq> []
    \<and> (\<forall>d w. sp_dimension_weights p d = Some w \<longrightarrow> d \<in> set all_dimensions \<and> w \<in> {Fin 0, Fin 1})
    \<and> (\<forall>i w. sp_signal_weights p i = Some w \<longrightarrow> \<not> f64_less w (Fin 0))"
proof -
  obtain pf :: profile_file where pf: "sp_name p = pf_name pf" "pf_name pf \<noteq> []"
    "sp_dimension_weights p = map_of (pf_dimension_weights pf)"
    "sp_signal_weights p = map_of (pf_signal_weights pf)"
    and ok: "\<forall>kv \<in> set (pf_dimension_weights pf). check_dimension_weight (pf_name pf) kv = None"
      "\<forall>kv \<in> set (pf_signal_weights pf). check_signal_weight (pf_name pf) kv = None"
    by (rule load_profile_Inr [OF assms])
  have "d \<in> set all_dimensions \<and> w \<in> {Fin 0, Fin 1}" if "sp_dimension_weights p d = Some w" for d w
  proof -
    from that pf have "(d, w) \<in> set (pf_dimension_weights pf)" by (simp add: map_of_SomeD)
    with ok have "check_dimension_weight (pf_name pf) (d, w) = None" by blast
    then show ?thesis
      unfolding check_dimension_weight_def prod.case f64_eq_Fin
      by (auto simp: dimension_valid_iff split: if_splits)
  qed
  moreover have "\<not> f64_less w (Fin 0)" if "sp_signal_weights p i = Some w" for i w
  proof -
    from that pf have "(i, w) \<in> set (pf_signal_weights pf)" by (simp add: map_of_SomeD)
    with ok have "check_signal_weight (pf_name pf) (i, w) = None" by blast
    then show ?thesis unfolding check_signal_weight_def prod.case by (auto split: if_splits)
  qed
  ultimately show ?thesis using pf by simp
qed

definition example_profile_file :: "f64 \<Rightarrow> profile_file" where
  "example_profile_file w =
     \<lparr>pf_name = ''custom'', pf_dimension_weights = [(''integrity'', Fin 1), (''safety'', Fin 0)],
      pf_signal_weights = [(''dnssecurity'', w)]\<rparr>"

theorem load_profile_valid_witness:
  "\<exists>p. load_profile (\<lambda>_. Inr []) (\<lambda>_. Inr (example_profile_file (Fin 1))) ''p.yaml'' = Inr p
     \<and> sp_name p \<noteq> []"
proof -
  let ?l = "load_profile (\<lambda>_. Inr []) (\<lambda>_. Inr (example_profile_file (Fin 1))) ''p.yaml''"
  obtain p where p: "?l = Inr p"
    by (simp add: load_profile_def example_profile_file_def check_dimension_weight_def
        check_signal_weight_def dimension_valid_iff all_dimensions_def dimension_defs)
  with load_profile_valid [OF p] show ?thesis by blast
qed

text \<open>The loaded profiles start with the default profile and have distinct
  names.\<close>

theorem load_profiles_distinct:
  assumes "load_profiles read_file decode join read_dir default_path dir = Inr ps"
  shows "distinct (map sp_name ps) \<and> ps \<noteq> []
    \<and> load_profile read_file decode default_path = Inr (hd ps)"
  using assms load_dir_profiles_names
  by (fastforce simp: load_profiles_def split: sum.splits if_splits)

theorem load_profiles_distinct_witness:
  "\<exists>ps. load_profiles (\<lambda>_. Inr []) (\<lambda>_. Inr (example_profile_file (Fin 1))) (\<lambda>d n. d @ ''/'' @ n)
     (\<lambda>_. Inr [(''README.md'', False), (''old.yaml'', True)]) ''default.yaml'' ''profiles'' = Inr ps
     \<and> length ps = 1 \<and> distinct (map sp_name ps)"
proof -
  let ?l = "load_profiles (\<lambda>_. Inr []) (\<lambda>_. Inr (example_profile_file (Fin 1))) (\<lambda>d n. d @ ''/'' @ n)
     (\<lambda>_. Inr [(''README.md'', False), (''old.yaml'', True)]) ''default.yaml'' ''profiles''"
  obtain p where p: "?l = Inr [p]"
    by (simp add: load_profiles_def load_profile_def example_profile_file_def check_dimension_weight_def
        check_signal_weight_def dimension_valid_iff all_dimensions_def dimension_defs go_defs)
  with load_profiles_distinct [OF p] show ?thesis by auto
qed

section \<open>An infinite weight\<close>

lemma f64_of_rat_nonneg: "0 \<le> q \<Longrightarrow> f64_of_rat q = PInf \<or> (\<exists>v. f64_of_rat q = Fin v \<and> 0 \<le> v)"
  using rne_value_nonneg [of q] by (auto simp: f64_of_rat_def Let_def)

text \<open>The two running sums over non-negative scores: the weights add up to a non-negative number or
  to infinity, the weighted scores also to a NaN; once infinite, they stay so.\<close>

definition sums_nonneg :: "f64 \<times> f64 \<Rightarrow> bool" where
  "sums_nonneg nw \<longleftrightarrow>
     (case nw of (n, w) \<Rightarrow>
        (n \<in> {PInf, NaN} \<or> (\<exists>q. n = Fin q \<and> 0 \<le> q)) \<and> (w = PInf \<or> (\<exists>q. w = Fin q \<and> 0 \<le> q)))"

definition sums_infinite :: "f64 \<times> f64 \<Rightarrow> bool" where
  "sums_infinite nw \<longleftrightarrow> fst nw \<in> {PInf, NaN} \<and> snd nw = PInf"

lemma positive_weight_cases:
  "positive_weight w \<Longrightarrow> w = PInf \<or> (\<exists>q. w = Fin q \<and> 0 < q)"
  by (cases w) auto

lemma term_ok:
  assumes "0 \<le> raw" and "raw \<le> 100" and "positive_weight w"
  shows "f64_mul (f64_of_int raw) w \<in> {PInf, NaN}
    \<or> (\<exists>q. f64_mul (f64_of_int raw) w = Fin q \<and> 0 \<le> q \<and> w \<noteq> PInf)"
proof -
  have "f64_of_int raw = Fin (of_int raw)" using assms(1,2) by (simp add: f64_of_int_def f64_of_rat_int)
  then show ?thesis
    using assms(1) positive_weight_cases [OF assms(3)] f64_of_rat_nonneg
    by (auto split: if_splits) (metis mult_nonneg_nonneg of_int_0_le_iff order_less_imp_le)
qed

lemma add_nonneg:
  assumes "x \<in> {PInf, NaN} \<or> (\<exists>q. x = Fin q \<and> 0 \<le> q)" and "y \<in> {PInf, NaN} \<or> (\<exists>q. y = Fin q \<and> 0 \<le> q)"
  shows "f64_add x y \<in> {PInf, NaN} \<or> (\<exists>q. f64_add x y = Fin q \<and> 0 \<le> q)"
    and "x \<in> {PInf, NaN} \<or> y \<in> {PInf, NaN} \<Longrightarrow> f64_add x y \<in> {PInf, NaN}"
    and "x \<noteq> NaN \<Longrightarrow> y \<noteq> NaN \<Longrightarrow> f64_add x y \<noteq> NaN"
proof -
  have "f64_of_rat (p + q) = PInf \<or> (\<exists>v. f64_of_rat (p + q) = Fin v \<and> 0 \<le> v)" if "0 \<le> p" "0 \<le> q" for p q
    using that by (intro f64_of_rat_nonneg) simp
  then show "f64_add x y \<in> {PInf, NaN} \<or> (\<exists>q. f64_add x y = Fin q \<and> 0 \<le> q)"
    "x \<noteq> NaN \<Longrightarrow> y \<noteq> NaN \<Longrightarrow> f64_add x y \<noteq> NaN"
    using assms by (auto, metis f64.distinct f64.inject)+
  show "x \<in> {PInf, NaN} \<or> y \<in> {PInf, NaN} \<Longrightarrow> f64_add x y \<in> {PInf, NaN}"
    using assms by auto
qed

lemma infinite_sums:
  assumes "\<forall>s \<in> set ss. 0 \<le> s_raw s \<and> s_raw s \<le> 100" and "sums_nonneg acc"
    and "sums_infinite acc \<or> (\<exists>s \<in> set ss. s_weight s = PInf)"
  shows "sums_infinite (weighted_sums ss acc)"
  using assms
proof (induction ss arbitrary: acc)
  case (Cons s ss)
  obtain n w where acc: "acc = (n, w)" by (cases acc)
  show ?case
  proof (cases "positive_weight (s_weight s)")
    case False
    then have "s_weight s \<noteq> PInf" by auto
    with Cons False show ?thesis by (simp add: acc)
  next
    case True
    let ?t = "f64_mul (f64_of_int (s_raw s)) (s_weight s)"
    let ?acc = "(f64_add n ?t, f64_add w (s_weight s))"
    have t: "?t \<in> {PInf, NaN} \<or> (\<exists>q. ?t = Fin q \<and> 0 \<le> q)" "s_weight s = PInf \<Longrightarrow> ?t \<in> {PInf, NaN}"
      using term_ok [of "s_raw s" "s_weight s"] Cons.prems(1) True by auto
    have n: "n \<in> {PInf, NaN} \<or> (\<exists>q. n = Fin q \<and> 0 \<le> q)" and w: "w = PInf \<or> (\<exists>q. w = Fin q \<and> 0 \<le> q)"
      using Cons.prems(2) by (simp_all add: acc sums_nonneg_def)
    have v: "s_weight s = PInf \<or> (\<exists>q. s_weight s = Fin q \<and> 0 \<le> q)"
      using positive_weight_cases [OF True] by auto
    have wv: "f64_add w (s_weight s) \<noteq> NaN" "f64_add w (s_weight s) \<in> {PInf, NaN} \<or> (\<exists>q. f64_add w (s_weight s) = Fin q \<and> 0 \<le> q)"
      "w = PInf \<or> s_weight s = PInf \<Longrightarrow> f64_add w (s_weight s) \<in> {PInf, NaN}"
      using add_nonneg [of w "s_weight s"] w v by auto
    have "sums_nonneg ?acc" using add_nonneg(1) [OF n t(1)] wv(1,2) by (auto simp: sums_nonneg_def)
    moreover have "sums_infinite ?acc" if "sums_infinite acc \<or> s_weight s = PInf"
      using that add_nonneg(2) [OF n t(1)] t(2) wv by (auto simp: acc sums_infinite_def)
    ultimately have "sums_infinite (weighted_sums ss ?acc)"
      using Cons.prems(1,3) by (intro Cons.IH) auto
    with True show ?thesis by (simp add: acc)
  qed
qed simp

lemma infinite_average:
  assumes "\<forall>s \<in> set ss. 0 \<le> s_raw s \<and> s_raw s \<le> 100" and "s \<in> set ss" and "s_weight s = PInf"
  obtains n w where "weighted_sums ss (Fin 0, Fin 0) = (n, w)" and "f64_div n w = NaN"
    and "weighted_average ss = int_of_f64 NaN"
proof -
  obtain n w where nw: "weighted_sums ss (Fin 0, Fin 0) = (n, w)" by (metis prod.collapse)
  have "sums_infinite (n, w)"
    unfolding nw [symmetric] using assms by (intro infinite_sums) (auto simp: sums_nonneg_def)
  then have "f64_div n w = NaN" "w = PInf" by (auto simp: sums_infinite_def)
  with nw show thesis by (intro that [of n w]) (simp_all add: weighted_average_def)
qed

lemma activity_entry:
  "(d, True) \<in> set (activity_of p acc) \<longleftrightarrow>
     d \<in> set all_dimensions \<and> positive_weight (weight_of (sp_dimension_weights p) d)
     \<and> has_weighted_signal (ac_scores acc d)"
  by (auto simp: activity_of_def)

text \<open>An evaluation under a profile with an infinite weight, in the dimension of that signal.\<close>

lemma infinite_weight_evaluation:
  assumes "evaluate latest reg th now a q = Inr ev" and "weight_of (sp_signal_weights q) i = PInf"
    and "ds \<in> set (e_dimensions ev)" and "s \<in> set (d_signals ds)" and "s_signal s = i"
  shows "(\<exists>n w. weighted_sums (d_signals ds) (Fin 0, Fin 0) = (n, w) \<and> f64_div n w = NaN)
    \<and> d_score ds = int_of_f64 NaN
    \<and> (positive_weight (weight_of (sp_dimension_weights q) (d_dimension ds)) \<and> 0 \<le> th_untrusted th
         \<longrightarrow> e_profile ev = Untrusted)"
proof -
  from assms(1) obtain cs where ev: "ev = assemble th now a q (accum_of q cs)"
    by (auto simp: evaluate_Inr_iff)
  let ?acc = "accum_of q cs"
  from assms(3) obtain d where d: "d \<in> set all_dimensions" "d_dimension ds = d"
      "d_score ds = dimension_value ?acc d" "d_signals ds = ac_scores ?acc d"
    by (auto simp: ev assemble_def Let_def)
  have raws: "\<forall>s \<in> set (ac_scores ?acc d). 0 \<le> s_raw s \<and> s_raw s \<le> 100"
    using clamp_raw_range by (auto simp: accum_of_fields score_of_fields)
  have inf: "s_weight s = PInf"
    using assms(2,4,5) by (auto simp: d(4) accum_of_fields score_of_fields contribution_weight_def)
  obtain n w where nw: "weighted_sums (d_signals ds) (Fin 0, Fin 0) = (n, w)" "f64_div n w = NaN"
      "weighted_average (ac_scores ?acc d) = int_of_f64 NaN"
    using infinite_average [OF raws assms(4) [unfolded d(4)] inf] unfolding d(4) [symmetric] by blast
  have "\<forall>c \<in> set (ac_caps ?acc d). int_of_f64 NaN \<le> c"
    using caps_in_range [of _ q d cs] by (fastforce simp: accum_of_fields int_indefinite_def)
  then have score: "dimension_value ?acc d = int_of_f64 NaN"
    unfolding dimension_value_eq nw(3) by (intro Min_eqI) auto
  have "e_profile ev = Untrusted"
    if "positive_weight (weight_of (sp_dimension_weights q) d)" "0 \<le> th_untrusted th"
  proof -
    have "has_weighted_signal (ac_scores ?acc d)"
      using assms(4) inf by (auto simp: has_weighted_signal_def list_ex_iff d(4) intro!: bexI [of _ s])
    with that(1) d(1) have act: "(d, True) \<in> set (activity_of q ?acc)" by (simp add: activity_entry)
    have "dimension_value ?acc d < th_untrusted th" using that(2) score by (simp add: int_indefinite_def)
    with act show ?thesis by (auto simp: ev assemble_def Let_def classify_def cascade_iffs)
  qed
  with nw d score show ?thesis by auto
qed

text \<open>C20 Whatever profile file the loader accepts with weight 1 for a signal, it accepts
  with weight +Inf; in every evaluation under that profile the binary64 average of the dimension
  that signal was scored in is NaN, so its score is what the implementation makes of int(NaN),
  -2^63 on amd64 (0 on arm64), and on amd64 the classification is UNTRUSTED if the dimension is
  weighted and the floor is not negative.\<close>

theorem infinite_weight_accepted:
  assumes "pf_signal_weights pf = ws @ (i, Fin 1) # ws'" and "i \<notin> fst ` set ws"
    and "load_profile (\<lambda>_. Inr b) (\<lambda>_. Inr pf) path = Inr p"
  shows "\<exists>q. load_profile (\<lambda>_. Inr b) (\<lambda>_. Inr (pf\<lparr>pf_signal_weights := ws @ (i, PInf) # ws'\<rparr>)) path = Inr q
    \<and> sp_signal_weights q = (sp_signal_weights p)(i \<mapsto> PInf)
    \<and> (\<forall>latest reg th now a ev ds s.
         evaluate latest reg th now a q = Inr ev \<and> ds \<in> set (e_dimensions ev)
         \<and> s \<in> set (d_signals ds) \<and> s_signal s = i \<longrightarrow>
         (\<exists>n w. weighted_sums (d_signals ds) (Fin 0, Fin 0) = (n, w) \<and> f64_div n w = NaN)
         \<and> d_score ds = - (2 ^ 63)
         \<and> (positive_weight (weight_of (sp_dimension_weights q) (d_dimension ds)) \<and> 0 \<le> th_untrusted th
              \<longrightarrow> e_profile ev = Untrusted))"
proof -
  define q where "q = p\<lparr>sp_signal_weights := (sp_signal_weights p)(i \<mapsto> PInf)\<rparr>"
  have not_in: "map_of (ws @ (i, v) # ws') = (map_of (ws @ ws'))(i \<mapsto> v)" for v
    using assms(2) by (simp add: map_of_append map_add_upd_left dom_map_of_conv_image_fst)
  have "check_signal_weight n (i, PInf) = None" for n by (simp add: check_signal_weight_def)
  then have load: "load_profile (\<lambda>_. Inr b) (\<lambda>_. Inr (pf\<lparr>pf_signal_weights := ws @ (i, PInf) # ws'\<rparr>)) path = Inr q"
    using assms not_in
    by (auto simp: load_profile_def q_def check_all_None_iff split: if_splits option.splits
        simp del: not_None_eq)
  have w: "weight_of (sp_signal_weights q) i = PInf" by (simp add: q_def weight_of_def)
  have i: "int_of_f64 NaN = - (2 ^ 63)" by (simp add: int_indefinite_def)
  have "sp_signal_weights q = (sp_signal_weights p)(i \<mapsto> PInf)" by (simp add: q_def)
  with load show ?thesis using infinite_weight_evaluation [OF _ w, unfolded i] by (intro exI [of _ q] conjI) blast+
qed

definition dnssec_registry :: registry where
  "dnssec_registry = \<lparr>reg_signals = [''dnssecurity'' \<mapsto> dnssec_signal], reg_order = [''dnssecurity'']\<rparr>"

definition both_present :: observation where
  "both_present = example_observation ''dnssecurity'' ''{\"dnssec\":true,\"caa\":true}''"

text \<open>A fully compliant agent under such a profile.\<close>

theorem infinite_weight_accepted_witness:
  "\<exists>q ev. load_profile (\<lambda>_. Inr []) (\<lambda>_. Inr (example_profile_file PInf)) ''p.yaml'' = Inr q
     \<and> evaluate (\<lambda>_ _. Inr (Some both_present)) dnssec_registry default_thresholds 0 example_agent q = Inr ev
     \<and> tv_integrity (e_vector ev) = - (2 ^ 63) \<and> e_profile ev = Untrusted"
proof -
  let ?pf = "example_profile_file (Fin 1)"
  obtain p where p: "load_profile (\<lambda>_. Inr []) (\<lambda>_. Inr ?pf) ''p.yaml'' = Inr p"
      "sp_dimension_weights p = [''integrity'' \<mapsto> Fin 1, ''safety'' \<mapsto> Fin 0]"
    by (simp add: load_profile_def example_profile_file_def check_dimension_weight_def
        check_signal_weight_def dimension_valid_iff all_dimensions_def dimension_defs) (simp add: fun_eq_iff)
  have ws: "pf_signal_weights ?pf = [] @ (''dnssecurity'', Fin 1) # []"
    and fresh: "''dnssecurity'' \<notin> fst ` set []"
    and inf: "?pf\<lparr>pf_signal_weights := [] @ [(''dnssecurity'', PInf)]\<rparr> = example_profile_file PInf"
    by (simp_all add: example_profile_file_def)
  from infinite_weight_accepted [OF ws fresh p(1)] obtain q where
    load: "load_profile (\<lambda>_. Inr []) (\<lambda>_. Inr (example_profile_file PInf)) ''p.yaml'' = Inr q"
    and eval: "\<And>latest reg th now a ev ds s. evaluate latest reg th now a q = Inr ev \<and> ds \<in> set (e_dimensions ev)
         \<and> s \<in> set (d_signals ds) \<and> s_signal s = ''dnssecurity'' \<Longrightarrow>
         d_score ds = - (2 ^ 63)
         \<and> (positive_weight (weight_of (sp_dimension_weights q) (d_dimension ds)) \<and> 0 \<le> th_untrusted th
              \<longrightarrow> e_profile ev = Untrusted)"
    unfolding inf by blast
  have dims: "weight_of (sp_dimension_weights q) DimensionIntegrity = Fin 1"
    using load by (auto simp: load_profile_def example_profile_file_def weight_of_def dimension_defs
        split: if_splits option.splits)
  define r where "r = result_of dnssec_signal example_agent (Some both_present)"
  define c :: contribution where "c = (dnssec_signal, Some both_present, r)"
  have cs: "contributions (\<lambda>_ _. Inr (Some both_present)) example_agent (all_signals dnssec_registry) = Inr [c]"
    by (simp add: all_signals_def dnssec_registry_def r_def c_def skipped_def)
  define ev where "ev = assemble default_thresholds 0 example_agent q (accum_of q [c])"
  have ev: "evaluate (\<lambda>_ _. Inr (Some both_present)) dnssec_registry default_thresholds 0 example_agent q = Inr ev"
    using cs by (auto simp: evaluate_Inr_iff ev_def)
  let ?s = "contribution_score q c"
  let ?ds = "\<lparr>d_dimension = DimensionIntegrity, d_score = dimension_value (accum_of q [c]) DimensionIntegrity,
      d_signals = ac_scores (accum_of q [c]) DimensionIntegrity\<rparr>"
  have "?ds \<in> set (e_dimensions ev)" by (simp add: ev_def assemble_def Let_def all_dimensions_def)
  moreover have "?s \<in> set (d_signals ?ds)" "s_signal ?s = ''dnssecurity''"
    by (simp_all add: accum_of_fields score_of_fields c_def contribution_dimension_def dnssec_signal_def)
  ultimately have "d_score ?ds = - (2 ^ 63) \<and> e_profile ev = Untrusted"
    using eval [of "\<lambda>_ _. Inr (Some both_present)" dnssec_registry default_thresholds 0 example_agent ev ?ds ?s] ev dims
    by (simp add: default_thresholds_def)
  then have "tv_integrity (e_vector ev) = - (2 ^ 63) \<and> e_profile ev = Untrusted"
    by (simp add: ev_def assemble_def Let_def)
  with load ev show ?thesis by blast
qed

end
