(* ===== verification/Server.thy ===== *)
theory Server
  imports ImportFacts Config Profiles
begin

text \<open>
  The server (\<open>internal/server\<close>): the middleware around the handlers (request ids, panic
  recovery, the per-request line, the audit of the admin routes with its body cap), the admin
  chain of \<open>router.go\<close>, and the boot sequence of \<open>build.go\<close>.  The router's pattern
  matching is the chi library's and left out; durations are not modelled.
\<close>

section \<open>Request ids (middleware.go)\<close>

definition max_request_id_len :: nat where
  "max_request_id_len = 64"

definition request_id_byte :: "char \<Rightarrow> bool" where
  "request_id_byte c \<longleftrightarrow>
     48 \<le> ord c \<and> ord c \<le> 57 \<or> 97 \<le> ord c \<and> ord c \<le> 122 \<or> 65 \<le> ord c \<and> ord c \<le> 90
     \<or> c = CHR ''-'' \<or> c = CHR ''_''"

definition is_valid_request_id :: "string \<Rightarrow> bool" where
  "is_valid_request_id s \<longleftrightarrow> \<not> (s = [] \<or> length s > max_request_id_len) \<and> list_all request_id_byte s"

text \<open>Sixteen random bytes in hexadecimal.\<close>

definition new_request_id :: "nat list \<Rightarrow> string" where
  "new_request_id bytes = concat (map (\<lambda>b. [hex_digit (b div 16 mod 16), hex_digit (b mod 16)]) bytes)"

definition request_id :: "nat list \<Rightarrow> string \<Rightarrow> string" where
  "request_id bytes inbound = (if \<not> is_valid_request_id inbound then new_request_id bytes else inbound)"

section \<open>Panics and the request line\<close>

definition recoverer :: "'s handler \<Rightarrow> 's \<Rightarrow> 's handled" where
  "recoverer next d =
     (case next d of Inl h \<Rightarrow> h | Inr d' \<Rightarrow> reject (Internal [Lit ''panic'']) d')"

text \<open>\<open>statusRecorder.problemCode\<close>: the code of an error body.\<close>

definition problem_code :: "'v response \<Rightarrow> string" where
  "problem_code r =
     (if rs_status r < 400 then []
      else case rs_body r of Inl p \<Rightarrow> pb_code p | Inr _ \<Rightarrow> [])"

datatype line_level = LineInfo | LineWarn | LineError

record request_line =
  rl_level :: line_level
  rl_route :: string
  rl_status :: int
  rl_code :: "string option"

definition request_logger :: "string \<Rightarrow> 'v response \<Rightarrow> request_line" where
  "request_logger route r =
     (if rs_status r \<ge> 500
      then \<lparr>rl_level = LineError, rl_route = route, rl_status = rs_status r, rl_code = Some (problem_code r)\<rparr>
      else if rs_status r \<ge> 400
      then \<lparr>rl_level = LineWarn, rl_route = route, rl_status = rs_status r, rl_code = Some (problem_code r)\<rparr>
      else \<lparr>rl_level = LineInfo, rl_route = route, rl_status = rs_status r, rl_code = None\<rparr>)"

section \<open>The admin routes\<close>

definition max_admin_body_bytes :: nat where
  "max_admin_body_bytes = 1048576"

datatype body_source = Body string | BrokenBody

record admin_request =
  rq_path :: string
  rq_authorization :: string
  rq_body :: body_source

record audit_line =
  al_route :: string
  al_authenticated :: bool
  al_batch_size :: int
  al_outcome :: string
  al_status :: int

text \<open>The response and the one line of the audit middleware: it reads the bounded body, answers 413
  or 400 itself, and otherwise calls the next handler with the body.\<close>

definition audit ::
  "(string \<Rightarrow> 's \<Rightarrow> 's handled) \<Rightarrow> admin_request \<Rightarrow> 's \<Rightarrow> 's handled \<times> audit_line" where
  "audit next rq d =
     (let h = (case rq_body rq of
                 BrokenBody \<Rightarrow> reject (Typed (new_error 400 ''INVALID_REQUEST''
                   [Lit ''request body could not be read''])) d
               | Body b \<Rightarrow>
                   if length b > max_admin_body_bytes
                   then reject (Typed (new_error 413 ''REQUEST_TOO_LARGE''
                     [Lit ''request body exceeds '', Num (int max_admin_body_bytes), Lit '' bytes''])) d
                   else next b d);
          status = rs_status (h_response h)
      in (h, \<lparr>al_route = rq_path rq,
              al_authenticated = (rq_authorization rq \<noteq> [] \<and> status \<noteq> 401),
              al_batch_size = h_accepted h,
              al_outcome = (if status \<ge> 400 then ''rejected'' else ''accepted''),
              al_status = status\<rparr>))"

text \<open>\<open>router.go\<close>: audit around recovery around the admin key around the handler.\<close>

definition admin_chain ::
  "'s middleware \<Rightarrow> (string \<Rightarrow> 's handler) \<Rightarrow> admin_request \<Rightarrow> 's \<Rightarrow> 's handled \<times> audit_line" where
  "admin_chain auth handler rq d =
     audit (\<lambda>body. recoverer (auth (rq_authorization rq) (handler body))) rq d"

section \<open>Boot (build.go)\<close>

definition thresholds_of :: "config \<Rightarrow> thresholds" where
  "thresholds_of cfg =
     \<lparr>th_untrusted = cc_untrusted (cf_classify cfg), th_transactional = cc_transactional (cf_classify cfg),
      th_fiduciary = cc_fiduciary (cf_classify cfg),
      th_identity_fiduciary = cc_identity_fiduciary (cf_classify cfg)\<rparr>"

definition known_signals :: "registry \<Rightarrow> signal_id \<Rightarrow> bool" where
  "known_signals reg i = list_ex (\<lambda>s. sig_id s = i) (all_signals reg)"

text \<open>The wired server: what its handlers close over.\<close>

record server =
  sv_db :: db
  sv_registry :: registry
  sv_profiles :: "scoring_profile list"
  sv_thresholds :: thresholds
  sv_admin_auth :: "db middleware"

text \<open>
  The opened store, the loader of the provider signals and the loaded profiles are arguments, with
  the errors of their files; \<open>weighted p\<close> are the keys of a profile's weight map in iteration
  order.
\<close>

definition register_all :: "(signal \<Rightarrow> message) \<Rightarrow> signal list \<Rightarrow> registry \<Rightarrow> (message, registry) result" where
  "register_all prefix sgs r =
     run_rows (\<lambda>s r. case register s r of Inl e \<Rightarrow> Inl (prefix s @ e) | Inr r' \<Rightarrow> Inr r') sgs r"

definition register_provided ::
  "(string \<Rightarrow> (message, score_signal list) result) \<Rightarrow> string \<Rightarrow> registry \<Rightarrow> (message, registry) result" where
  "register_provided load_provided path reg =
     (if path = [] then Inr reg
      else try_bind (wrap_error ''server: load score signals: '' (load_provided path)) (\<lambda>ss.
             register_all (\<lambda>s. [Lit ''server: register score signal '', Lit (sig_id s), Lit '': '']) (map score_signal_of ss) reg))"

definition check_profiles ::
  "(scoring_profile \<Rightarrow> signal_id list) \<Rightarrow> registry \<Rightarrow> scoring_profile list \<Rightarrow> (message, unit) result" where
  "check_profiles weighted reg ps =
     (case check_all (\<lambda>p. validate_signal_weights (sp_name p) (weighted p) (known_signals reg)) ps of
        Some e \<Rightarrow> Inl e | None \<Rightarrow> Inr ())"

definition build ::
  "(string \<Rightarrow> (message, db) result) \<Rightarrow> (string \<Rightarrow> (message, score_signal list) result)
     \<Rightarrow> (message, scoring_profile list) result \<Rightarrow> (scoring_profile \<Rightarrow> signal_id list) \<Rightarrow> instant
     \<Rightarrow> config \<Rightarrow> (message, server) result" where
  "build open_store load_provided profiles weighted now cfg =
     try_bind (wrap_error ''server: open store: '' (open_store (cf_db_path cfg))) (\<lambda>d.
     try_bind (register_all (\<lambda>_. [Lit ''server: register signal: '']) (built_ins now) new_registry) (\<lambda>reg0.
     try_bind (register_provided load_provided (cf_signals_path cfg) reg0) (\<lambda>reg.
     try_bind (wrap_error ''server: load profiles: '' profiles) (\<lambda>ps.
     try_bind (wrap_error ''server: '' (check_profiles weighted reg ps)) (\<lambda>_.
     try_bind (wrap_error ''server: admin auth: ''
       (new_admin_auth \<lparr>ac_require_key = cf_require_key cfg, ac_key = cf_admin_key cfg\<rparr>)) (\<lambda>mw.
       Inr \<lparr>sv_db = d, sv_registry = reg, sv_profiles = ps, sv_thresholds = thresholds_of cfg,
            sv_admin_auth = mw\<rparr>))))))"

section \<open>Facts\<close>

lemma register_all_Inr_iff: "register_all prefix sgs r = Inr r' \<longleftrightarrow> reg.register_list sgs r = Inr r'"
  by (induction sgs arbitrary: r) (auto simp: register_all_def split: sum.splits)

lemma register_all_signals:
  assumes "register_all prefix sgs r = Inr r'" and "registry_valid r"
  shows "registry_valid r' \<and> all_signals r' = all_signals r @ sgs"
  using assms(1) reg.register_list_all [OF assms(2)] by (simp add: register_all_Inr_iff)

lemma new_request_id_bytes: "request_id_byte (hex_digit (n mod 16))"
proof -
  have "k < 16 \<Longrightarrow> request_id_byte (hex_digit k)" for k
    by (auto simp: hex_digit_def request_id_byte_def)
  then show ?thesis by simp
qed

lemma new_request_id_valid:
  assumes "length bytes = 16"
  shows "is_valid_request_id (new_request_id bytes)"
proof -
  have "length (new_request_id bs) = 2 * length bs" for bs by (induction bs) (simp_all add: new_request_id_def)
  moreover from this [of bytes] have "new_request_id bytes \<noteq> []" using assms by (auto simp flip: length_0_conv)
  moreover have "list_all request_id_byte (new_request_id bytes)"
    by (auto simp: new_request_id_def list_all_iff new_request_id_bytes)
  ultimately show ?thesis using assms by (simp add: is_valid_request_id_def max_request_id_len_def)
qed

lemma audit_fields:
  "audit next rq d = (h, line) \<Longrightarrow>
     al_status line = rs_status (h_response h) \<and> al_batch_size line = h_accepted h
     \<and> (al_outcome line = ''rejected'' \<longleftrightarrow> rs_status (h_response h) \<ge> 400)"
  by (simp add: audit_def Let_def, elim conjE, hypsubst, simp)

lemma new_admin_auth_denies:
  assumes "new_admin_auth cfg = Inr mw" and "ac_require_key cfg" and "authorization \<noteq> ''Bearer '' @ ac_key cfg"
  shows "mw authorization next d
    = Inl (reject (Typed (new_error 401 CodeUnauthorized [Lit ''missing or invalid admin bearer key''])) d)"
  using assms by (auto simp: new_admin_auth_def split: if_splits)

lemma reject_status: "400 \<le> s \<Longrightarrow> s \<le> 599 \<Longrightarrow> rs_status (h_response (reject (Typed (new_error s c m)) d)) = s"
  by (simp add: reject_def write_problem_typed new_error_def)

section \<open>Properties\<close>

text \<open>The request id that is echoed and logged always passes the charset and length
  gate, and a valid inbound id is kept.\<close>

theorem request_id_valid:
  assumes "length bytes = 16"
  shows "is_valid_request_id (request_id bytes inbound)
    \<and> (is_valid_request_id inbound \<longrightarrow> request_id bytes inbound = inbound)"
  using new_request_id_valid [OF assms] by (simp add: request_id_def)

theorem request_id_valid_witness:
  "is_valid_request_id (request_id (replicate 16 171) ''a b'')
   \<and> request_id (replicate 16 171) ''trace-1'' = ''trace-1''"
proof -
  have "is_valid_request_id ''trace-1''" by code_simp
  with request_id_valid [of "replicate 16 171" "''a b''"] request_id_valid [of "replicate 16 171" "''trace-1''"]
  show ?thesis by simp
qed

text \<open>When the admin key is required, a request without exactly that bearer key
  changes nothing whatever the handler behind does, is answered 400, 401 or 413, and is audited
  as rejected with batch size 0.\<close>

theorem unauthenticated_changes_nothing:
  assumes "new_admin_auth cfg = Inr auth" and "ac_require_key cfg"
    and "rq_authorization rq \<noteq> ''Bearer '' @ ac_key cfg"
    and "admin_chain auth handler rq d = (h, line)"
  shows "h_store h = d \<and> rs_status (h_response h) \<in> {400, 401, 413}
    \<and> al_outcome line = ''rejected'' \<and> al_batch_size line = 0"
proof -
  have h: "h = (case rq_body rq of
      BrokenBody \<Rightarrow> reject (Typed (new_error 400 ''INVALID_REQUEST'' [Lit ''request body could not be read''])) d
    | Body b \<Rightarrow>
        if length b > max_admin_body_bytes
        then reject (Typed (new_error 413 ''REQUEST_TOO_LARGE''
          [Lit ''request body exceeds '', Num (int max_admin_body_bytes), Lit '' bytes''])) d
        else reject (Typed (new_error 401 CodeUnauthorized [Lit ''missing or invalid admin bearer key''])) d)"
    using assms(4)
    by (auto simp: admin_chain_def audit_def Let_def recoverer_def new_admin_auth_denies [OF assms(1-3)]
        split: body_source.splits)
  then have s: "rs_status (h_response h) \<in> {400, 401, 413}" "h_store h = d" "h_accepted h = 0"
    by (auto simp: reject_status split: body_source.splits)
  moreover have "al_outcome line = ''rejected''" "al_batch_size line = 0"
    using audit_fields [OF assms(4) [unfolded admin_chain_def]] s by auto
  ultimately show ?thesis by blast
qed

definition example_admin_request :: admin_request where
  "example_admin_request =
     \<lparr>rq_path = ''/v1/internal/agents/import'', rq_authorization = ''Bearer guess'', rq_body = Body ''{}''\<rparr>"

theorem unauthenticated_changes_nothing_witness:
  "\<exists>auth h line. new_admin_auth \<lparr>ac_require_key = True, ac_key = ''secret''\<rparr> = Inr auth
     \<and> admin_chain auth (\<lambda>body d. Inl (import_agents_handler sqlite_port body d)) example_admin_request
         imported_db = (h, line)
     \<and> h_store h = imported_db \<and> al_outcome line = ''rejected''"
proof -
  obtain auth :: "db middleware" where a: "new_admin_auth \<lparr>ac_require_key = True, ac_key = ''secret''\<rparr> = Inr auth"
    by (simp add: new_admin_auth_def)
  obtain h line where c: "admin_chain auth (\<lambda>body d. Inl (import_agents_handler sqlite_port body d))
      example_admin_request imported_db = (h, line)" by (metis prod.collapse)
  have "h_store h = imported_db \<and> al_outcome line = ''rejected''"
    using unauthenticated_changes_nothing [OF a _ _ c] by (simp add: example_admin_request_def)
  with a c show ?thesis by blast
qed

text \<open>C38 A request with an oversized body and any Authorization header is audited as
  authenticated, whatever the key.\<close>

theorem oversized_audited_as_authenticated:
  assumes "rq_authorization rq \<noteq> []" and "rq_body rq = Body b" and "length b > max_admin_body_bytes"
    and "admin_chain auth handler rq d = (h, line)"
  shows "al_authenticated line \<and> al_status line = 413"
  using assms by (auto simp: admin_chain_def audit_def Let_def reject_status)

theorem oversized_audited_as_authenticated_witness:
  "\<exists>auth h line. new_admin_auth \<lparr>ac_require_key = True, ac_key = ''secret''\<rparr> = Inr auth
     \<and> admin_chain auth (\<lambda>body d. Inl (import_agents_handler sqlite_port body d))
         (example_admin_request\<lparr>rq_body := Body (replicate 1048577 CHR ''x'')\<rparr>) imported_db = (h, line)
     \<and> al_authenticated line"
proof -
  obtain auth :: "db middleware" where a: "new_admin_auth \<lparr>ac_require_key = True, ac_key = ''secret''\<rparr> = Inr auth"
    by (simp add: new_admin_auth_def)
  let ?rq = "example_admin_request\<lparr>rq_body := Body (replicate 1048577 CHR ''x'')\<rparr>"
  obtain h line where c: "admin_chain auth (\<lambda>body d. Inl (import_agents_handler sqlite_port body d))
      ?rq imported_db = (h, line)" by (metis prod.collapse)
  have "rq_authorization ?rq \<noteq> []" "rq_body ?rq = Body (replicate 1048577 CHR ''x'')"
    by (simp_all add: example_admin_request_def)
  from oversized_audited_as_authenticated [OF this _ c] have "al_authenticated line"
    by (simp add: max_admin_body_bytes_def)
  with a c show ?thesis by blast
qed

text \<open>What a successful boot guarantees.\<close>

lemma build_parts:
  assumes "build open_store load_provided profiles weighted now cfg = Inr sv"
  obtains ss where
    "registry_valid (sv_registry sv)"
    and "all_signals (sv_registry sv) = built_ins now @ map score_signal_of ss"
    and "ss = [] \<or> load_provided (cf_signals_path cfg) = Inr ss"
    and "profiles = Inr (sv_profiles sv)"
    and "\<forall>p \<in> set (sv_profiles sv). \<forall>i \<in> set (weighted p). known_signals (sv_registry sv) i"
    and "sv_thresholds sv = thresholds_of cfg"
    and "new_admin_auth \<lparr>ac_require_key = cf_require_key cfg, ac_key = cf_admin_key cfg\<rparr> = Inr (sv_admin_auth sv)"
proof -
  from assms obtain reg0 where
    r0: "register_all (\<lambda>_. [Lit ''server: register signal: '']) (built_ins now) new_registry = Inr reg0"
    and r1: "register_provided load_provided (cf_signals_path cfg) reg0 = Inr (sv_registry sv)"
    and ps: "profiles = Inr (sv_profiles sv)"
    and w: "check_profiles weighted (sv_registry sv) (sv_profiles sv) = Inr ()"
    and mw: "new_admin_auth \<lparr>ac_require_key = cf_require_key cfg, ac_key = cf_admin_key cfg\<rparr> = Inr (sv_admin_auth sv)"
    and th: "sv_thresholds sv = thresholds_of cfg"
    unfolding build_def result_simps by auto
  from register_all_signals [OF r0 new_registry_valid]
  have v0: "registry_valid reg0" "all_signals reg0 = built_ins now" by simp_all
  obtain ss where ss: "registry_valid (sv_registry sv)"
    "all_signals (sv_registry sv) = built_ins now @ map score_signal_of ss"
    "ss = [] \<or> load_provided (cf_signals_path cfg) = Inr ss"
  proof (cases "cf_signals_path cfg = []")
    case True
    with r1 v0 show thesis by (intro that [of "[]"]) (simp_all add: register_provided_def)
  next
    case False
    with r1 obtain ss where "load_provided (cf_signals_path cfg) = Inr ss"
      "register_all (\<lambda>s. [Lit ''server: register score signal '', Lit (sig_id s), Lit '': '']) (map score_signal_of ss) reg0 = Inr (sv_registry sv)"
      by (auto simp: register_provided_def result_simps)
    with register_all_signals [OF this(2) v0(1)] v0(2) show thesis by (intro that [of ss]) simp_all
  qed
  from w have "\<forall>p \<in> set (sv_profiles sv). \<forall>i \<in> set (weighted p). known_signals (sv_registry sv) i"
    by (auto simp: check_profiles_def check_all_None_iff validate_signal_weights_def split: option.splits if_splits)
  with ss ps mw th show thesis by (intro that [of ss])
qed

text \<open>C39 After a successful boot the registered signals have distinct ids and keep the
  signal contract, every profile weights only registered signals, the classification thresholds
  ascend strictly, and a required admin key is not empty.\<close>

theorem boot_sound:
  assumes "load_config read_file decode_config env path = Inr cfg"
    and "build open_store (load_signals read_file decode_signals) profiles weighted now cfg = Inr sv"
    and "\<forall>p \<in> set (sv_profiles sv). set (weighted p) = dom (sp_signal_weights p)"
  shows "registry_valid (sv_registry sv) \<and> distinct (map sig_id (all_signals (sv_registry sv)))
    \<and> (\<forall>sg \<in> set (all_signals (sv_registry sv)). signal_contract sg)
    \<and> (\<forall>p \<in> set (sv_profiles sv). \<forall>i w. sp_signal_weights p i = Some w
         \<longrightarrow> (\<exists>sg \<in> set (all_signals (sv_registry sv)). sig_id sg = i))
    \<and> 0 < th_untrusted (sv_thresholds sv) \<and> th_untrusted (sv_thresholds sv) < th_transactional (sv_thresholds sv)
    \<and> th_transactional (sv_thresholds sv) < th_fiduciary (sv_thresholds sv)
    \<and> th_fiduciary (sv_thresholds sv) < th_identity_fiduciary (sv_thresholds sv)
    \<and> (cf_require_key cfg \<longrightarrow> cf_admin_key cfg \<noteq> [])"
proof -
  obtain ss where b: "registry_valid (sv_registry sv)"
    "all_signals (sv_registry sv) = built_ins now @ map score_signal_of ss"
    "ss = [] \<or> load_signals read_file decode_signals (cf_signals_path cfg) = Inr ss"
    "\<forall>p \<in> set (sv_profiles sv). \<forall>i \<in> set (weighted p). known_signals (sv_registry sv) i"
    "sv_thresholds sv = thresholds_of cfg"
    "new_admin_auth \<lparr>ac_require_key = cf_require_key cfg, ac_key = cf_admin_key cfg\<rparr> = Inr (sv_admin_auth sv)"
    using build_parts [OF assms(2)] by metis
  have c: "signal_contract sg" if "sg \<in> set (all_signals (sv_registry sv))" for sg
  proof -
    from that b(2) consider "sg \<in> set (built_ins now)" | s where "s \<in> set ss" "sg = score_signal_of s" by auto
    then show ?thesis
    proof cases
      case 2
      with b(3) have "load_signals read_file decode_signals (cf_signals_path cfg) = Inr ss" by auto
      with 2 show ?thesis using loaded_signals_contract by blast
    qed (rule built_ins_contract)
  qed
  have k: "\<exists>sg \<in> set (all_signals (sv_registry sv)). sig_id sg = i"
    if "p \<in> set (sv_profiles sv)" "sp_signal_weights p i = Some w" for p i w
    using b(4) assms(3) that by (fastforce simp: known_signals_def list_ex_iff)
  have "ascending (cf_classify cfg)" using assms(1) by (rule load_config_ascending)
  then have t: "0 < th_untrusted (sv_thresholds sv)" "th_untrusted (sv_thresholds sv) < th_transactional (sv_thresholds sv)"
    "th_transactional (sv_thresholds sv) < th_fiduciary (sv_thresholds sv)"
    "th_fiduciary (sv_thresholds sv) < th_identity_fiduciary (sv_thresholds sv)"
    by (simp_all add: b(5) thresholds_of_def ascending_def)
  have a: "cf_require_key cfg \<longrightarrow> cf_admin_key cfg \<noteq> []"
    using b(6) by (auto simp: new_admin_auth_def)
  have d: "distinct (map sig_id (all_signals (sv_registry sv)))" by (rule reg.all_distinct [OF b(1)])
  show ?thesis using b(1) c k t a d by blast
qed

lemma register_all_Nil: "register_all prefix [] r = Inr r"
  by (simp add: register_all_def)

lemma built_ins_register: "\<exists>r. register_all prefix (built_ins 0) new_registry = Inr r"
proof -
  have "map sig_id (built_ins 0) = [''certtype'', ''dnssecurity'', ''agentage'', ''versionstability'',
      ''certfingerprint.server'', ''certfingerprint.identity'', ''dnsrecord.ans'', ''dnsrecord.ans-badge'']" by code_simp
  then have ids: "distinct (map sig_id (built_ins 0))" "[] \<notin> set (map sig_id (built_ins 0))" by simp_all
  then show ?thesis
    using reg.register_list_ok_iff [OF new_registry_valid, of "built_ins 0"]
    by (simp add: register_all_Inr_iff image_iff)
qed

definition example_yaml_config :: yaml_config where
  "example_yaml_config =
     \<lparr>yc_listen_addr = [], yc_db_path = [], yc_require_key = None, yc_admin_key = [], yc_log_level = [],
      yc_signals_path = ''signals.yaml'', yc_classify = Some \<lparr>cc_untrusted = 30, cc_transactional = 50,
        cc_fiduciary = 70, cc_identity_fiduciary = 80\<rparr>\<rparr>"

definition example_weighted_profile :: scoring_profile where
  "example_weighted_profile =
     \<lparr>sp_name = ''default'', sp_dimension_weights = Map.empty, sp_signal_weights = [''dnssecurity'' \<mapsto> Fin 1]\<rparr>"

theorem boot_sound_witness:
  "\<exists>cfg sv. load_config (\<lambda>_. Inr []) (\<lambda>_. Inr example_yaml_config) (Some ''secret'') ''/etc/atd/runtime.yaml'' = Inr cfg
     \<and> cf_signals_path cfg = ''/etc/atd/signals.yaml''
     \<and> build (\<lambda>_. Inr empty_db) (load_signals (\<lambda>_. Inr []) (\<lambda>_. YamlEnd)) (Inr [example_weighted_profile])
         (\<lambda>_. [''dnssecurity'']) 0 cfg = Inr sv
     \<and> (\<forall>sg \<in> set (all_signals (sv_registry sv)). signal_contract sg) \<and> th_untrusted (sv_thresholds sv) > 0"
proof -
  have path: "path_join (path_dir ''/etc/atd/runtime.yaml'') ''signals.yaml'' = ''/etc/atd/signals.yaml''" by code_simp
  have rel: "\<not> path_rooted ''signals.yaml''" by code_simp
  define cfg where "cfg = \<lparr>cf_listen_addr = '':8080'', cf_db_path = ''agent-trust-discovery.db'', cf_require_key = True,
    cf_admin_key = ''secret'', cf_log_level = ''info'', cf_classify = \<lparr>cc_untrusted = 30, cc_transactional = 50,
      cc_fiduciary = 70, cc_identity_fiduciary = 80\<rparr>, cf_signals_path = ''/etc/atd/signals.yaml''\<rparr>"
  have l: "load_config (\<lambda>_. Inr []) (\<lambda>_. Inr example_yaml_config) (Some ''secret'') ''/etc/atd/runtime.yaml'' = Inr cfg"
    by (simp add: load_config_def example_yaml_config_def or_default_def path rel validate_classify_def cfg_def)
  obtain r where r: "register_all (\<lambda>_. [Lit ''server: register signal: '']) (built_ins 0) new_registry = Inr r"
    using built_ins_register by blast
  then have all: "all_signals r = built_ins 0" using register_all_signals [OF r new_registry_valid] by simp
  have "known_signals r ''dnssecurity''" unfolding known_signals_def all by code_simp
  then have c: "check_profiles (\<lambda>_. [''dnssecurity'']) r [example_weighted_profile] = Inr ()"
    by (simp add: check_profiles_def validate_signal_weights_def)
  have p: "register_provided (load_signals (\<lambda>_. Inr []) (\<lambda>_. YamlEnd)) (cf_signals_path cfg) r = Inr r"
    by (simp add: load_signals_def register_provided_def wrap_error_def register_all_Nil cfg_def)
  obtain mw :: "db middleware" where mw: "new_admin_auth \<lparr>ac_require_key = cf_require_key cfg, ac_key = cf_admin_key cfg\<rparr> = Inr mw"
    by (simp add: new_admin_auth_def cfg_def)
  obtain sv where sv: "build (\<lambda>_. Inr empty_db) (load_signals (\<lambda>_. Inr []) (\<lambda>_. YamlEnd))
      (Inr [example_weighted_profile]) (\<lambda>_. [''dnssecurity'']) 0 cfg = Inr sv"
    unfolding build_def wrap_error_def sum.case try_bind.simps r p c mw by blast
  have "sv_profiles sv = [example_weighted_profile]"
    by (rule build_parts [OF sv]) simp
  then have w: "\<forall>p \<in> set (sv_profiles sv). set [''dnssecurity''] = dom (sp_signal_weights p)"
    by (simp add: example_weighted_profile_def)
  from boot_sound [OF l sv w] have "\<forall>sg \<in> set (all_signals (sv_registry sv)). signal_contract sg"
    "th_untrusted (sv_thresholds sv) > 0" by blast+
  with l sv show ?thesis by (intro exI [of _ cfg] exI [of _ sv]) (simp add: cfg_def)
qed

end
