(* ===== verification/SearchIndex.thy ===== *)
theory SearchIndex
  imports Store GoText "HOL-Library.Product_Lexorder"
begin

text \<open>
  The search index (\<open>internal/adapter/sqlitestore/index.go\<close>).  The SQL text that
  \<open>buildFilters\<close> assembles is modelled by what it selects: a predicate on the rows of the
  agents table, an order and the slice \<open>LIMIT size+1 OFFSET (page-1)*size\<close>.  FTS5 (its
  tokenizer, \<open>MATCH\<close> and the \<open>rank\<close> of a match) is the argument \<open>fts\<close>: for an
  expression and the index it gives the rank of every matching row, or nothing when the
  expression is rejected.  \<open>LIKE\<close> is modelled as SQLite evaluates it, \<open>json_each\<close> on columns
  that hold JSON arrays, which is what the store writes.
\<close>

type_synonym 'r fts_engine = "string \<Rightarrow> fts_row list \<Rightarrow> (fts_row \<Rightarrow> 'r option) option"

datatype search_error = SearchQueryFailed | ScanRowFailed store_error

section \<open>Page numbers and tokens\<close>

definition default_page_size :: int where "default_page_size = 20"
definition max_page_size :: int where "max_page_size = 100"
definition max_page :: int where "max_page = 100000"
definition token_prefix :: string where "token_prefix = ''p:''"

definition clamp_size :: "int \<Rightarrow> int" where
  "clamp_size n =
     (if n \<le> 0 then default_page_size else if max_page_size < n then max_page_size else n)"

text \<open>\<open>strconv.Itoa\<close>\<close>

definition decimal :: "int \<Rightarrow> string" where
  "decimal n = (if n < 0 then CHR ''-'' # itoa (nat (- n)) else itoa (nat n))"

definition encode_token :: "int \<Rightarrow> string" where
  "encode_token page = b64_encode (token_prefix @ decimal page)"

definition decode_token :: "string \<Rightarrow> int option" where
  "decode_token tok =
     (case b64_decode tok of
        None \<Rightarrow> None
      | Some s \<Rightarrow>
          if \<not> has_prefix s token_prefix then None
          else (case atoi (trim_prefix s token_prefix) of
                  None \<Rightarrow> None | Some p \<Rightarrow> if p < 1 then None else Some p))"

definition effective_page :: "search_query \<Rightarrow> int" where
  "effective_page q =
     (let page =
        (if q_page_token q \<noteq> [] then (case decode_token (q_page_token q) of Some p \<Rightarrow> p | None \<Rightarrow> 1)
         else if 0 < q_page q then q_page q else 1)
      in if max_page < page then max_page else page)"

section \<open>Free text\<close>

text \<open>\<open>strings.ReplaceAll(f, `"`, `""`)\<close> between double quotes.\<close>

fun double_quotes :: "string \<Rightarrow> string" where
  "double_quotes [] = []"
| "double_quotes (c # s) = (if c = CHR 0x22 then [c, c] else [c]) @ double_quotes s"

definition fts_phrase :: "string \<Rightarrow> string" where
  "fts_phrase f = CHR 0x22 # double_quotes f @ [CHR 0x22]"

definition fts_match :: "string \<Rightarrow> string" where
  "fts_match text =
     (let fields = strings_fields text
      in if fields = [] then [] else join_with '' '' (map fts_phrase fields))"

section \<open>The filters\<close>

text \<open>\<open>strings.NewReplacer\<close> over backslash, percent and underscore.\<close>

fun escape_like :: "string \<Rightarrow> string" where
  "escape_like [] = []"
| "escape_like (c # s) =
     (if c \<in> {CHR 0x5C, CHR ''%'', CHR ''_''} then [CHR 0x5C, c] else [c]) @ escape_like s"

text \<open>SQLite's \<open>text LIKE pattern ESCAPE '\'\<close>.  Both operands are C strings, so a NUL byte ends
  them; they are compared character by character as \<open>sqlite3Utf8Read\<close> reads them: a lead byte takes
  every continuation byte that follows it, a stray continuation byte is a character, and overlong
  forms, surrogates and non-characters read as U+FFFD.\<close>

definition continuation :: "char \<Rightarrow> bool" where
  "continuation c \<longleftrightarrow> 128 \<le> ord c \<and> ord c < 192"

definition lead_bits :: "nat \<Rightarrow> nat" where
  "lead_bits b =
     (if b < 224 then b - 192 else if b < 240 then b - 224 else if b < 248 then b - 240
      else if b < 252 then b - 248 else if b < 254 then b - 252 else 0)"

definition wide_code :: "char \<Rightarrow> string \<Rightarrow> nat" where
  "wide_code c conts =
     (let v = fold (\<lambda>b v. (v * 64 + (ord b - 128)) mod 2 ^ 32) conts (lead_bits (ord c))
      in if v < 128 \<or> v div 2048 = 27 \<or> v div 2 = 32767 then 65533 else v)"

function sqlite_codes :: "string \<Rightarrow> nat list" where
  "sqlite_codes s =
     (case s of
        [] \<Rightarrow> []
      | c # r \<Rightarrow>
          if c = CHR 0x00 then []
          else if ord c < 192 then ord c # sqlite_codes r
          else wide_code c (takeWhile continuation r) # sqlite_codes (dropWhile continuation r))"
  by auto
termination
  by (relation "measure length") (auto simp: less_Suc_eq_le length_dropWhile_le)

declare sqlite_codes.simps [simp del]

definition fold_code :: "nat \<Rightarrow> nat" where
  "fold_code c = (if 65 \<le> c \<and> c \<le> 90 then c + 32 else c)"

text \<open>ASCII letters match in either case, a percent sign matches any text, an underscore one
  character, and a backslash makes the next character stand for itself.\<close>

function like_codes :: "nat list \<Rightarrow> nat list \<Rightarrow> bool" where
  "like_codes [] s = (s = [])"
| "like_codes (p # ps) s =
     (if p = 92 then
        (case (ps, s) of (q # qs, c # cs) \<Rightarrow> fold_code q = fold_code c \<and> like_codes qs cs | _ \<Rightarrow> False)
      else if p = 37 then
        like_codes ps s \<or> (case s of [] \<Rightarrow> False | c # cs \<Rightarrow> like_codes (p # ps) cs)
      else if p = 95 then (case s of [] \<Rightarrow> False | c # cs \<Rightarrow> like_codes ps cs)
      else (case s of [] \<Rightarrow> False | c # cs \<Rightarrow> fold_code p = fold_code c \<and> like_codes ps cs))"
  by pat_completeness auto
termination
  by (relation "measure (\<lambda>(ps, s). length ps + length s)") auto

text \<open>A pattern of more than \<open>SQLITE_MAX_LIKE_PATTERN_LENGTH\<close> bytes is an error of the query.\<close>

definition max_like_pattern :: nat where
  "max_like_pattern = 50000"

definition like :: "string \<Rightarrow> string \<Rightarrow> bool option" where
  "like pattern s =
     (if max_like_pattern < length pattern then None
      else Some (like_codes (sqlite_codes pattern) (sqlite_codes s)))"

definition in_clause :: "string list \<Rightarrow> string \<Rightarrow> bool" where
  "in_clause vals x \<longleftrightarrow> vals = [] \<or> x \<in> set vals"

text \<open>\<open>EXISTS (SELECT 1 FROM json_each(col) je WHERE je.value IN (...))\<close>\<close>

definition json_any_clause :: "string list \<Rightarrow> string \<Rightarrow> bool" where
  "json_any_clause vals col \<longleftrightarrow>
     vals = [] \<or>
     (case parse_json col of
        Some (JArr js) \<Rightarrow> list_ex (\<lambda>j. case j of JStr v \<Rightarrow> v \<in> set vals | _ \<Rightarrow> False) js
      | _ \<Rightarrow> False)"

definition domain_pattern :: "string \<Rightarrow> string" where
  "domain_pattern v = ''%'' @ escape_like v @ ''%''"

text \<open>The patterns are tried in order, up to the first that matches or is an error.\<close>

fun like_any :: "string list \<Rightarrow> string \<Rightarrow> bool option" where
  "like_any [] dns = Some False"
| "like_any (v # vs) dns =
     (case like (domain_pattern v) dns of
        None \<Rightarrow> None | Some True \<Rightarrow> Some True | Some False \<Rightarrow> like_any vs dns)"

definition domain_clause :: "string list \<Rightarrow> string \<Rightarrow> bool option" where
  "domain_clause vals dns = (if vals = [] then Some True else like_any vals dns)"

text \<open>The conjunction of the clauses that \<open>buildFilters\<close> adds.\<close>

definition row_selected :: "search_query \<Rightarrow> agent_row \<Rightarrow> bool" where
  "row_selected q r \<longleftrightarrow>
     in_clause (q_statuses q) (ar_status r) \<and> in_clause (q_providers q) (ar_provider r)
     \<and> json_any_clause (q_protocols q) (ar_protocols r)
     \<and> json_any_clause (q_transports q) (ar_transports r)
     \<and> json_any_clause (q_tags q) (ar_tags r)
     \<and> json_any_clause (q_capabilities q) (ar_capabilities r)
     \<and> domain_clause (q_domains q) (ar_dns_name r) = Some True"

text \<open>The row on which the query stops with an error: SQLite evaluates the tests of the plain columns,
  \<open>LIKE\<close> last among them, before the subqueries over \<open>json_each\<close>.\<close>

definition row_fails :: "search_query \<Rightarrow> agent_row \<Rightarrow> bool" where
  "row_fails q r \<longleftrightarrow>
     in_clause (q_statuses q) (ar_status r) \<and> in_clause (q_providers q) (ar_provider r)
     \<and> domain_clause (q_domains q) (ar_dns_name r) = None"

text \<open>\<open>FROM agents [JOIN agents_fts] WHERE ... ORDER BY ...\<close>; no index gives the order, so every row
  is tested whatever the slice.\<close>

definition query_rows :: "('r::linorder) fts_engine \<Rightarrow> search_query \<Rightarrow> db \<Rightarrow> agent_row list option" where
  "query_rows fts q d =
     (let match = fts_match (q_text q)
      in if match = [] then
           (if list_ex (row_fails q) (db_agents d) then None
            else Some (sort_key (\<lambda>r. (ar_display_name r, ar_id r)) (filter (row_selected q) (db_agents d))))
         else
           (case fts match (db_fts d) of
              None \<Rightarrow> None
            | Some rank \<Rightarrow>
                (let matched = [(k, r). r \<leftarrow> db_agents d, f \<leftarrow> db_fts d, fr_id f = ar_id r,
                                        k \<leftarrow> (case rank f of None \<Rightarrow> [] | Some k \<Rightarrow> [k])]
                 in if list_ex (\<lambda>p. row_fails q (snd p)) matched then None
                    else Some (map snd (sort_key (\<lambda>(k, r). (k, ar_id r))
                                 (filter (\<lambda>p. row_selected q (snd p)) matched))))))"

definition query_agents :: "agent_row list \<Rightarrow> (search_error, agent list) result" where
  "query_agents rows = (case collect scan_agent rows of Inl e \<Rightarrow> Inl (ScanRowFailed e) | Inr as \<Rightarrow> Inr as)"

text \<open>\<open>SELECT COUNT(*)\<close> over the same rows.\<close>

definition count_rows :: "('r::linorder) fts_engine \<Rightarrow> search_query \<Rightarrow> db \<Rightarrow> (search_error, int) result" where
  "count_rows fts q d =
     (case query_rows fts q d of None \<Rightarrow> Inl SearchQueryFailed | Some rows \<Rightarrow> Inr (int (length rows)))"

text \<open>A negative limit or offset never arises here; the driver would read it as no limit and as zero.\<close>

definition page_offset :: "search_query \<Rightarrow> int" where
  "page_offset q = wrap64 ((effective_page q - 1) * clamp_size (q_page_size q))"

definition search_index ::
  "('r::linorder) fts_engine \<Rightarrow> search_query \<Rightarrow> db \<Rightarrow> (search_error, search_page) result" where
  "search_index fts q d =
     (let page = effective_page q; psize = clamp_size (q_page_size q); offset = page_offset q
      in case query_rows fts q d of
           None \<Rightarrow> Inl SearchQueryFailed
         | Some rows \<Rightarrow>
             try_bind (query_agents (take (nat (psize + 1)) (drop (nat offset) rows))) (\<lambda>items.
               let has_next = psize < int (length items);
                   items' = (if has_next then take (nat psize) items else items);
                   prev = (if 1 < page then encode_token (page - 1) else []);
                   next = (if has_next then encode_token (page + 1) else [])
               in if q_total_required q then
                    try_bind (count_rows fts q d) (\<lambda>total.
                      Inr \<lparr>sp_items = items', sp_total_items = total,
                           sp_total_pages = (total + psize - 1) div psize,
                           sp_prev_token = prev, sp_next_token = next\<rparr>)
                  else Inr \<lparr>sp_items = items', sp_total_items = 0, sp_total_pages = 0,
                            sp_prev_token = prev, sp_next_token = next\<rparr>))"

end
