(* ===== verification/SearchSvc.thy ===== *)
theory SearchSvc
  imports SearchIndex Engine Web
begin

text \<open>
  The read API (\<open>internal/search\<close>): query parameters and request bodies turned into a search
  query, the service over the index, the store and the scoring engine, the handlers, the
  pagination links, and the response shapes.  A response body is the value handed to the JSON
  encoder.
\<close>

section \<open>Errors (errors.go)\<close>

definition CodeNotFound :: string where "CodeNotFound = ''AGENT_NOT_FOUND''"
definition CodeBadRequest :: string where "CodeBadRequest = ''INVALID_REQUEST''"
definition CodeInvalidValue :: string where "CodeInvalidValue = ''INVALID_VALUE''"
definition CodeUnknownProfile :: string where "CodeUnknownProfile = ''UNKNOWN_PROFILE''"

definition err_no_such_agent :: "agent_id \<Rightarrow> web_error" where
  "err_no_such_agent i = new_error 404 CodeNotFound [Lit ''agent '', Quoted i, Lit '' not found'']"

definition err_unknown_profile :: "string \<Rightarrow> web_error" where
  "err_unknown_profile name =
     new_error 422 CodeUnknownProfile [Lit ''unknown scoring profile '', Quoted name]"

definition err_bad_request :: "message \<Rightarrow> web_error" where
  "err_bad_request detail = new_error 400 CodeBadRequest detail"

definition err_invalid_value :: "message \<Rightarrow> web_error" where
  "err_invalid_value detail = new_error 422 CodeInvalidValue detail"

section \<open>Query parameters (params.go)\<close>

type_synonym 'a parsed = "(web_error, 'a) result"

definition max_filter_entries :: nat where "max_filter_entries = 100"

fun parse_statuses :: "string list \<Rightarrow> status list parsed" where
  "parse_statuses [] = Inr []"
| "parse_statuses (s # ss) =
     (if \<not> status_valid s
      then Inl (err_invalid_value [Lit ''status '', Quoted s,
             Lit '' is not one of ACTIVE|WARNING|DEPRECATED|EXPIRED|REVOKED''])
      else try_bind (parse_statuses ss) (\<lambda>r. Inr (s # r)))"

definition parse_int_param :: "url_values \<Rightarrow> string \<Rightarrow> int parsed" where
  "parse_int_param vs key =
     (let raw = values_get vs key
      in if raw = [] then Inr 0
         else case atoi raw of
                None \<Rightarrow> Inl (err_bad_request [Lit key, Lit '' '', Quoted raw, Lit '' is not an integer''])
              | Some n \<Rightarrow> Inr n)"

text \<open>\<open>strconv.ParseBool\<close>\<close>

definition parse_bool :: "string \<Rightarrow> bool option" where
  "parse_bool s =
     (if s \<in> {''1'', ''t'', ''T'', ''TRUE'', ''true'', ''True''} then Some True
      else if s \<in> {''0'', ''f'', ''F'', ''FALSE'', ''false'', ''False''} then Some False else None)"

definition parse_bool_param :: "url_values \<Rightarrow> string \<Rightarrow> bool parsed" where
  "parse_bool_param vs key =
     (let raw = values_get vs key
      in if raw = [] then Inr False
         else case parse_bool raw of
                None \<Rightarrow> Inl (err_bad_request [Lit key, Lit '' '', Quoted raw, Lit '' is not a boolean''])
              | Some b \<Rightarrow> Inr b)"

definition validate_direction :: "string \<Rightarrow> unit parsed" where
  "validate_direction dir =
     ensure (dir \<in> {[], ''forward'', ''backward''})
       (err_invalid_value [Lit ''pageTokenDirection '', Quoted dir, Lit '' must be forward or backward''])"

definition filter_counts :: "search_query \<Rightarrow> (string \<times> nat) list" where
  "filter_counts q =
     [(''providerIds'', length (q_providers q)), (''statuses'', length (q_statuses q)),
      (''agentDomains'', length (q_domains q)), (''protocols'', length (q_protocols q)),
      (''transports'', length (q_transports q)), (''tags'', length (q_tags q)),
      (''capabilities'', length (q_capabilities q))]"

definition validate_filter_counts :: "search_query \<Rightarrow> unit parsed" where
  "validate_filter_counts q =
     (case find (\<lambda>f. snd f > max_filter_entries) (filter_counts q) of
        None \<Rightarrow> Inr ()
      | Some f \<Rightarrow> Inl (err_invalid_value [Lit (fst f), Lit '' has '', Num (int (snd f)),
                   Lit '' entries; the per-filter limit is '', Num (int max_filter_entries)]))"

definition parse_search_query :: "url_values \<Rightarrow> search_query parsed" where
  "parse_search_query vs =
     try_bind (parse_statuses (values_all vs ''statuses'')) (\<lambda>statuses.
     try_bind (parse_int_param vs ''pageSize'') (\<lambda>psize.
     try_bind (parse_int_param vs ''page'') (\<lambda>page.
     try_bind (parse_bool_param vs ''totalRequired'') (\<lambda>total.
     let q = \<lparr>q_text = values_get vs ''query'', q_providers = values_all vs ''providerIds'',
              q_statuses = statuses, q_domains = values_all vs ''agentDomains'',
              q_protocols = values_all vs ''protocols'', q_transports = values_all vs ''transports'',
              q_tags = values_all vs ''tags'', q_capabilities = values_all vs ''capabilities'',
              q_page = page, q_page_size = psize, q_page_token = values_get vs ''pageToken'',
              q_token_direction = values_get vs ''pageTokenDirection'', q_total_required = total\<rparr>
     in try_bind (validate_direction (q_token_direction q)) (\<lambda>_.
        try_bind (validate_filter_counts q) (\<lambda>_. Inr q))))))"

record search_request_dto =
  sr_query :: string
  sr_page_size :: int
  sr_page :: int
  sr_total_required :: bool
  sr_providers :: "string list"
  sr_statuses :: "string list"
  sr_domains :: "string list"
  sr_protocols :: "string list"
  sr_transports :: "string list"
  sr_tags :: "string list"
  sr_capabilities :: "string list"

definition zero_search_request :: search_request_dto where
  "zero_search_request =
     \<lparr>sr_query = [], sr_page_size = 0, sr_page = 0, sr_total_required = False, sr_providers = [],
      sr_statuses = [], sr_domains = [], sr_protocols = [], sr_transports = [], sr_tags = [],
      sr_capabilities = []\<rparr>"

definition search_request_fields :: "(string \<times> search_request_dto field_decoder) list" where
  "search_request_fields =
     [(''query'', \<lambda>j r. map_option (\<lambda>s. r\<lparr>sr_query := s\<rparr>) (string_value j (sr_query r))),
      (''pageSize'', \<lambda>j r. map_option (\<lambda>n. r\<lparr>sr_page_size := n\<rparr>) (int_value j (sr_page_size r))),
      (''page'', \<lambda>j r. map_option (\<lambda>n. r\<lparr>sr_page := n\<rparr>) (int_value j (sr_page r))),
      (''totalRequired'', \<lambda>j r. map_option (\<lambda>b. r\<lparr>sr_total_required := b\<rparr>) (bool_value j (sr_total_required r))),
      (''providerIds'', \<lambda>j r. map_option (\<lambda>s. r\<lparr>sr_providers := s\<rparr>) (strings_value j (sr_providers r))),
      (''statuses'', \<lambda>j r. map_option (\<lambda>s. r\<lparr>sr_statuses := s\<rparr>) (strings_value j (sr_statuses r))),
      (''agentDomains'', \<lambda>j r. map_option (\<lambda>s. r\<lparr>sr_domains := s\<rparr>) (strings_value j (sr_domains r))),
      (''protocols'', \<lambda>j r. map_option (\<lambda>s. r\<lparr>sr_protocols := s\<rparr>) (strings_value j (sr_protocols r))),
      (''transports'', \<lambda>j r. map_option (\<lambda>s. r\<lparr>sr_transports := s\<rparr>) (strings_value j (sr_transports r))),
      (''tags'', \<lambda>j r. map_option (\<lambda>s. r\<lparr>sr_tags := s\<rparr>) (strings_value j (sr_tags r))),
      (''capabilities'', \<lambda>j r. map_option (\<lambda>s. r\<lparr>sr_capabilities := s\<rparr>) (strings_value j (sr_capabilities r)))]"

definition request_to_query :: "search_request_dto \<Rightarrow> search_query parsed" where
  "request_to_query d =
     try_bind (parse_statuses (sr_statuses d)) (\<lambda>statuses.
       let q = \<lparr>q_text = sr_query d, q_providers = sr_providers d, q_statuses = statuses,
                q_domains = sr_domains d, q_protocols = sr_protocols d,
                q_transports = sr_transports d, q_tags = sr_tags d,
                q_capabilities = sr_capabilities d, q_page = sr_page d,
                q_page_size = sr_page_size d, q_page_token = [], q_token_direction = [],
                q_total_required = sr_total_required d\<rparr>
       in try_bind (validate_filter_counts q) (\<lambda>_. Inr q))"

section \<open>The service (service.go)\<close>

type_synonym evaluator = "agent \<Rightarrow> scoring_profile \<Rightarrow> (message, trust_evaluation) result"

record 'p search_service =
  ss_index :: "search_query \<Rightarrow> ('p, search_page) result"
  ss_get_agent :: "agent_id \<Rightarrow> ('p, agent option) result"
  ss_engine :: evaluator
  ss_profiles :: "string \<rightharpoonup> scoring_profile"

definition default_profile_name :: string where
  "default_profile_name = ''default''"

definition service_search :: "'p search_service \<Rightarrow> search_query \<Rightarrow> (app_error, search_page) result" where
  "service_search s q =
     (case ss_index s q of
        Inl e \<Rightarrow> Inl (Internal [Lit ''search: index query: '', Cause ''sqlitestore''])
      | Inr page \<Rightarrow> Inr page)"

definition service_detail ::
  "'p search_service \<Rightarrow> agent_id \<Rightarrow> string \<Rightarrow> (app_error, agent \<times> trust_evaluation) result" where
  "service_detail s i profile_name =
     (let name = (if profile_name = [] then default_profile_name else profile_name)
      in case ss_profiles s name of
           None \<Rightarrow> Inl (Typed (err_unknown_profile name))
         | Some profile \<Rightarrow>
             (case ss_get_agent s i of
                Inl e \<Rightarrow> Inl (Internal [Lit ''search: get agent '', Quoted i, Lit '': '', Cause ''sqlitestore''])
              | Inr None \<Rightarrow> Inl (Typed (err_no_such_agent i))
              | Inr (Some a) \<Rightarrow>
                  (case ss_engine s a profile of
                     Inl e \<Rightarrow> Inl (Internal ([Lit ''search: evaluate agent '', Quoted i, Lit '': ''] @ e))
                   | Inr ev \<Rightarrow> Inr (a, ev))))"

section \<open>Response shapes (dto.go)\<close>

text \<open>A field that the encoder omits when empty is kept here as it is; a null one is \<open>None\<close>.\<close>

record registered_agent_dto =
  ra_id :: string
  ra_dns_name :: string
  ra_display_name :: string
  ra_description :: string
  ra_provider :: string
  ra_status :: string
  ra_protocols :: "string list"
  ra_transports :: "string list"
  ra_tags :: "string list"
  ra_capabilities :: "string list"
  ra_first_seen :: string
  ra_last_updated :: string

definition new_registered_agent_dto :: "agent \<Rightarrow> registered_agent_dto" where
  "new_registered_agent_dto a =
     \<lparr>ra_id = a_id a, ra_dns_name = a_dns_name a, ra_display_name = a_display_name a,
      ra_description = a_description a, ra_provider = a_provider a, ra_status = a_status a,
      ra_protocols = a_protocols a, ra_transports = a_transports a, ra_tags = a_tags a,
      ra_capabilities = a_capabilities a, ra_first_seen = format_rfc3339 (a_first_seen a),
      ra_last_updated = format_rfc3339 (a_last_updated a)\<rparr>"

record link_dto =
  ln_rel :: string
  ln_method :: string
  ln_href :: string

record search_results_dto =
  rd_items :: "registered_agent_dto list"
  rd_links :: "link_dto list"
  rd_total_items :: "int option"
  rd_total_pages :: "int option"

definition new_search_results_dto ::
  "registered_agent_dto list \<Rightarrow> link_dto list \<Rightarrow> search_page \<Rightarrow> bool \<Rightarrow> search_results_dto" where
  "new_search_results_dto items links page total_required =
     \<lparr>rd_items = items, rd_links = links,
      rd_total_items = (if total_required then Some (sp_total_items page) else None),
      rd_total_pages = (if total_required then Some (sp_total_pages page) else None)\<rparr>"

record trust_vector_dto =
  vd_integrity :: int
  vd_identity :: int
  vd_solvency :: int
  vd_behavior :: int
  vd_safety :: int

record signal_score_dto =
  sd_signal :: string
  sd_raw :: int
  sd_weight :: f64
  sd_attestation :: string
  sd_explanation :: message
  sd_provenance :: "(string \<times> string) option"

record dimension_score_dto =
  dd_dimension :: string
  dd_score :: int
  dd_signals :: "signal_score_dto list"

record trust_evaluation_dto =
  td_agent :: string
  td_time :: string
  td_vector :: trust_vector_dto
  td_profile :: string
  td_tier :: "string option"
  td_risks :: "string list"
  td_scoring_profile :: string
  td_dimensions :: "dimension_score_dto list"

record agent_detail_dto =
  de_agent :: registered_agent_dto
  de_evaluation :: trust_evaluation_dto

text \<open>The provenance is the pair of \<open>aimId\<close> and \<open>evidenceUrl\<close>.\<close>

definition new_signal_score_dto :: "signal_score \<Rightarrow> signal_score_dto" where
  "new_signal_score_dto s =
     \<lparr>sd_signal = s_signal s, sd_raw = s_raw s, sd_weight = s_weight s,
      sd_attestation = attestation_string (s_attestation s), sd_explanation = s_explanation s,
      sd_provenance = map_option (\<lambda>p. (p_aim_id p, p_evidence_url p)) (s_provenance s)\<rparr>"

definition new_dimension_score_dto :: "dimension_score \<Rightarrow> dimension_score_dto" where
  "new_dimension_score_dto d =
     \<lparr>dd_dimension = d_dimension d, dd_score = d_score d,
      dd_signals = map new_signal_score_dto (d_signals d)\<rparr>"

definition new_trust_evaluation_dto :: "trust_evaluation \<Rightarrow> trust_evaluation_dto" where
  "new_trust_evaluation_dto e =
     \<lparr>td_agent = e_agent e, td_time = format_rfc3339 (e_time e),
      td_vector = \<lparr>vd_integrity = tv_integrity (e_vector e), vd_identity = tv_identity (e_vector e),
        vd_solvency = tv_solvency (e_vector e), vd_behavior = tv_behavior (e_vector e),
        vd_safety = tv_safety (e_vector e)\<rparr>,
      td_profile = profile_string (e_profile e),
      td_tier = (if e_tier e = TierUnset then None else Some (tier_string (e_tier e))),
      td_risks = e_risks e, td_scoring_profile = e_scoring_profile e,
      td_dimensions = map new_dimension_score_dto (e_dimensions e)\<rparr>"

section \<open>Links (handler.go)\<close>

definition search_base_path :: string where
  "search_base_path = ''/v1/ans/registered-agents''"

definition add_all :: "string \<Rightarrow> string list \<Rightarrow> url_values \<Rightarrow> url_values" where
  "add_all key vals vs = fold (values_add key) vals vs"

definition query_values :: "search_query \<Rightarrow> url_values" where
  "query_values q =
     (let v0 = [];
          v1 = (if q_text q \<noteq> [] then values_set ''query'' (q_text q) v0 else v0);
          v2 = (if 0 < q_page_size q then values_set ''pageSize'' (decimal (q_page_size q)) v1 else v1);
          v3 = (if 0 < q_page q then values_set ''page'' (decimal (q_page q)) v2 else v2);
          v4 = (if q_page_token q \<noteq> [] then values_set ''pageToken'' (q_page_token q) v3 else v3);
          v5 = (if q_total_required q then values_set ''totalRequired'' ''true'' v4 else v4)
      in add_all ''capabilities'' (q_capabilities q)
        (add_all ''tags'' (q_tags q)
        (add_all ''transports'' (q_transports q)
        (add_all ''protocols'' (q_protocols q)
        (add_all ''agentDomains'' (q_domains q)
        (add_all ''statuses'' (q_statuses q)
        (add_all ''providerIds'' (q_providers q) v5)))))))"

definition href_for :: "search_query \<Rightarrow> string \<Rightarrow> string" where
  "href_for q page_token =
     (let v = query_values q;
          v' = (if page_token \<noteq> [] then values_del ''page'' (values_set ''pageToken'' page_token v) else v);
          enc = encode_values v'
      in if enc = [] then search_base_path else search_base_path @ ''?'' @ enc)"

definition build_links :: "search_query \<Rightarrow> search_page \<Rightarrow> link_dto list" where
  "build_links q page =
     [\<lparr>ln_rel = ''self'', ln_method = ''GET'', ln_href = href_for q []\<rparr>]
     @ (if sp_prev_token page \<noteq> []
        then [\<lparr>ln_rel = ''prev'', ln_method = ''GET'', ln_href = href_for q (sp_prev_token page)\<rparr>] else [])
     @ (if sp_next_token page \<noteq> []
        then [\<lparr>ln_rel = ''next'', ln_method = ''GET'', ln_href = href_for q (sp_next_token page)\<rparr>] else [])"

section \<open>The handlers (handler.go)\<close>

datatype search_answer =
    Results search_results_dto
  | Details agent_detail_dto
  | Plain string

definition run_search :: "'p search_service \<Rightarrow> search_query \<Rightarrow> search_answer response" where
  "run_search s q =
     (case service_search s q of
        Inl e \<Rightarrow> write_problem e
      | Inr page \<Rightarrow>
          write_json 200 (Results (new_search_results_dto (map new_registered_agent_dto (sp_items page))
            (build_links q page) page (q_total_required q))))"

text \<open>The query string is the part of the request URI behind the question mark.\<close>

definition search_by_query :: "'p search_service \<Rightarrow> string \<Rightarrow> search_answer response" where
  "search_by_query s raw_query =
     (case parse_search_query (parse_query raw_query) of
        Inl e \<Rightarrow> write_problem (Typed e)
      | Inr q \<Rightarrow> run_search s q)"

definition search_by_body :: "'p search_service \<Rightarrow> string \<Rightarrow> search_answer response" where
  "search_by_body s body =
     (case decode_strict search_request_fields zero_search_request body of
        None \<Rightarrow> write_problem (Typed (err_bad_request
                  [Lit ''request body is not valid JSON: '', Cause ''json'']))
      | Some d \<Rightarrow>
          (case request_to_query d of
             Inl e \<Rightarrow> write_problem (Typed e)
           | Inr q \<Rightarrow> run_search s q))"

definition detail_handler :: "'p search_service \<Rightarrow> agent_id \<Rightarrow> string \<Rightarrow> search_answer response" where
  "detail_handler s i raw_query =
     (if i = [] then write_problem (Typed (err_bad_request [Lit ''agentId is required'']))
      else case service_detail s i (values_get (parse_query raw_query) ''profile'') of
             Inl e \<Rightarrow> write_problem e
           | Inr (a, ev) \<Rightarrow>
               write_json 200 (Details \<lparr>de_agent = new_registered_agent_dto a,
                 de_evaluation = new_trust_evaluation_dto ev\<rparr>))"

definition health :: "search_answer response" where
  "health = \<lparr>rs_status = 200, rs_content_type = ''text/plain; charset=utf-8'', rs_body = Inr (Plain ''ok'')\<rparr>"

end
