(* ===== verification/SearchFacts.thy ===== *)
theory SearchFacts
  imports SearchIndex StoreFacts
begin

text \<open>
  What the search index promises: page tokens round trip and page numbers stay in bounds;
  user text can neither form a wildcard nor leave its quoted phrase; the selected rows are
  those of the agents that satisfy the filters; a page is a slice of one fixed order, and
  following the next tokens visits every selected agent exactly once.
\<close>

section \<open>Page numbers and tokens\<close>

lemma atoi_decimal: "0 \<le> n \<Longrightarrow> n < 2 ^ 63 \<Longrightarrow> atoi (decimal n) = Some n"
  by (simp add: decimal_def atoi_itoa)

lemma decode_encode_token:
  assumes "1 \<le> p" and "p < 2 ^ 63"
  shows "decode_token (encode_token p) = Some p"
  using assms by (simp add: decode_token_def encode_token_def b64_decode_encode atoi_decimal)

lemma encode_token_nonempty: "encode_token p \<noteq> []"
proof
  assume "encode_token p = []"
  then have "b64_decode [] = Some (token_prefix @ decimal p)"
    using b64_decode_encode [of "token_prefix @ decimal p"] by (simp add: encode_token_def)
  then show False by (simp add: b64_decode_def token_prefix_def)
qed

lemma decode_token_positive: "decode_token t = Some p \<Longrightarrow> 1 \<le> p"
  by (auto simp: decode_token_def split: option.splits if_splits)

lemma effective_page_bounds: "1 \<le> effective_page q" "effective_page q \<le> max_page"
  using decode_token_positive
  by (auto simp: effective_page_def max_page_def Let_def split: option.splits)

lemma clamp_size_bounds: "1 \<le> clamp_size n" "clamp_size n \<le> max_page_size"
  by (simp_all add: clamp_size_def default_page_size_def max_page_size_def)

lemma page_offset_exact:
  "page_offset q = (effective_page q - 1) * clamp_size (q_page_size q)"
  "0 \<le> page_offset q" "page_offset q \<le> 9999900"
proof -
  let ?p = "effective_page q" and ?n = "clamp_size (q_page_size q)"
  have p: "0 \<le> ?p - 1" "?p - 1 \<le> 99999" "0 \<le> ?n" "?n \<le> 100"
    using effective_page_bounds [of q] clamp_size_bounds [of "q_page_size q"]
    by (simp_all add: max_page_def max_page_size_def)
  then have "0 \<le> (?p - 1) * ?n" "(?p - 1) * ?n \<le> 99999 * 100"
    by (simp, intro mult_mono) simp_all
  then show "page_offset q = (?p - 1) * ?n" "0 \<le> page_offset q" "page_offset q \<le> 9999900"
    by (simp_all add: page_offset_def wrap64_id in_int64_def)
qed

section \<open>LIKE with the escaped text\<close>

text \<open>The text contains the value up to the case of ASCII letters, both read as SQLite reads them.  A
  value with a NUL byte loses the closing wildcard, so it has to end the text.\<close>

definition contains_fold :: "string \<Rightarrow> string \<Rightarrow> bool" where
  "contains_fold s v \<longleftrightarrow>
     (\<exists>a b. map fold_code (sqlite_codes s) = a @ map fold_code (sqlite_codes v) @ b
        \<and> (CHR 0x00 \<in> set v \<longrightarrow> b = []))"

definition escape_codes :: "nat list \<Rightarrow> nat list" where
  "escape_codes cs = concat (map (\<lambda>c. if c \<in> {92, 37, 95} then [92, c] else [c]) cs)"

lemma sqlite_codes_Nil [simp]: "sqlite_codes [] = []"
  by (simp add: sqlite_codes.simps)

lemma sqlite_codes_Cons:
  "sqlite_codes (c # r) =
     (if c = CHR 0x00 then [] else if ord c < 192 then ord c # sqlite_codes r
      else wide_code c (takeWhile continuation r) # sqlite_codes (dropWhile continuation r))"
  by (subst sqlite_codes.simps) simp

lemma wide_code_ge: "128 \<le> wide_code c cs"
  by (simp add: wide_code_def Let_def)

lemma escape_like_continuation:
  "takeWhile continuation (escape_like v @ ''%'') = takeWhile continuation v"
  "dropWhile continuation (escape_like v @ ''%'') = escape_like (dropWhile continuation v) @ ''%''"
  by (induction v) (auto simp: continuation_def)

lemma ord_eq_code: "ord c = 92 \<longleftrightarrow> c = CHR 0x5C" "ord c = 37 \<longleftrightarrow> c = CHR ''%''" "ord c = 95 \<longleftrightarrow> c = CHR ''_''"
  using of_char_eq_iff [where ?'a = nat, of c "CHR 0x5C"] of_char_eq_iff [where ?'a = nat, of c "CHR ''%''"]
    of_char_eq_iff [where ?'a = nat, of c "CHR ''_''"]
  by simp_all

text \<open>Escaping and reading commute, up to the NUL byte that ends the pattern.\<close>

lemma sqlite_codes_escape:
  "sqlite_codes (escape_like v @ ''%'')
     = escape_codes (sqlite_codes v) @ (if CHR 0x00 \<in> set v then [] else [37])"
proof (induction v rule: length_induct)
  case (1 v)
  show ?case
  proof (cases v)
    case Nil
    then show ?thesis by (simp add: sqlite_codes_Cons escape_codes_def)
  next
    case (Cons c r)
    have ih: "sqlite_codes (escape_like r @ ''%'')
        = escape_codes (sqlite_codes r) @ (if CHR 0x00 \<in> set r then [] else [37])"
      using 1 Cons by simp
    show ?thesis
    proof (cases "ord c < 192")
      case True
      then show ?thesis using ih unfolding Cons
        by (auto simp: sqlite_codes_Cons escape_codes_def ord_eq_code)
    next
      case False
      let ?r = "dropWhile continuation r"
      have "length ?r < length v" using Cons length_dropWhile_le [of continuation r] by simp
      then have "sqlite_codes (escape_like ?r @ ''%'')
          = escape_codes (sqlite_codes ?r) @ (if CHR 0x00 \<in> set ?r then [] else [37])"
        using 1 by blast
      moreover have "CHR 0x00 \<in> set ?r \<longleftrightarrow> CHR 0x00 \<in> set r"
        by (induction r) (auto simp: continuation_def)
      moreover have "wide_code c (takeWhile continuation r) \<notin> {92, 37, 95}"
        using wide_code_ge [of c "takeWhile continuation r"] by auto
      moreover have "c \<noteq> CHR 0x00" "c \<notin> {CHR 0x5C, CHR ''%'', CHR ''_''}" using False by auto
      ultimately show ?thesis using False unfolding Cons
        by (simp add: sqlite_codes_Cons escape_codes_def escape_like_continuation)
    qed
  qed
qed

lemma like_percent_only: "like_codes [37] s"
  by (induction s) simp_all

lemma like_escaped:
  "like_codes (escape_codes v @ (if e then [] else [37])) s
     \<longleftrightarrow> (\<exists>b. map fold_code s = map fold_code v @ b \<and> (e \<longrightarrow> b = []))"
proof (induction v arbitrary: s)
  case Nil
  show ?case using like_percent_only by (simp add: escape_codes_def)
next
  case (Cons c v)
  show ?case
  proof (cases s)
    case Nil
    then show ?thesis by (auto simp: escape_codes_def)
  next
    case (Cons d s')
    then show ?thesis using Cons.IH [of s'] by (auto simp: escape_codes_def)
  qed
qed

lemma infix_Cons:
  assumes "P []"
  shows "(\<exists>a b. xs = a @ m @ b \<and> P b) \<longleftrightarrow>
    (\<exists>b. xs = m @ b \<and> P b) \<or> (xs \<noteq> [] \<and> (\<exists>a b. tl xs = a @ m @ b \<and> P b))"
proof (intro iffI)
  assume "\<exists>a b. xs = a @ m @ b \<and> P b"
  then obtain a b where e: "xs = a @ m @ b" "P b" by blast
  then show "(\<exists>b. xs = m @ b \<and> P b) \<or> (xs \<noteq> [] \<and> (\<exists>a b. tl xs = a @ m @ b \<and> P b))"
    by (cases a) auto
next
  assume "(\<exists>b. xs = m @ b \<and> P b) \<or> (xs \<noteq> [] \<and> (\<exists>a b. tl xs = a @ m @ b \<and> P b))"
  then show "\<exists>a b. xs = a @ m @ b \<and> P b"
  proof
    assume "\<exists>b. xs = m @ b \<and> P b"
    then obtain b where "xs = [] @ m @ b" "P b" by auto
    then show ?thesis by blast
  next
    assume "xs \<noteq> [] \<and> (\<exists>a b. tl xs = a @ m @ b \<and> P b)"
    then obtain x a b where "xs = (x # a) @ m @ b" "P b" by (cases xs) auto
    then show ?thesis by blast
  qed
qed

lemma like_infix:
  "like_codes (37 # escape_codes v @ (if e then [] else [37])) s
     \<longleftrightarrow> (\<exists>a b. map fold_code s = a @ map fold_code v @ b \<and> (e \<longrightarrow> b = []))"
proof (induction s)
  case Nil
  show ?case using like_escaped [of v e "[]"] by auto
next
  case (Cons c s)
  show ?case
    using Cons like_escaped [of v e "c # s"]
    by (subst infix_Cons) auto
qed

lemma like_contains:
  "length (domain_pattern v) \<le> max_like_pattern \<Longrightarrow> like (domain_pattern v) s = Some (contains_fold s v)"
  by (simp add: like_def domain_pattern_def sqlite_codes_Cons sqlite_codes_escape like_infix contains_fold_def
      del: like_codes.simps)

text \<open>A value that starts with a NUL byte is the pattern \<open>%\<close>.\<close>

lemma nul_domain_selects_all:
  "like (domain_pattern [CHR 0x00]) s = Some True"
proof -
  have "length (domain_pattern [CHR 0x00]) \<le> max_like_pattern"
    by (simp add: domain_pattern_def max_like_pattern_def)
  from like_contains [OF this, of s] show ?thesis by (simp add: contains_fold_def sqlite_codes_Cons)
qed

section \<open>Quoted phrases\<close>

text \<open>How FTS5 reads a string token: up to a quote that is not doubled.\<close>

fun read_quoted :: "string \<Rightarrow> (string \<times> string) option" where
  "read_quoted [] = None"
| "read_quoted (c # s) =
     (if c = CHR 0x22 then
        (case s of
           d # r \<Rightarrow> if d = CHR 0x22 then map_option (\<lambda>(p, t). (CHR 0x22 # p, t)) (read_quoted r)
                    else Some ([], s)
         | [] \<Rightarrow> Some ([], []))
      else map_option (\<lambda>(p, t). (c # p, t)) (read_quoted s))"

text \<open>An expression that is a sequence of string tokens and nothing else, and their contents.\<close>

fun read_phrases :: "nat \<Rightarrow> string \<Rightarrow> string list option" where
  "read_phrases 0 s = None"
| "read_phrases (Suc n) s =
     (case s of
        [] \<Rightarrow> Some []
      | c # r \<Rightarrow>
          if c = CHR '' '' then read_phrases n r
          else if c = CHR 0x22 then
            (case read_quoted r of None \<Rightarrow> None | Some (p, t) \<Rightarrow> map_option (Cons p) (read_phrases n t))
          else None)"

lemma read_quoted_phrase:
  "(r = [] \<or> hd r \<noteq> CHR 0x22) \<Longrightarrow> read_quoted (double_quotes f @ CHR 0x22 # r) = Some (f, r)"
  by (induction f) (auto split: list.splits)

lemma read_phrases_join:
  "2 * length fs < n \<Longrightarrow> read_phrases n (join_with '' '' (map fts_phrase fs)) = Some fs"
proof (induction fs arbitrary: n)
  case Nil
  then show ?case by (cases n) simp_all
next
  case (Cons f fs)
  then obtain m where n: "n = Suc (Suc m)" "2 * length fs < m"
    by (cases n; cases "n - 1") auto
  show ?case
  proof (cases fs)
    case Nil
    then show ?thesis using n by (cases m) (simp_all add: fts_phrase_def read_quoted_phrase)
  next
    case (Cons g gs)
    then have "join_with '' '' (map fts_phrase (f # fs))
        = CHR 0x22 # double_quotes f @ CHR 0x22 # '' '' @ join_with '' '' (map fts_phrase fs)"
      by (simp add: fts_phrase_def)
    then show ?thesis using n Cons.IH [of m] by (simp add: read_quoted_phrase)
  qed
qed

lemma fts_match_phrases:
  "2 * length (strings_fields text) < n \<Longrightarrow> read_phrases n (fts_match text) = Some (strings_fields text)"
  using read_phrases_join [of "strings_fields text" n]
  by (cases n) (auto simp: fts_match_def Let_def)

lemma fts_match_empty: "fts_match text = [] \<longleftrightarrow> strings_fields text = []"
  by (cases "strings_fields text"; cases "tl (strings_fields text)")
    (auto simp: fts_match_def Let_def fts_phrase_def)

section \<open>Which agents are selected\<close>

text \<open>The filters on an agent, instead of on the columns of its row.\<close>

definition any_of :: "string list \<Rightarrow> string list \<Rightarrow> bool" where
  "any_of wanted have \<longleftrightarrow> wanted = [] \<or> list_ex (\<lambda>x. x \<in> set wanted) have"

definition agent_selected :: "search_query \<Rightarrow> agent \<Rightarrow> bool" where
  "agent_selected q a \<longleftrightarrow>
     in_clause (q_statuses q) (a_status a) \<and> in_clause (q_providers q) (a_provider a)
     \<and> any_of (q_protocols q) (a_protocols a) \<and> any_of (q_transports q) (a_transports a)
     \<and> any_of (q_tags q) (a_tags a) \<and> any_of (q_capabilities q) (a_capabilities a)
     \<and> (q_domains q = [] \<or> list_ex (contains_fold (a_dns_name a)) (q_domains q))"

text \<open>Filters whose patterns SQLite accepts.\<close>

definition domains_short :: "search_query \<Rightarrow> bool" where
  "domains_short q \<longleftrightarrow> list_all (\<lambda>v. length (domain_pattern v) \<le> max_like_pattern) (q_domains q)"

lemma like_any_contains:
  "list_all (\<lambda>v. length (domain_pattern v) \<le> max_like_pattern) vals
   \<Longrightarrow> like_any vals dns = Some (list_ex (contains_fold dns) vals)"
  by (induction vals) (auto simp: like_contains split: bool.split)

lemma domain_clause_contains:
  "domains_short q \<Longrightarrow>
   domain_clause (q_domains q) dns = Some (q_domains q = [] \<or> list_ex (contains_fold dns) (q_domains q))"
  by (auto simp: domain_clause_def domains_short_def like_any_contains)

lemma domains_short_never_fail: "domains_short q \<Longrightarrow> \<not> row_fails q r"
  by (simp add: row_fails_def domain_clause_contains)

lemma parse_marshal_strings:
  assumes "list_all utf8_valid ss"
  shows "parse_json (marshal_strings ss) = Some (JArr (map JStr ss))"
proof (cases "ss = []")
  case True
  have "parse_json ''[]'' = Some (JArr [])" by code_simp
  with True show ?thesis by (simp add: marshal_strings_def)
next
  case False
  have "plain_json 0 (JArr (map JStr ss))"
    using assms by (simp add: max_nesting_def list_all_iff)
  then have "parse_json (marshal (JArr (map JStr ss))) = Some (JArr (map JStr ss))"
    by (rule parse_json_marshal)
  with False show ?thesis by (simp add: marshal_strings_def del: marshal.simps)
qed

lemma json_any_clause_column:
  "list_all utf8_valid ss \<Longrightarrow> json_any_clause vals (marshal_strings ss) = any_of vals ss"
  by (simp add: json_any_clause_def any_of_def parse_marshal_strings list_ex_iff)

lemma row_selected_agent:
  "storable_agent a \<Longrightarrow> domains_short q \<Longrightarrow> row_selected q (row_of_agent a) \<longleftrightarrow> agent_selected q a"
  by (simp add: row_selected_def agent_selected_def row_of_agent_def storable_agent_def
      json_any_clause_column domain_clause_contains)

section \<open>Pages\<close>

lemma row_selected_token [simp]:
  "row_selected (q\<lparr>q_page_token := t\<rparr>) = row_selected q"
  by (simp add: row_selected_def fun_eq_iff)

lemma row_fails_token [simp]:
  "row_fails (q\<lparr>q_page_token := t\<rparr>) = row_fails q"
  by (simp add: row_fails_def fun_eq_iff)

lemma query_rows_token [simp]:
  "query_rows fts (q\<lparr>q_page_token := t\<rparr>) d = query_rows fts q d"
  unfolding query_rows_def row_selected_token row_fails_token by simp

lemma length_window:
  "0 \<le> k \<Longrightarrow> 1 \<le> n \<Longrightarrow>
   int (length (take (nat (n + 1)) (drop (nat k) xs))) = min (n + 1) (max 0 (int (length xs) - k))"
  by (simp add: min_def max_def) linarith

lemma window_all:
  assumes "0 \<le> k" and "1 \<le> n" and "\<not> k + n < int (length xs)"
  shows "take (nat (n + 1)) (drop (nat k) xs) = take (nat n) (drop (nat k) xs)"
proof -
  have "length (drop (nat k) xs) \<le> nat n" using assms by simp
  then show ?thesis by simp
qed

lemma collect_slice:
  "collect f xs = Inr ys \<Longrightarrow> collect f (take k (drop m xs)) = Inr (take k (drop m ys))"
  by (auto simp: collect_Inr_iff intro: list_all2_takeI list_all2_dropI)

lemma search_index_slice:
  assumes rows: "query_rows fts q d = Some rows" and as: "collect scan_agent rows = Inr as"
    and p: "p = effective_page q" and n: "n = clamp_size (q_page_size q)"
  shows "search_index fts q d = Inr
    \<lparr>sp_items = take (nat n) (drop (nat ((p - 1) * n)) as),
     sp_total_items = (if q_total_required q then int (length as) else 0),
     sp_total_pages = (if q_total_required q then (int (length as) + n - 1) div n else 0),
     sp_prev_token = (if 1 < p then encode_token (p - 1) else []),
     sp_next_token = (if p * n < int (length as) then encode_token (p + 1) else [])\<rparr>"
proof -
  have len: "length rows = length as" using collect_length [OF as] by simp
  have b: "1 \<le> p" "1 \<le> n" using effective_page_bounds clamp_size_bounds by (simp_all add: p n)
  let ?o = "nat ((p - 1) * n)"
  have o: "page_offset q = (p - 1) * n" "0 \<le> (p - 1) * n"
    using page_offset_exact(1) b by (simp_all add: p n)
  have items: "query_agents (take (nat (n + 1)) (drop ?o rows)) = Inr (take (nat (n + 1)) (drop ?o as))"
    using collect_slice [OF as] by (simp add: query_agents_def)
  have e: "p * n = (p - 1) * n + n" by (simp add: left_diff_distrib)
  have "int (length (take (nat (n + 1)) (drop ?o as))) = min (n + 1) (max 0 (int (length as) - (p - 1) * n))"
    using o(2) b(2) by (rule length_window)
  then have more: "n < int (length (take (nat (n + 1)) (drop ?o as))) \<longleftrightarrow> p * n < int (length as)"
    using b unfolding e by linarith
  have cut: "(if n < int (length (take (nat (n + 1)) (drop ?o as)))
        then take (nat n) (take (nat (n + 1)) (drop ?o as)) else take (nat (n + 1)) (drop ?o as))
      = take (nat n) (drop ?o as)"
  proof (cases "p * n < int (length as)")
    case True
    then show ?thesis using b unfolding more by (simp add: min_def)
  next
    case False
    then show ?thesis
      unfolding more using window_all [OF o(2) b(2) False [unfolded e(1)]] by (simp only: if_False simp_thms)
  qed
  show ?thesis
    unfolding search_index_def Let_def rows option.case p [symmetric] n [symmetric] o(1) items
      try_bind.simps cut
    unfolding more
    by (simp add: count_rows_def rows len)
qed

text \<open>A client that follows the next tokens, at most \<open>fuel\<close> requests.\<close>

fun crawl :: "nat \<Rightarrow> ('r::linorder) fts_engine \<Rightarrow> search_query \<Rightarrow> db \<Rightarrow> agent list option" where
  "crawl 0 fts q d = None"
| "crawl (Suc fuel) fts q d =
     (case search_index fts q d of
        Inl e \<Rightarrow> None
      | Inr page \<Rightarrow>
          if sp_next_token page = [] then Some (sp_items page)
          else map_option (append (sp_items page))
                 (crawl fuel fts (q\<lparr>q_page_token := sp_next_token page\<rparr>) d))"

lemma effective_page_token:
  assumes "1 \<le> p" and "p \<le> max_page"
  shows "effective_page (q\<lparr>q_page_token := encode_token p\<rparr>) = p"
  using assms by (simp add: effective_page_def encode_token_nonempty decode_encode_token max_page_def)

lemma crawl_from:
  assumes "query_rows fts q d = Some rows" and "collect scan_agent rows = Inr as"
    and "p = effective_page q" and "n = clamp_size (q_page_size q)"
    and "int (length as) \<le> max_page * n" and "int (length as) \<le> (p - 1 + int fuel) * n" and "0 < fuel"
  shows "crawl fuel fts q d = Some (drop (nat ((p - 1) * n)) as)"
  using assms
proof (induction fuel arbitrary: q p)
  case (Suc fuel)
  let ?o = "nat ((p - 1) * n)"
  note s = search_index_slice [OF Suc.prems(1,2,3,4)]
  have b: "1 \<le> p" "1 \<le> n"
    using effective_page_bounds clamp_size_bounds by (simp_all add: Suc.prems(3,4))
  have e: "p * n = (p - 1) * n + n" "0 \<le> (p - 1) * n" using b by (simp_all add: left_diff_distrib)
  show ?case
  proof (cases "p * n < int (length as)")
    case False
    then have "take (nat n) (drop ?o as) = drop ?o as" using b e by simp
    then show ?thesis using False by (simp add: s)
  next
    case True
    then have "p * n < max_page * n" using Suc.prems(5) by linarith
    then have lt: "p < max_page" using b by simp
    let ?q = "q\<lparr>q_page_token := encode_token (p + 1)\<rparr>"
    have q: "p + 1 = effective_page ?q" using effective_page_token [of "p + 1" q] b lt by simp
    have "p * n < (p + int fuel) * n" using True Suc.prems(6) by simp
    then have f: "0 < fuel" using b by simp
    have "crawl fuel fts ?q d = Some (drop (nat ((p + 1 - 1) * n)) as)"
      using Suc.prems f q by (intro Suc.IH) simp_all
    moreover have "take (nat n) (drop ?o as) @ drop (nat (p * n)) as = drop ?o as"
      using append_take_drop_id [of "nat n" "drop ?o as"] b e
      by (simp add: nat_add_distrib add.commute)
    ultimately show ?thesis using True by (simp add: s encode_token_nonempty)
  qed
qed simp

end
