(* ===== verification/SearchSvcFacts.thy ===== *)
theory SearchSvcFacts
  imports SearchSvc SearchFacts
begin

text \<open>
  What the read API promises: an accepted query is well formed, its links lead back to the same
  query, and a client that follows the \<open>next\<close> links of the responses receives every agent
  that satisfies the filters exactly once, in the documented order.
\<close>

section \<open>Accepted queries\<close>

definition query_valid :: "search_query \<Rightarrow> bool" where
  "query_valid q \<longleftrightarrow>
     list_all status_valid (q_statuses q) \<and> (\<forall>f \<in> set (filter_counts q). snd f \<le> max_filter_entries)
     \<and> in_int64 (q_page q) \<and> in_int64 (q_page_size q)"

lemma parse_statuses_Inr_iff: "parse_statuses ss = Inr r \<longleftrightarrow> r = ss \<and> list_all status_valid ss"
  by (induction ss arbitrary: r) (auto simp: try_bind_Inr_iff)

lemma validate_filter_counts_Inr_iff:
  "validate_filter_counts q = Inr u \<longleftrightarrow> (\<forall>f \<in> set (filter_counts q). snd f \<le> max_filter_entries)"
proof -
  have "validate_filter_counts q = Inr u \<longleftrightarrow>
      find (\<lambda>f. snd f > max_filter_entries) (filter_counts q) = None"
    by (simp add: validate_filter_counts_def split: option.split)
  then show ?thesis by (simp add: find_None_iff not_less Ball_def)
qed

lemma parse_int_param_range: "parse_int_param vs k = Inr n \<Longrightarrow> in_int64 n"
  by (auto simp: parse_int_param_def Let_def in_int64_def split: if_splits option.splits
      dest!: atoi_in_int64)

lemma parse_search_query_valid: "parse_search_query vs = Inr q \<Longrightarrow> query_valid q"
  by (auto simp: parse_search_query_def Let_def try_bind_Inr_iff parse_statuses_Inr_iff
      validate_filter_counts_Inr_iff query_valid_def dest: parse_int_param_range)

lemma request_to_query_valid:
  "request_to_query r = Inr q \<Longrightarrow> in_int64 (sr_page r) \<Longrightarrow> in_int64 (sr_page_size r) \<Longrightarrow> query_valid q"
  by (auto simp: request_to_query_def Let_def try_bind_Inr_iff parse_statuses_Inr_iff
      validate_filter_counts_Inr_iff query_valid_def)

section \<open>Links\<close>

lemma add_all_append: "add_all key vals vs = vs @ map (Pair key) vals"
  by (induction vals arbitrary: vs) (auto simp: add_all_def values_add_def)

lemma values_all_set:
  "values_all (values_set k v vs) key = (if key = k then [v] else values_all vs key)"
  by (auto simp: values_set_def values_all_append values_all_del) (simp_all add: values_all_def)

lemma values_all_Nil [simp]: "values_all [] key = []"
  by (simp add: values_all_def)

lemmas values_simps = add_all_append values_all_append values_all_map_pair values_all_set values_all_del

lemma values_all_query:
  "values_all (query_values q) ''query'' = (if q_text q = [] then [] else [q_text q])"
  "values_all (query_values q) ''pageSize'' = (if 0 < q_page_size q then [decimal (q_page_size q)] else [])"
  "values_all (query_values q) ''page'' = (if 0 < q_page q then [decimal (q_page q)] else [])"
  "values_all (query_values q) ''pageToken'' = (if q_page_token q = [] then [] else [q_page_token q])"
  "values_all (query_values q) ''pageTokenDirection'' = []"
  "values_all (query_values q) ''totalRequired'' = (if q_total_required q then [''true''] else [])"
  "values_all (query_values q) ''providerIds'' = q_providers q"
  "values_all (query_values q) ''statuses'' = q_statuses q"
  "values_all (query_values q) ''agentDomains'' = q_domains q"
  "values_all (query_values q) ''protocols'' = q_protocols q"
  "values_all (query_values q) ''transports'' = q_transports q"
  "values_all (query_values q) ''tags'' = q_tags q"
  "values_all (query_values q) ''capabilities'' = q_capabilities q"
  by (simp_all add: query_values_def Let_def values_simps)

text \<open>The query a link stands for.\<close>

definition linked_query :: "search_query \<Rightarrow> string \<Rightarrow> search_query" where
  "linked_query q t =
     q\<lparr>q_page_token := (if t = [] then q_page_token q else t),
       q_page := (if t = [] then max 0 (q_page q) else 0),
       q_page_size := max 0 (q_page_size q), q_token_direction := []\<rparr>"

lemma decimal_param:
  assumes "in_int64 n"
  shows "atoi (decimal (max 0 n)) = Some (max 0 n)"
  using assms by (intro atoi_decimal) (simp_all add: in_int64_def max_def)

lemma parse_bool_true: "parse_bool ''true'' = Some True"
  by (simp add: parse_bool_def)

lemma decimal_nonempty: "decimal n \<noteq> []"
  using itoa_digits by (simp add: decimal_def)

lemma filter_counts_linked: "filter_counts (linked_query q t) = filter_counts q"
  by (simp add: filter_counts_def linked_query_def)

definition link_values :: "search_query \<Rightarrow> string \<Rightarrow> url_values" where
  "link_values q t =
     (if t \<noteq> [] then values_del ''page'' (values_set ''pageToken'' t (query_values q)) else query_values q)"

lemma parse_link_values:
  assumes "query_valid q" and same: "\<And>key. values_all vs key = values_all (link_values q t) key"
  shows "parse_search_query vs = Inr (linked_query q t)"
proof -
  note all = same [unfolded link_values_def] values_simps values_all_query
  have ints: "in_int64 (q_page_size q)" "in_int64 (q_page q)"
    and st: "list_all status_valid (q_statuses q)"
    using assms(1) by (simp_all add: query_valid_def)
  have st': "parse_statuses (values_all vs ''statuses'') = Inr (q_statuses q)"
    using st by (simp add: all parse_statuses_Inr_iff)
  have sz: "parse_int_param vs ''pageSize'' = Inr (max 0 (q_page_size q))"
    using decimal_param [OF ints(1)] decimal_nonempty
    by (simp add: parse_int_param_def values_get_def all max_def split: if_splits)
  have pg: "parse_int_param vs ''page'' = Inr (if t = [] then max 0 (q_page q) else 0)"
    using decimal_param [OF ints(2)] decimal_nonempty
    by (simp add: parse_int_param_def values_get_def all max_def split: if_splits)
  have tr: "parse_bool_param vs ''totalRequired'' = Inr (q_total_required q)"
    by (simp add: parse_bool_param_def values_get_def all parse_bool_true)
  have q: "\<lparr>q_text = values_get vs ''query'', q_providers = values_all vs ''providerIds'',
              q_statuses = q_statuses q, q_domains = values_all vs ''agentDomains'',
              q_protocols = values_all vs ''protocols'', q_transports = values_all vs ''transports'',
              q_tags = values_all vs ''tags'', q_capabilities = values_all vs ''capabilities'',
              q_page = (if t = [] then max 0 (q_page q) else 0), q_page_size = max 0 (q_page_size q),
              q_page_token = values_get vs ''pageToken'',
              q_token_direction = values_get vs ''pageTokenDirection'', q_total_required = q_total_required q\<rparr>
     = linked_query q t"
    by (cases q) (simp add: values_get_def all linked_query_def)
  have "validate_filter_counts (linked_query q t) = Inr ()"
    using assms(1) by (simp add: validate_filter_counts_Inr_iff filter_counts_linked query_valid_def)
  moreover have "validate_direction (q_token_direction (linked_query q t)) = Inr ()"
    by (simp add: validate_direction_def linked_query_def)
  ultimately show ?thesis
    by (simp only: parse_search_query_def st' sz pg tr try_bind.simps Let_def q)
qed

lemma href_for_link:
  "href_for q t = (let enc = encode_values (link_values q t)
     in if enc = [] then search_base_path else search_base_path @ ''?'' @ enc)"
  by (simp add: href_for_def link_values_def Let_def)

text \<open>Parsing the query string of a link gives back the query it was built from.\<close>

lemma link_round_trip:
  assumes "query_valid q"
  shows "parse_search_query (parse_query (encode_values (link_values q t))) = Inr (linked_query q t)"
  using assms by (rule parse_link_values) (rule values_all_round_trip)

lemma join_with_Nil_iff: "[] \<notin> set xs \<Longrightarrow> join_with sep xs = [] \<longleftrightarrow> xs = []"
  by (cases xs; cases "tl xs") auto

lemma encode_values_Nil_iff: "encode_values vs = [] \<longleftrightarrow> vs = []"
proof -
  have "[] \<notin> set (map query_pair (sort_key fst vs))" by (auto simp: query_pair_def)
  then have "encode_values vs = [] \<longleftrightarrow> sort_key fst vs = []"
    by (simp add: encode_values_def join_with_Nil_iff)
  then show ?thesis by (simp flip: length_0_conv)
qed

lemma link_values_nonempty: "t \<noteq> [] \<Longrightarrow> link_values q t \<noteq> []"
  by (simp add: link_values_def values_del_def values_set_def)

lemma href_for_token:
  "t \<noteq> [] \<Longrightarrow> href_for q t = search_base_path @ ''?'' @ encode_values (link_values q t)"
  by (simp add: href_for_link encode_values_Nil_iff link_values_nonempty)

section \<open>Following the next links\<close>

text \<open>The service over the tables, as the server wires it.\<close>

definition store_service ::
  "('r::linorder) fts_engine \<Rightarrow> evaluator \<Rightarrow> (string \<rightharpoonup> scoring_profile) \<Rightarrow> db \<Rightarrow> unit search_service" where
  "store_service fts engine profiles d =
     \<lparr>ss_index = \<lambda>q. (case search_index fts q d of Inl e \<Rightarrow> Inl () | Inr p \<Rightarrow> Inr p),
      ss_get_agent = \<lambda>i. (case get_agent i d of Inl e \<Rightarrow> Inl () | Inr a \<Rightarrow> Inr a),
      ss_engine = engine, ss_profiles = profiles\<rparr>"

definition next_href :: "search_results_dto \<Rightarrow> string option" where
  "next_href r = map_option ln_href (find (\<lambda>l. ln_rel l = ''next'') (rd_links r))"

text \<open>A client that starts with a query string and follows the next links, at most \<open>fuel\<close>
  requests; any answer but a page of results ends it without a result.\<close>

fun browse :: "nat \<Rightarrow> 'p search_service \<Rightarrow> string \<Rightarrow> registered_agent_dto list option" where
  "browse 0 s raw = None"
| "browse (Suc fuel) s raw =
     (case rs_body (search_by_query s raw) of
        Inr (Results r) \<Rightarrow>
          (case next_href r of
             None \<Rightarrow> Some (rd_items r)
           | Some href \<Rightarrow>
               map_option (append (rd_items r)) (browse fuel s (trim_prefix href (search_base_path @ ''?''))))
      | _ \<Rightarrow> None)"

text \<open>Queries that the index answers alike, now and for any later token.\<close>

definition same_search :: "search_query \<Rightarrow> search_query \<Rightarrow> bool" where
  "same_search q q' \<longleftrightarrow>
     q_text q = q_text q' \<and> row_selected q = row_selected q' \<and> row_fails q = row_fails q' \<and> effective_page q = effective_page q'
     \<and> clamp_size (q_page_size q) = clamp_size (q_page_size q') \<and> q_total_required q = q_total_required q'"

lemma same_search_index:
  assumes "same_search q q'"
  shows "search_index fts q d = search_index fts q' d"
proof -
  have e: "q_text q = q_text q'" "row_selected q = row_selected q'" "row_fails q = row_fails q'" "effective_page q = effective_page q'"
    "clamp_size (q_page_size q) = clamp_size (q_page_size q')" "q_total_required q = q_total_required q'"
    using assms by (simp_all add: same_search_def)
  show ?thesis
    unfolding search_index_def count_rows_def page_offset_def query_rows_def e by (rule refl)
qed

lemma same_search_next:
  assumes "same_search q q'" and "t \<noteq> []"
  shows "same_search (linked_query q t) (q'\<lparr>q_page_token := t\<rparr>)"
proof -
  have "row_selected (linked_query q t) = row_selected q"
    by (simp add: row_selected_def linked_query_def fun_eq_iff)
  moreover have "row_fails (linked_query q t) = row_fails q"
    by (simp add: row_fails_def linked_query_def fun_eq_iff)
  moreover have "clamp_size (max 0 n) = clamp_size n" for n
    by (simp add: clamp_size_def max_def)
  ultimately show ?thesis
    using assms by (simp add: same_search_def linked_query_def effective_page_def)
qed

lemma next_href_links:
  "next_href (new_search_results_dto items (build_links q page) page b)
     = (if sp_next_token page = [] then None else Some (href_for q (sp_next_token page)))"
  by (simp add: next_href_def new_search_results_dto_def build_links_def)

lemma browse_crawl:
  assumes "parse_search_query (parse_query raw) = Inr q" and "same_search q q'"
  shows "browse fuel (store_service fts engine profiles d) raw
    = map_option (map new_registered_agent_dto) (crawl fuel fts q' d)"
  using assms
proof (induction fuel arbitrary: raw q q')
  case (Suc fuel)
  let ?s = "store_service fts engine profiles d"
  have valid: "query_valid q" using parse_search_query_valid [OF Suc.prems(1)] .
  show ?case
  proof (cases "search_index fts q' d")
    case (Inl e)
    then show ?thesis
      by (simp add: search_by_query_def Suc.prems(1) run_search_def service_search_def store_service_def
          same_search_index [OF Suc.prems(2)] write_problem_def)
  next
    case (Inr page)
    define items where "items = map new_registered_agent_dto (sp_items page)"
    define r where "r = new_search_results_dto items (build_links q page) page (q_total_required q)"
    have body: "rs_body (search_by_query ?s raw) = Inr (Results r)"
      using Inr by (simp add: search_by_query_def Suc.prems(1) run_search_def service_search_def
          store_service_def same_search_index [OF Suc.prems(2)] write_json_def r_def items_def)
    have ri: "rd_items r = items" by (simp add: r_def new_search_results_dto_def)
    show ?thesis
    proof (cases "sp_next_token page = []")
      case True
      then have "next_href r = None" by (simp add: r_def next_href_links)
      with True show ?thesis by (simp add: body Inr ri items_def)
    next
      case False
      let ?t = "sp_next_token page"
      have n: "next_href r = Some (search_base_path @ ''?'' @ encode_values (link_values q ?t))"
        using False by (simp add: r_def next_href_links href_for_token)
      have "browse fuel ?s (encode_values (link_values q ?t))
          = map_option (map new_registered_agent_dto) (crawl fuel fts (q'\<lparr>q_page_token := ?t\<rparr>) d)"
        using link_round_trip [OF valid] same_search_next [OF Suc.prems(2) False] by (rule Suc.IH)
      moreover have "trim_prefix (search_base_path @ ''?'' @ e) (search_base_path @ ''?'') = e" for e
        using trim_prefix_append [of "search_base_path @ ''?''" e] by simp
      ultimately show ?thesis using False
        by (simp add: body n Inr ri items_def option.map_comp o_def)
    qed
  qed
qed simp

section \<open>The agents of the tables\<close>

text \<open>Every row was written from an agent whose texts are UTF-8 and whose years have four digits.\<close>

definition faithful_rows :: "db \<Rightarrow> bool" where
  "faithful_rows d \<longleftrightarrow> (\<forall>r \<in> set (db_agents d). \<exists>a. storable_agent a \<and> r = row_of_agent a)"

lemma faithful_upsert:
  assumes "faithful_rows d" and "storable_agent a" and "upsert_agent a d = Inr d'"
  shows "faithful_rows d'"
  using assms
  by (auto simp: faithful_rows_def upsert_agent_def upsert_row_def split: if_splits option.splits)

lemma faithful_upserts:
  "faithful_rows d \<Longrightarrow> list_all storable_agent as \<Longrightarrow> run_rows upsert_agent as d = Inr d' \<Longrightarrow> faithful_rows d'"
  by (induction as arbitrary: d) (auto split: sum.splits dest: faithful_upsert)

definition agent_of :: "agent_row \<Rightarrow> agent" where
  "agent_of r = (case scan_agent r of Inr a \<Rightarrow> a)"

lemma agent_of_faithful:
  assumes "faithful_rows d" and "r \<in> set (db_agents d)"
  shows "scan_agent r = Inr (agent_of r)" and "a_id (agent_of r) = ar_id r"
    and "a_display_name (agent_of r) = ar_display_name r"
    and "domains_short q \<Longrightarrow> agent_selected q (agent_of r) \<longleftrightarrow> row_selected q r"
proof -
  obtain a where a: "storable_agent a" "r = row_of_agent a"
    using assms by (auto simp: faithful_rows_def)
  have s: "scan_agent r = Inr (stored_agent a)" using a by (simp add: scan_row_of_agent)
  then show "scan_agent r = Inr (agent_of r)" by (simp add: agent_of_def)
  from s have e: "agent_of r = stored_agent a" by (simp add: agent_of_def)
  show "a_id (agent_of r) = ar_id r" "a_display_name (agent_of r) = ar_display_name r"
    unfolding e by (simp_all add: stored_agent_def a(2) row_of_agent_def)
  have "agent_selected q (stored_agent a) = agent_selected q a"
    by (simp add: agent_selected_def stored_agent_def)
  then show "agent_selected q (agent_of r) \<longleftrightarrow> row_selected q r" if "domains_short q"
    unfolding e using that row_selected_agent [OF a(1)] a(2) by simp
qed

lemma find_distinct:
  "distinct (map f xs) \<Longrightarrow> find (\<lambda>x. f x = k) xs = Some x \<longleftrightarrow> x \<in> set xs \<and> f x = k"
  by (induction xs) (auto simp: image_iff)

lemma get_agent_faithful:
  assumes "faithful_rows d" and "distinct (map ar_id (db_agents d))"
  shows "get_agent i d = Inr (Some a) \<longleftrightarrow> (\<exists>r \<in> set (db_agents d). ar_id r = i \<and> a = agent_of r)"
proof (cases "find (\<lambda>r. ar_id r = i) (db_agents d)")
  case None
  then have "\<forall>r \<in> set (db_agents d). ar_id r \<noteq> i" by (auto simp: find_None_iff)
  with None show ?thesis by (auto simp: get_agent_def)
next
  case (Some r)
  then have r: "r \<in> set (db_agents d)" "ar_id r = i" using find_distinct [OF assms(2)] by simp_all
  have "(\<exists>x \<in> set (db_agents d). ar_id x = i \<and> a = agent_of x) \<longleftrightarrow> a = agent_of r"
    using r assms(2) by (auto simp: distinct_map dest: inj_onD)
  moreover have "get_agent i d = Inr (Some (agent_of r))"
    using Some agent_of_faithful(1) [OF assms(1) r(1)] by (simp add: get_agent_def)
  ultimately show ?thesis by auto
qed

lemma collect_map: "(\<And>x. x \<in> set xs \<Longrightarrow> f x = Inr (g x)) \<Longrightarrow> collect f xs = Inr (map g xs)"
  by (induction xs) auto

text \<open>The agents a search without free text answers, in its order.\<close>

lemma search_rows:
  assumes "faithful_rows d" and "distinct (map ar_id (db_agents d))" and "strings_fields (q_text q) = []"
    and "domains_short q"
  obtains rows as where "query_rows fts q d = Some rows" and "collect scan_agent rows = Inr as"
    and "sorted (map (\<lambda>a. (a_display_name a, a_id a)) as)" and "distinct (map a_id as)"
    and "\<forall>a. a \<in> set as \<longleftrightarrow> (\<exists>i. get_agent i d = Inr (Some a)) \<and> agent_selected q a"
    and "length as \<le> length (db_agents d)"
proof
  let ?key = "\<lambda>r. (ar_display_name r, ar_id r)"
  define rows where "rows = sort_key ?key (filter (row_selected q) (db_agents d))"
  have set: "set rows = {r \<in> set (db_agents d). row_selected q r}" by (simp add: rows_def)
  note ag = agent_of_faithful [OF assms(1)]
  show "query_rows fts q d = Some rows"
    using assms(3) by (simp add: query_rows_def fts_match_empty rows_def list_ex_iff domains_short_never_fail [OF assms(4)])
  show "collect scan_agent rows = Inr (map agent_of rows)"
    using ag(1) set by (intro collect_map) simp
  have "map (\<lambda>a. (a_display_name a, a_id a)) (map agent_of rows) = map ?key rows"
    using ag(2,3) set by simp
  then show "sorted (map (\<lambda>a. (a_display_name a, a_id a)) (map agent_of rows))"
    by (simp only: rows_def sorted_sort_key)
  have "map a_id (map agent_of rows) = map ar_id rows" using ag(2) set by simp
  moreover have "distinct (map ar_id rows)"
    using assms(2) by (auto simp: rows_def distinct_map inj_on_def)
  ultimately show "distinct (map a_id (map agent_of rows))" by (simp only:)
  show "\<forall>a. a \<in> set (map agent_of rows) \<longleftrightarrow> (\<exists>i. get_agent i d = Inr (Some a)) \<and> agent_selected q a"
    using ag(4) [OF _ assms(4)] set get_agent_faithful [OF assms(1,2)] by (auto simp: image_iff)
  show "length (map agent_of rows) \<le> length (db_agents d)" by (simp add: rows_def length_filter_le)
qed

section \<open>Properties\<close>

text \<open>C6 Following the next links of a search without free text from its first page ends,
  within one request more than there are agents, and collects exactly the agents the filters
  select, each once and in the order of the store, provided that every row of the agents table
  was written from an agent with UTF-8 lists and four-digit UTC years (one unreadable row makes
  its page fail), that no agentDomains pattern exceeds the 50000 bytes SQLite accepts, and that
  the store holds no more agents than the page cap covers; agentDomains selects by containment
  as SQLite reads the texts, where a NUL byte ends a text.\<close>

theorem browse_selected:
  assumes "store_reachable d" and "faithful_rows d"
    and "parse_search_query (parse_query raw) = Inr q" and "strings_fields (q_text q) = []"
    and "domains_short q"
    and "effective_page q = 1" and "int (length (db_agents d)) \<le> max_page * clamp_size (q_page_size q)"
    and "length (db_agents d) < fuel"
  shows "\<exists>as. browse fuel (store_service fts engine profiles d) raw = Some (map new_registered_agent_dto as)
    \<and> sorted (map (\<lambda>a. (a_display_name a, a_id a)) as) \<and> distinct (map a_id as)
    \<and> (\<forall>a. a \<in> set as \<longleftrightarrow> (\<exists>i. get_agent i d = Inr (Some a)) \<and> agent_selected q a)"
proof -
  let ?n = "clamp_size (q_page_size q)"
  have dist: "distinct (map ar_id (db_agents d))"
    using reachable_valid [OF assms(1)] by (simp add: store_valid_def)
  obtain rows as where r: "query_rows fts q d = Some rows" "collect scan_agent rows = Inr as"
    and props: "sorted (map (\<lambda>a. (a_display_name a, a_id a)) as)" "distinct (map a_id as)"
      "\<forall>a. a \<in> set as \<longleftrightarrow> (\<exists>i. get_agent i d = Inr (Some a)) \<and> agent_selected q a"
    and len: "length as \<le> length (db_agents d)"
    using search_rows [OF assms(2) dist assms(4,5), of fts] by blast
  have "int (length as) \<le> int fuel * 1" using len assms(8) by simp
  also have "\<dots> \<le> int fuel * ?n" using clamp_size_bounds(1) by (intro mult_left_mono) simp_all
  finally have f: "int (length as) \<le> (1 - 1 + int fuel) * ?n" by simp
  have "crawl fuel fts q d = Some (drop (nat ((1 - 1) * ?n)) as)"
    using len assms(6,7,8) f by (intro crawl_from [OF r]) simp_all
  moreover have same: "same_search q q" by (simp add: same_search_def)
  ultimately have "browse fuel (store_service fts engine profiles d) raw
      = Some (map new_registered_agent_dto as)"
    using browse_crawl [OF assms(3) same, of fuel fts engine profiles d] by simp
  with props show ?thesis by blast
qed

lemma example_log_faithful: "faithful_rows example_log" "length (db_agents example_log) = Suc 0"
proof -
  have s: "storable_agent example_agent" by code_simp
  have d: "db_agents example_log = [row_of_agent example_agent]"
    by (simp add: example_log_def upsert_agents_def in_transaction_def upsert_agent_def upsert_row_def
        empty_db_def row_of_agent_def example_agent_def status_valid_def StatusActive_def)
  then show "length (db_agents example_log) = Suc 0" by simp
  show "faithful_rows example_log" using s d by (auto simp: faithful_rows_def)
qed

lemma example_raw_query: "\<exists>q. parse_search_query (parse_query ''agentDomains=Example&pageSize=1'') = Inr q
    \<and> strings_fields (q_text q) = [] \<and> domains_short q \<and> effective_page q = 1 \<and> clamp_size (q_page_size q) = 1"
proof -
  have "(case parse_search_query (parse_query ''agentDomains=Example&pageSize=1'') of Inl _ \<Rightarrow> False | Inr q \<Rightarrow>
     strings_fields (q_text q) = [] \<and> q_domains q = [''Example''] \<and> effective_page q = 1 \<and> clamp_size (q_page_size q) = 1)" by code_simp
  then show ?thesis
    by (auto simp: domains_short_def domain_pattern_def max_like_pattern_def split: sum.splits)
qed

theorem browse_selected_witness:
  "\<exists>as. browse (Suc (Suc 0)) (store_service ((\<lambda>_ _. None) :: int fts_engine) (\<lambda>_ _. Inl []) Map.empty example_log)
           ''agentDomains=Example&pageSize=1'' = Some (map new_registered_agent_dto as) \<and> distinct (map a_id as)"
proof -
  obtain q where q: "parse_search_query (parse_query ''agentDomains=Example&pageSize=1'') = Inr q" "strings_fields (q_text q) = []"
    "domains_short q" "effective_page q = 1" "clamp_size (q_page_size q) = 1"
    using example_raw_query by blast
  have "int (length (db_agents example_log)) \<le> max_page * clamp_size (q_page_size q)"
    "length (db_agents example_log) < Suc (Suc 0)"
    using q(5) example_log_faithful(2) by (simp_all add: max_page_def)
  from browse_selected [OF example_log_reachable example_log_faithful(1) q(1,2,3,4) this,
      of "(\<lambda>_ _. None) :: int fts_engine" "\<lambda>_ _. Inl []" Map.empty]
  show ?thesis by blast
qed

end
