(* ===== verification/Hydrator.thy ===== *)
theory Hydrator
  imports TlEvent Signals
begin

text \<open>
  The hydrator (\<open>internal/hydrator\<close>): its configuration and fixtures, the projection of
  transparency-log events and fixture observations onto the import contract, and one run.  The
  wire shapes and the drift verdict are shared with the prober, which declares them again.  The
  YAML decoders, the file system and the HTTP exchange are arguments; \<open>post\<close> takes the path,
  the \<open>Authorization\<close> header and the JSON body, and threads the state of the server.
\<close>

section \<open>Wire shapes (wire.go)\<close>

record agent_wire =
  aw_id :: string
  aw_dns_name :: string
  aw_display_name :: string
  aw_description :: string
  aw_provider :: string
  aw_status :: string
  aw_protocols :: "string list"
  aw_transports :: "string list"
  aw_tags :: "string list"
  aw_capabilities :: "string list"
  aw_first_seen :: string
  aw_last_updated :: string

text \<open>\<open>ow_value\<close> is the tree of the raw message, whose bytes are \<open>marshal\<close> of it; the provenance
  is the pair of \<open>aimId\<close> and \<open>evidenceUrl\<close>.\<close>

record observation_wire =
  ow_agent :: string
  ow_signal :: string
  ow_observed_at :: string
  ow_value :: json
  ow_provenance :: "(string \<times> string) option"

text \<open>A member tagged \<open>omitempty\<close> is left out when it is empty.\<close>

definition text_member :: "string \<Rightarrow> string \<Rightarrow> (string \<times> json) list" where
  "text_member k s = (if s = [] then [] else [(k, JStr s)])"

definition texts_member :: "string \<Rightarrow> string list \<Rightarrow> (string \<times> json) list" where
  "texts_member k vs = (if vs = [] then [] else [(k, JArr (map JStr vs))])"

definition agent_json :: "agent_wire \<Rightarrow> json" where
  "agent_json a =
     JObj ([(''agentId'', JStr (aw_id a)), (''dnsName'', JStr (aw_dns_name a)),
            (''displayName'', JStr (aw_display_name a))]
       @ text_member ''description'' (aw_description a) @ text_member ''providerId'' (aw_provider a)
       @ [(''status'', JStr (aw_status a))]
       @ texts_member ''protocols'' (aw_protocols a) @ texts_member ''transports'' (aw_transports a)
       @ texts_member ''tags'' (aw_tags a) @ texts_member ''capabilities'' (aw_capabilities a)
       @ [(''firstSeen'', JStr (aw_first_seen a)), (''lastUpdated'', JStr (aw_last_updated a))])"

definition wire_provenance_json :: "string \<times> string \<Rightarrow> json" where
  "wire_provenance_json p = JObj (text_member ''aimId'' (fst p) @ text_member ''evidenceUrl'' (snd p))"

definition observation_json :: "observation_wire \<Rightarrow> json" where
  "observation_json w =
     JObj ([(''agentId'', JStr (ow_agent w)), (''signalId'', JStr (ow_signal w)),
            (''observedAt'', JStr (ow_observed_at w)), (''value'', ow_value w)]
       @ (case ow_provenance w of None \<Rightarrow> [] | Some p \<Rightarrow> [(''provenance'', wire_provenance_json p)]))"

definition agents_json :: "agent_wire list \<Rightarrow> json" where
  "agents_json as = JObj [(''agents'', JArr (map agent_json as))]"

definition observations_json :: "observation_wire list \<Rightarrow> json" where
  "observations_json ws = JObj [(''observations'', JArr (map observation_json ws))]"

text \<open>The verdict as it is written on the wire.\<close>

definition drift_json :: "drift_value \<Rightarrow> json" where
  "drift_json v =
     JObj [(''expected'', JStr (dr_expected v)), (''observed'', JStr (dr_observed v)),
           (''matched'', JBool (dr_matched v)), (''expectedSource'', JStr (dr_expected_source v)),
           (''observedSource'', JStr (dr_observed_source v))]"

section \<open>Configuration and fixtures (config.go, observation.go)\<close>

record hydrator_settings =
  hs_mock :: bool
  hs_target :: string
  hs_admin_key :: string
  hs_events_dir :: string
  hs_observations_dir :: string
  hs_aim_id :: string

record hydrator_file =
  hf_mode :: string
  hf_target :: string
  hf_admin_key :: string
  hf_events_dir :: string
  hf_observations_dir :: string
  hf_aim_id :: string

definition load_hydrator_config ::
  "(string \<Rightarrow> (string, string) result) \<Rightarrow> (string \<Rightarrow> (string, hydrator_file) result) \<Rightarrow> string
     \<Rightarrow> (message, hydrator_settings) result" where
  "load_hydrator_config read decode path =
     (case read path of
        Inl c \<Rightarrow> Inl [Lit ''hydrator: read config '', Lit path, Lit '': '', Cause c]
      | Inr b \<Rightarrow>
          (case decode b of
             Inl c \<Rightarrow> Inl [Lit ''hydrator: parse config '', Lit path, Lit '': '', Cause c]
           | Inr f \<Rightarrow>
               Inr \<lparr>hs_mock = (hf_mode f \<noteq> ''real''), hs_target = hf_target f, hs_admin_key = hf_admin_key f,
                    hs_events_dir = hf_events_dir f, hs_observations_dir = hf_observations_dir f,
                    hs_aim_id = hf_aim_id f\<rparr>))"

text \<open>A raw value is what \<open>json.Marshal\<close> answers for the decoded YAML map (\<open>null\<close> when there is
  none, an error for a value JSON cannot hold).\<close>

record observation_entry =
  oe_signal :: string
  oe_observed_at :: string
  oe_value :: "(string, json) result"
  oe_observed :: string

record observation_file =
  of_agent :: string
  of_entries :: "observation_entry list"

definition parse_observation_file ::
  "(string \<Rightarrow> (string, observation_file) result) \<Rightarrow> string \<Rightarrow> (message, observation_file) result" where
  "parse_observation_file decode b =
     (case decode b of
        Inl c \<Rightarrow> Inl [Lit ''hydrator: parse observations: '', Cause c]
      | Inr f \<Rightarrow> if of_agent f = [] then Inl [Lit ''hydrator: observation file: agentId is required''] else Inr f)"

definition load_observations ::
  "string \<Rightarrow> (string, (string \<times> bool) list) result \<Rightarrow> (string \<Rightarrow> (string, string) result)
     \<Rightarrow> (string \<Rightarrow> (string, observation_file) result) \<Rightarrow> (message, observation_file list) result" where
  "load_observations dir entries read decode =
     (case entries of
        Inl c \<Rightarrow> Inl [Lit ''hydrator: read observations dir '', Lit dir, Lit '': '', Cause c]
      | Inr es \<Rightarrow> collect (load_file ''hydrator'' read (parse_observation_file decode)) (yaml_names es))"

section \<open>Projection (project.go)\<close>

definition drift_baseline :: "string \<Rightarrow> attestations \<Rightarrow> string option" where
  "drift_baseline signal_id a =
     (if signal_id = ''certfingerprint.server'' then Some (at_server_fingerprint a)
      else if signal_id = ''certfingerprint.identity'' then Some (at_identity_fingerprint a)
      else if signal_id = ''dnsrecord.ans'' then Some (dn_ans (at_dns a))
      else if signal_id = ''dnsrecord.ans-badge'' then Some (dn_ans_badge (at_dns a))
      else None)"

definition merge_dedupe :: "string list list \<Rightarrow> string list" where
  "merge_dedupe slices = dedupe_from [] (filter (\<lambda>v. v \<noteq> []) (concat slices))"

definition project_agent :: "tl_event \<Rightarrow> agent_wire" where
  "project_agent e =
     (let a = ev_agent e
      in \<lparr>aw_id = ev_ans_id e, aw_dns_name = ''ans://'' @ ta_version a @ ''.'' @ ta_host a,
          aw_display_name = ta_name a, aw_description = ta_description a, aw_provider = ev_provider e,
          aw_status = ev_status e,
          aw_protocols = merge_dedupe [ta_protocols a, map ep_protocol (ta_endpoints a)],
          aw_transports = merge_dedupe [ta_transports a, map ep_transport (ta_endpoints a)],
          aw_tags = ta_tags a, aw_capabilities = ta_capabilities a,
          aw_first_seen = ev_first_seen e, aw_last_updated = ev_last_updated e\<rparr>)"

definition project_observation ::
  "string \<Rightarrow> observation_entry \<Rightarrow> attestations \<Rightarrow> (string \<times> string) option
     \<Rightarrow> (message, observation_wire) result" where
  "project_observation agent entry att prov =
     (let w = (\<lambda>value. \<lparr>ow_agent = agent, ow_signal = oe_signal entry, ow_observed_at = oe_observed_at entry,
                        ow_value = value, ow_provenance = prov\<rparr>)
      in case drift_baseline (oe_signal entry) att of
           Some expected \<Rightarrow>
             Inr (w (drift_json \<lparr>dr_expected = expected, dr_observed = oe_observed entry,
               dr_matched = (expected = oe_observed entry), dr_expected_source = ''tl_attestation'',
               dr_observed_source = ''fixture''\<rparr>))
         | None \<Rightarrow>
             (case oe_value entry of
                Inl c \<Rightarrow> Inl [Lit ''marshal raw value: '', Cause c]
              | Inr v \<Rightarrow> Inr (w v)))"

section \<open>One run (hydrator.go)\<close>

text \<open>The HTTP exchange: the request could not be built, or not be sent, or was answered with a
  status and a text (as the error quotes it: the first 4096 bytes, trimmed).\<close>

datatype exchange = NotBuilt string | NotSent string | Answered int string

type_synonym 's poster = "string \<Rightarrow> string \<Rightarrow> string \<Rightarrow> 's \<Rightarrow> exchange \<times> 's"

text \<open>The header is absent (empty) without a key; any answer but 200 is an error.\<close>

definition bearer :: "string \<Rightarrow> string" where
  "bearer key = (if key = [] then [] else ''Bearer '' @ key)"

definition post_import ::
  "'s poster \<Rightarrow> string \<Rightarrow> string \<Rightarrow> string \<Rightarrow> 's \<Rightarrow> message option \<times> 's" where
  "post_import post key path body st =
     (case post path (bearer key) body st of (answer, st') \<Rightarrow>
        (case answer of
           NotBuilt c \<Rightarrow> Some [Lit ''build request: '', Cause c]
         | NotSent c \<Rightarrow> Some [Lit ''post '', Lit path, Lit '': '', Cause c]
         | Answered status text \<Rightarrow>
             (if status \<noteq> 200
              then Some [Lit ''post '', Lit path, Lit '' returned '', Num status, Lit '': '', Cause text]
              else None), st'))"

record run_summary =
  rs_agents :: nat
  rs_observations :: nat

definition agents_path :: string where "agents_path = ''/v1/internal/agents/import''"
definition observations_path :: string where "observations_path = ''/v1/internal/observations/import''"

text \<open>The baselines by agent: a later event of the same agent wins, an unknown agent has none.\<close>

definition baselines :: "tl_event list \<Rightarrow> string \<Rightarrow> attestations" where
  "baselines events i =
     (case find (\<lambda>e. ev_ans_id e = i) (rev events) of Some e \<Rightarrow> ev_attestations e | None \<Rightarrow> no_attestations)"

definition project_entry ::
  "tl_event list \<Rightarrow> (string \<times> string) option \<Rightarrow> string \<times> observation_entry
     \<Rightarrow> (message, observation_wire) result" where
  "project_entry events prov p =
     (case project_observation (fst p) (snd p) (baselines events (fst p)) prov of
        Inl m \<Rightarrow> Inl ([Lit ''hydrator: project '', Lit (fst p), Lit ''/'', Lit (oe_signal (snd p)), Lit '': ''] @ m)
      | Inr w \<Rightarrow> Inr w)"

definition run_observations ::
  "tl_event list \<Rightarrow> observation_file list \<Rightarrow> (string \<times> string) option
     \<Rightarrow> (message, observation_wire list) result" where
  "run_observations events files prov =
     collect (project_entry events prov)
       (concat (map (\<lambda>f. map (Pair (of_agent f)) (of_entries f)) files))"

definition run_hydrator ::
  "'s poster \<Rightarrow> string \<Rightarrow> string \<Rightarrow> tl_event list \<Rightarrow> observation_file list \<Rightarrow> bool \<Rightarrow> 's
     \<Rightarrow> run_summary \<times> message option \<times> 's" where
  "run_hydrator post key aim_id events files mock st =
     (let agents = map project_agent events
      in case post_import post key agents_path (marshal (agents_json agents)) st of
           (Some e, st1) \<Rightarrow>
             (\<lparr>rs_agents = 0, rs_observations = 0\<rparr>, Some (Lit ''hydrator: import agents: '' # e), st1)
         | (None, st1) \<Rightarrow>
             if \<not> mock then (\<lparr>rs_agents = length agents, rs_observations = 0\<rparr>, None, st1)
             else
               (case run_observations events files (if aim_id = [] then None else Some (aim_id, [])) of
                  Inl e \<Rightarrow> (\<lparr>rs_agents = length agents, rs_observations = 0\<rparr>, Some e, st1)
                | Inr obs \<Rightarrow>
                    if obs = [] then (\<lparr>rs_agents = length agents, rs_observations = 0\<rparr>, None, st1)
                    else
                      (case post_import post key observations_path (marshal (observations_json obs)) st1 of
                         (Some e, st2) \<Rightarrow>
                           (\<lparr>rs_agents = length agents, rs_observations = 0\<rparr>,
                            Some (Lit ''hydrator: import observations: '' # e), st2)
                       | (None, st2) \<Rightarrow>
                           (\<lparr>rs_agents = length agents, rs_observations = length obs\<rparr>, None, st2))))"

end
