(* ===== verification/Prober.thy ===== *)
theory Prober
  imports Hydrator
begin

text \<open>
  The prober (\<open>internal/prober\<close>): live probes of an event's agent turned into five
  observations, and one pass.  The probes are arguments; a failed probe yields an observation, never
  a gap.  The wire shapes are those of the hydrator, which the prober declares again.
\<close>

record cert_result =
  cr_fingerprint :: string
  cr_type :: string

text \<open>The live operations: the TLS handshake, a TXT lookup, and the CAA lookup.\<close>

record probe =
  pr_cert :: "string \<Rightarrow> (string, cert_result) result"
  pr_txt :: "string \<Rightarrow> (string, string) result"
  pr_caa :: "string \<Rightarrow> (string, bool) result"

definition observed_at_placeholder :: string where
  "observed_at_placeholder = ''2026-06-25T00:00:00Z''"

definition observed_at :: "string option \<Rightarrow> string" where
  "observed_at now = (case now of Some t \<Rightarrow> t | None \<Rightarrow> observed_at_placeholder)"

definition probe_wire :: "tl_event \<Rightarrow> string \<Rightarrow> (string \<times> string) option \<Rightarrow> string \<Rightarrow> json \<Rightarrow> observation_wire" where
  "probe_wire e stamp prov signal_id value =
     \<lparr>ow_agent = ev_ans_id e, ow_signal = signal_id, ow_observed_at = stamp, ow_value = value,
      ow_provenance = prov\<rparr>"

definition dns_verdict ::
  "probe \<Rightarrow> tl_event \<Rightarrow> string \<Rightarrow> (string \<times> string) option \<Rightarrow> string \<Rightarrow> string \<Rightarrow> string \<Rightarrow> observation_wire" where
  "dns_verdict pr e stamp prov signal_id name expected =
     (let outcome = pr_txt pr name;
          obs = (case outcome of Inl _ \<Rightarrow> [] | Inr t \<Rightarrow> t)
      in probe_wire e stamp prov signal_id
           (drift_json \<lparr>dr_expected = expected, dr_observed = obs,
              dr_matched = ((case outcome of Inl _ \<Rightarrow> False | Inr _ \<Rightarrow> True) \<and> expected = obs),
              dr_expected_source = ''tl_attestation'', dr_observed_source = ''live_dns_query''\<rparr>))"

definition probe_agent :: "probe \<Rightarrow> string option \<Rightarrow> string \<Rightarrow> tl_event \<Rightarrow> observation_wire list" where
  "probe_agent pr now aim_id e =
     (let prov = (if aim_id = [] then None else Some (aim_id, []));
          host = ta_host (ev_agent e); stamp = observed_at now; att = ev_attestations e;
          cert = pr_cert pr host;
          cert_type = (case cert of Inl _ \<Rightarrow> ''none'' | Inr c \<Rightarrow> cr_type c);
          fp = (case cert of Inl _ \<Rightarrow> [] | Inr c \<Rightarrow> cr_fingerprint c);
          caa = (case pr_caa pr host of Inl _ \<Rightarrow> False | Inr b \<Rightarrow> b)
      in [probe_wire e stamp prov ''certtype'' (JObj [(''type'', JStr cert_type)]),
          probe_wire e stamp prov ''certfingerprint.server''
            (drift_json \<lparr>dr_expected = at_server_fingerprint att, dr_observed = fp,
               dr_matched = ((case cert of Inl _ \<Rightarrow> False | Inr _ \<Rightarrow> True) \<and> at_server_fingerprint att = fp),
               dr_expected_source = ''tl_attestation'', dr_observed_source = ''live_tls_handshake''\<rparr>),
          dns_verdict pr e stamp prov ''dnsrecord.ans'' (''_ans.'' @ host) (dn_ans (at_dns att)),
          dns_verdict pr e stamp prov ''dnsrecord.ans-badge'' (''_ans-badge.'' @ host) (dn_ans_badge (at_dns att)),
          probe_wire e stamp prov ''dnssecurity'' (JObj [(''caa'', JBool caa), (''dnssec'', JBool False)])])"

text \<open>The clock and the network may answer differently at every event: \<open>pr i\<close> are the answers
  during the \<open>i\<close>-th event, \<open>now\<close> the stamps.\<close>

fun probe_from ::
  "nat \<Rightarrow> (nat \<Rightarrow> probe) \<Rightarrow> (nat \<Rightarrow> string) option \<Rightarrow> string \<Rightarrow> tl_event list \<Rightarrow> observation_wire list" where
  "probe_from i pr now aim_id [] = []"
| "probe_from i pr now aim_id (e # es) =
     probe_agent (pr i) (map_option (\<lambda>f. f i) now) aim_id e @ probe_from (Suc i) pr now aim_id es"

definition probe_pass ::
  "(nat \<Rightarrow> probe) \<Rightarrow> (nat \<Rightarrow> string) option \<Rightarrow> string \<Rightarrow> tl_event list \<Rightarrow> observation_wire list" where
  "probe_pass = probe_from 0"

definition run_once ::
  "'s poster \<Rightarrow> string \<Rightarrow> (nat \<Rightarrow> probe) \<Rightarrow> (nat \<Rightarrow> string) option \<Rightarrow> string \<Rightarrow> tl_event list \<Rightarrow> 's
     \<Rightarrow> (message, nat) result \<times> 's" where
  "run_once post key pr now aim_id events st =
     (let obs = probe_pass pr now aim_id events
      in if obs = [] then (Inr 0, st)
         else case post observations_path (bearer key) (marshal (observations_json obs)) st of (answer, st') \<Rightarrow>
           (case answer of
              NotBuilt c \<Rightarrow> Inl [Lit ''prober: import observations: build request: '', Cause c]
            | NotSent c \<Rightarrow> Inl [Lit ''prober: import observations: post observations: '', Cause c]
            | Answered status text \<Rightarrow>
                (if status \<noteq> 200
                 then Inl [Lit ''prober: import observations: observations import returned '', Num status,
                           Lit '': '', Cause text]
                 else Inr (length obs)), st'))"

section \<open>Configuration (config.go)\<close>

record prober_settings =
  ps_target :: string
  ps_admin_key :: string
  ps_events_dir :: string
  ps_cadence :: int
  ps_timeout :: int
  ps_aim_id :: string

record prober_file =
  pf_target :: string
  pf_admin_key :: string
  pf_events_dir :: string
  pf_cadence :: int
  pf_timeout :: string
  pf_aim_id :: string

text \<open>Durations are nanoseconds; \<open>time.ParseDuration\<close> is an argument, and the product of the
  seconds wraps around like any \<open>int64\<close>.\<close>

definition load_prober_config ::
  "(string \<Rightarrow> (string, string) result) \<Rightarrow> (string \<Rightarrow> (string, prober_file) result)
     \<Rightarrow> (string \<Rightarrow> (string, int) result) \<Rightarrow> string \<Rightarrow> (message, prober_settings) result" where
  "load_prober_config read decode parse_duration path =
     (case read path of
        Inl c \<Rightarrow> Inl [Lit ''prober: read config '', Lit path, Lit '': '', Cause c]
      | Inr b \<Rightarrow>
          (case decode b of
             Inl c \<Rightarrow> Inl [Lit ''prober: parse config '', Lit path, Lit '': '', Cause c]
           | Inr f \<Rightarrow>
               try_bind
                 (if pf_timeout f = [] then Inr 5000000000
                  else case parse_duration (pf_timeout f) of
                         Inl c \<Rightarrow> Inl [Lit ''prober: invalid probe.timeout '', Quoted (pf_timeout f), Lit '': '', Cause c]
                       | Inr t \<Rightarrow> Inr t)
                 (\<lambda>timeout.
                   Inr \<lparr>ps_target = pf_target f, ps_admin_key = pf_admin_key f, ps_events_dir = pf_events_dir f,
                        ps_cadence = wrap64 (pf_cadence f * 1000000000), ps_timeout = timeout,
                        ps_aim_id = pf_aim_id f\<rparr>)))"

end
