(* ===== verification/RawFacts.thy ===== *)
theory RawFacts
  imports GoJsonRaw
begin

text \<open>
  Reading the texts of a written document: splitting \<open>marshal v\<close> into members or elements gives
  back the texts \<open>marshal\<close> wrote for them, so a raw field keeps the bytes of its value.
\<close>

lemma raw_value_marshal:
  assumes "plain_json 0 v"
  shows "raw_value (marshal v @ rest) = Some (marshal v, rest)"
proof -
  obtain c r where m: "marshal v = c # r"
    and c: "c \<in> {CHR 0x22, CHR ''{'', CHR ''['', CHR ''t'', CHR ''f'', CHR ''n''}"
    using assms by (rule marshal_Cons)
  from c have "\<not> json_space c" by auto
  with m have "skip_space (marshal v @ rest) = marshal v @ rest" by simp
  then show ?thesis
    using parse_value_marshal [OF assms, of rest] by (simp add: raw_value_def)
qed

lemma raw_elems_marshal:
  assumes "vs \<noteq> []" and "list_all (plain_json 0) vs"
  shows "raw_elems (join_with '','' (map marshal vs) @ CHR '']'' # rest) = Some (map marshal vs)"
  using assms
proof (induction vs rule: list_nonempty_induct)
  case (single v)
  then show ?case by (subst raw_elems.simps) (simp add: raw_value_marshal)
next
  case (cons v vs)
  then obtain v' vs' where vs: "vs = v' # vs'" by (cases vs) auto
  let ?rest = "join_with '','' (map marshal vs) @ CHR '']'' # rest"
  have "join_with '','' (map marshal (v # vs)) @ CHR '']'' # rest = marshal v @ CHR '','' # ?rest"
    by (simp add: vs)
  moreover have "raw_elems ?rest = Some (map marshal vs)" using cons by simp
  ultimately show ?case using cons.prems by (subst raw_elems.simps) (simp add: raw_value_marshal)
qed

lemma raw_member_step:
  assumes "utf8_valid k" and "plain_json 0 v"
  shows "raw_members (member_text (k, v) @ CHR ''}'' # rest) = Some [(k, marshal v)]"
    and "raw_members (member_text (k, v) @ CHR '','' # rest)
           = map_option (Cons (k, marshal v)) (raw_members rest)"
proof -
  have e: "member_text (k, v) @ c # rest
             = CHR 0x22 # quote_chars k @ CHR 0x22 # CHR '':'' # marshal v @ c # rest" for c
    by (simp add: member_text_def quote_string_def)
  show "raw_members (member_text (k, v) @ CHR ''}'' # rest) = Some [(k, marshal v)]"
    unfolding e
    by (subst raw_members.simps) (simp add: parse_quote_chars [OF assms(1)] raw_value_marshal [OF assms(2)])
  show "raw_members (member_text (k, v) @ CHR '','' # rest)
          = map_option (Cons (k, marshal v)) (raw_members rest)"
    unfolding e
    by (subst raw_members.simps) (simp add: parse_quote_chars [OF assms(1)] raw_value_marshal [OF assms(2)])
qed

lemma raw_members_marshal:
  assumes "ms \<noteq> []" and "list_all (\<lambda>(k, v). utf8_valid k \<and> plain_json 0 v) ms"
  shows "raw_members (join_with '','' (map member_text ms) @ CHR ''}'' # rest)
           = Some (map (\<lambda>(k, v). (k, marshal v)) ms)"
  using assms
proof (induction ms rule: list_nonempty_induct)
  case (single m)
  then obtain k v where "m = (k, v)" by (cases m)
  with single show ?case by (simp add: raw_member_step)
next
  case (cons m ms)
  then obtain k v where m: "m = (k, v)" by (cases m)
  from cons obtain m' ms' where ms: "ms = m' # ms'" by (cases ms) auto
  let ?rest = "join_with '','' (map member_text ms) @ CHR ''}'' # rest"
  have "join_with '','' (map member_text (m # ms)) @ CHR ''}'' # rest
          = member_text (k, v) @ CHR '','' # ?rest"
    by (simp add: ms m)
  moreover have "raw_members ?rest = Some (map (\<lambda>(k, v). (k, marshal v)) ms)"
    using cons by simp
  ultimately show ?case using cons.prems m by (simp add: raw_member_step)
qed

lemma plain_json_mono: "plain_json d v \<Longrightarrow> e \<le> d \<Longrightarrow> plain_json e v"
proof (induction v arbitrary: d e)
  case (JArr vs)
  then have "list_all (plain_json (Suc e)) vs" by (fastforce simp: list_all_iff)
  with JArr.prems show ?case by simp
next
  case (JObj ms)
  then have "list_all (\<lambda>(k, v). utf8_valid k \<and> plain_json (Suc e) v) ms" by (fastforce simp: list_all_iff)
  with JObj.prems show ?case by simp
qed auto

lemma array_texts_marshal:
  assumes "plain_json 0 (JArr vs)"
  shows "array_texts (marshal (JArr vs)) = Some (Some (map marshal vs))"
proof (cases "vs = []")
  case True
  then show ?thesis by (simp add: array_texts_def has_prefix_def)
next
  case False
  then obtain v vs' where vs: "vs = v # vs'" by (cases vs) auto
  have all: "list_all (plain_json 0) vs" using assms by (auto simp: list_all_iff intro: plain_json_mono)
  let ?es = "join_with '','' (map marshal vs) @ '']''"
  obtain tl where "?es = marshal v @ tl" using vs by (cases vs') auto
  then have "\<not> has_prefix (skip_space ?es) '']''"
    using marshal_skip_space [of 0 v tl] all vs by (auto simp: has_prefix_def)
  then show ?thesis using raw_elems_marshal [OF False all, of "[]"] by (simp add: array_texts_def)
qed

lemma object_texts_marshal:
  assumes "plain_json 0 (JObj ms)"
  shows "object_texts (marshal (JObj ms)) = Some (Some (map (\<lambda>(k, v). (k, marshal v)) ms))"
proof (cases "ms = []")
  case True
  then show ?thesis by (simp add: object_texts_def has_prefix_def)
next
  case False
  then obtain k v ms' where ms: "ms = (k, v) # ms'" by (cases ms) auto
  have all: "list_all (\<lambda>(k, v). utf8_valid k \<and> plain_json 0 v) ms"
    using assms by (auto simp: list_all_iff intro: plain_json_mono)
  let ?es = "join_with '','' (map member_text ms) @ ''}''"
  obtain tl where "?es = CHR 0x22 # tl" using ms by (cases ms') (auto simp: member_text_def quote_string_def)
  then have "\<not> has_prefix (skip_space ?es) ''}''" by (simp add: has_prefix_def)
  then show ?thesis
    using raw_members_marshal [OF False all, of "[]"] by (simp add: object_texts_def marshal_JObj del: marshal.simps)
qed

text \<open>Decoding the members one by one is decoding the values.\<close>

lemma of_value_marshal: "plain_json 0 v \<Longrightarrow> of_value dec (marshal v) r = dec v r"
  by (simp add: of_value_def parse_json_marshal)

lemma decode_object_marshal:
  "plain_json 0 (JObj ms) \<Longrightarrow>
     decode_object fs (marshal (JObj ms)) r = decode_texts fs (map (\<lambda>(k, v). (k, marshal v)) ms) r"
  by (simp add: decode_object_def object_texts_marshal del: marshal.simps)

text \<open>An array decoded from scratch.\<close>

lemma decode_elems_map:
  assumes "\<And>v. v \<in> set vs \<Longrightarrow> dec (marshal v) zero = Some (f v)"
  shows "decode_elems dec zero (map marshal vs) [] = Some (map f vs)"
  using assms by (induction vs) auto

lemma decode_array_marshal:
  assumes "plain_json 0 (JArr vs)" and "\<And>v. v \<in> set vs \<Longrightarrow> dec (marshal v) zero = Some (f v)"
  shows "decode_array dec zero (marshal (JArr vs)) [] = Some (map f vs)"
  using assms by (simp add: decode_array_def array_texts_marshal decode_elems_map del: marshal.simps)

end
