(* ===== verification/ProducerFacts.thy ===== *)
theory ProducerFacts
  imports Prober RawFacts ImportSvc Registry
begin

text \<open>
  Properties of the producers: what the hydrator and the prober write is what the import service
  reads, the prober leaves no gap and its verdicts pass the signals' validation, and a run posts
  the agents before the observations and stops at the first refusal.
\<close>

section \<open>The contract on the wire\<close>

lemma ascii_valid: "list_all (\<lambda>c. ord c < 128) s \<Longrightarrow> utf8_valid s"
proof (induction s)
  case (Cons c s)
  then show ?case by (subst utf8_valid.simps) simp
qed (simp add: utf8_valid.simps)

definition agent_wire_valid :: "agent_wire \<Rightarrow> bool" where
  "agent_wire_valid a \<longleftrightarrow>
     list_all utf8_valid ([aw_id a, aw_dns_name a, aw_display_name a, aw_description a, aw_provider a,
         aw_status a, aw_first_seen a, aw_last_updated a]
       @ aw_protocols a @ aw_transports a @ aw_tags a @ aw_capabilities a)"

definition wire_valid :: "observation_wire \<Rightarrow> bool" where
  "wire_valid w \<longleftrightarrow>
     list_all utf8_valid [ow_agent w, ow_signal w, ow_observed_at w] \<and> plain_json 3 (ow_value w)
     \<and> (case ow_provenance w of None \<Rightarrow> True | Some p \<Rightarrow> utf8_valid (fst p) \<and> utf8_valid (snd p))"

text \<open>What the server decodes: the same strings, and the bytes of the value.\<close>

definition agent_dto_of :: "agent_wire \<Rightarrow> agent_dto" where
  "agent_dto_of a =
     \<lparr>ad_id = aw_id a, ad_dns_name = aw_dns_name a, ad_display_name = aw_display_name a,
      ad_description = aw_description a, ad_provider = aw_provider a, ad_status = aw_status a,
      ad_protocols = aw_protocols a, ad_transports = aw_transports a, ad_tags = aw_tags a,
      ad_capabilities = aw_capabilities a, ad_first_seen = aw_first_seen a,
      ad_last_updated = aw_last_updated a\<rparr>"

definition observation_dto_of :: "observation_wire \<Rightarrow> observation_dto" where
  "observation_dto_of w =
     \<lparr>od_agent = ow_agent w, od_signal = ow_signal w, od_observed_at = ow_observed_at w,
      od_value = marshal (ow_value w),
      od_provenance = map_option (\<lambda>p. \<lparr>pd_aim_id = fst p, pd_evidence_url = snd p\<rparr>) (ow_provenance w)\<rparr>"

lemma members_valid [simp]:
  "list_all (\<lambda>(k, v). utf8_valid k \<and> plain_json d v) (text_member k s)
     \<longleftrightarrow> (s = [] \<or> utf8_valid k \<and> utf8_valid s)"
  "list_all (\<lambda>(k, v). utf8_valid k \<and> plain_json d v) (texts_member k vs)
     \<longleftrightarrow> (vs = [] \<or> utf8_valid k \<and> d < max_nesting \<and> list_all utf8_valid vs)"
  by (auto simp: text_member_def texts_member_def list_all_iff)

lemma agent_json_plain: "agent_wire_valid a \<Longrightarrow> plain_json 2 (agent_json a)"
  by (simp add: agent_json_def agent_wire_valid_def max_nesting_def ascii_valid)

lemma observation_json_plain: "wire_valid w \<Longrightarrow> plain_json 2 (observation_json w)"
  by (cases "ow_provenance w")
    (simp_all add: observation_json_def wire_provenance_json_def wire_valid_def max_nesting_def ascii_valid
      numeral_3_eq_3)


text \<open>A member that was left out keeps its empty zero.\<close>

lemma decode_text_member:
  assumes "\<exists>dec. find_field fs k = Some dec \<and> dec (JStr []) r = Some r"
  shows "decode_members strict fs (text_member k s @ ms) r = decode_members strict fs ((k, JStr s) # ms) r"
  using assms by (cases "s = []") (auto simp: text_member_def)

lemma decode_texts_member:
  assumes "\<exists>dec. find_field fs k = Some dec \<and> dec (JArr []) r = Some r"
  shows "decode_members strict fs (texts_member k vs @ ms) r = decode_members strict fs ((k, JArr (map JStr vs)) # ms) r"
  using assms by (cases "vs = []") (auto simp: texts_member_def)

lemma decode_agent_json:
  "decode_struct False agent_fields (agent_json a) zero_agent_dto = Some (agent_dto_of a)"
  by (simp add: decode_struct_def agent_json_def agent_fields_def find_field_def decode_text_member
    decode_texts_member zero_agent_dto_def string_elems_JStr agent_dto_of_def)

lemma decode_wire_provenance:
  "decode_struct False provenance_dto_fields (wire_provenance_json p) \<lparr>pd_aim_id = [], pd_evidence_url = []\<rparr>
     = Some \<lparr>pd_aim_id = fst p, pd_evidence_url = snd p\<rparr>"
  using decode_text_member [of provenance_dto_fields "''evidenceUrl''" "\<lparr>pd_aim_id = fst p, pd_evidence_url = []\<rparr>"
      False "snd p" "[]"]
  by (simp add: decode_struct_def wire_provenance_json_def provenance_dto_fields_def find_field_def decode_text_member)

lemma decode_observation_json:
  assumes "wire_valid w"
  shows "decode_object observation_fields (marshal (observation_json w)) zero_observation_dto
           = Some (observation_dto_of w)"
proof -
  have "plain_json 0 (observation_json w)"
    using observation_json_plain [OF assms] plain_json_mono by blast
  moreover have "plain_json 0 (ow_value w)" "utf8_valid (ow_agent w)" "utf8_valid (ow_signal w)"
    "utf8_valid (ow_observed_at w)"
    and "\<And>p. ow_provenance w = Some p \<Longrightarrow> plain_json 0 (wire_provenance_json p)"
    using assms by (auto simp: wire_valid_def wire_provenance_json_def max_nesting_def ascii_valid
        intro: plain_json_mono)
  moreover have "wire_provenance_json p \<noteq> JNull" for p by (simp add: wire_provenance_json_def)
  ultimately show ?thesis
    by (cases "ow_provenance w")
      (simp_all add: observation_json_def decode_object_marshal observation_fields_def find_field_def
        of_value_marshal zero_observation_dto_def observation_dto_of_def provenance_value_def
        decode_wire_provenance del: marshal.simps)
qed


section \<open>Whole bodies\<close>

lemma decode_agents_body:
  assumes "list_all agent_wire_valid as"
  shows "decode_body agents_request [] (marshal (agents_json as)) = Inr (map agent_dto_of as)"
proof -
  have arr: "plain_json 1 (JArr (map agent_json as))"
    using assms by (auto simp: list_all_iff max_nesting_def simp flip: numeral_2_eq_2 intro: agent_json_plain)
  then have obj: "plain_json 0 (agents_json as)"
    by (simp add: agents_json_def ascii_valid max_nesting_def)
  have "decode_array (of_value (decode_struct False agent_fields)) zero_agent_dto
          (marshal (JArr (map agent_json as))) [] = Some (map agent_dto_of as)"
  proof -
    have one: "plain_json 0 (agent_json a)" if "a \<in> set as" for a
      using assms that agent_json_plain plain_json_mono by (fastforce simp: list_all_iff)
    then have "decode_elems (of_value (decode_struct False agent_fields)) zero_agent_dto
        (map marshal (map agent_json as)) [] = Some (map agent_dto_of as)"
      by (induction as) (auto simp: of_value_marshal decode_agent_json)
    then show ?thesis
      using array_texts_marshal [OF plain_json_mono [OF arr]] by (simp add: decode_array_def del: marshal.simps)
  qed
  then have "agents_request (marshal (agents_json as)) [] = Some (map agent_dto_of as)"
    using obj by (simp add: agents_request_def agents_json_def decode_object_marshal find_field_def del: marshal.simps)
  then show ?thesis
    using raw_value_marshal [OF obj, of "[]"] by (simp add: decode_body_def)
qed

lemma decode_observations_body:
  assumes "list_all wire_valid ws"
  shows "decode_body observations_request [] (marshal (observations_json ws)) = Inr (map observation_dto_of ws)"
proof -
  have arr: "plain_json 1 (JArr (map observation_json ws))"
    using assms by (auto simp: list_all_iff max_nesting_def simp flip: numeral_2_eq_2 intro: observation_json_plain)
  then have obj: "plain_json 0 (observations_json ws)"
    by (simp add: observations_json_def ascii_valid max_nesting_def)
  have "decode_array (decode_object observation_fields) zero_observation_dto
          (marshal (JArr (map observation_json ws))) [] = Some (map observation_dto_of ws)"
  proof -
    have "decode_elems (decode_object observation_fields) zero_observation_dto
        (map marshal (map observation_json ws)) [] = Some (map observation_dto_of ws)"
      using assms by (induction ws) (auto simp: decode_observation_json)
    then show ?thesis
      using array_texts_marshal [OF plain_json_mono [OF arr]] by (simp add: decode_array_def del: marshal.simps)
  qed
  then have "observations_request (marshal (observations_json ws)) [] = Some (map observation_dto_of ws)"
    using obj by (simp add: observations_request_def observations_json_def decode_object_marshal find_field_def
        del: marshal.simps)
  then show ?thesis
    using raw_value_marshal [OF obj, of "[]"] by (simp add: decode_body_def)
qed

section \<open>The hydrator\<close>

lemma post_import_None:
  "post_import post key path body st = (None, st') \<longleftrightarrow> (\<exists>text. post path (bearer key) body st = (Answered 200 text, st'))"
  by (auto simp: post_import_def split: prod.splits exchange.splits if_splits)

text \<open>A run without error posted the agents first, then the observations if there were any; the
  summary counts what was posted.\<close>

lemma run_hydrator_done:
  assumes "run_hydrator post key aim_id events files mock st = (s, None, st')"
  shows "\<exists>text st1. post agents_path (bearer key) (marshal (agents_json (map project_agent events))) st = (Answered 200 text, st1)
    \<and> rs_agents s = length events
    \<and> (if mock
       then \<exists>obs. run_observations events files (if aim_id = [] then None else Some (aim_id, [])) = Inr obs
         \<and> rs_observations s = length obs
         \<and> (if obs = [] then st' = st1
            else \<exists>t. post observations_path (bearer key) (marshal (observations_json obs)) st1 = (Answered 200 t, st'))
       else rs_observations s = 0 \<and> st' = st1)"
proof -
  let ?prov = "if aim_id = [] then None else Some (aim_id, [])"
  obtain e1 st1 where p: "post_import post key agents_path (marshal (agents_json (map project_agent events))) st = (e1, st1)"
    by fastforce
  have "e1 = None" using assms p by (cases e1) (simp_all add: run_hydrator_def)
  with p obtain t1 where a: "post agents_path (bearer key) (marshal (agents_json (map project_agent events))) st = (Answered 200 t1, st1)"
    by (auto simp: post_import_None)
  show ?thesis
  proof (cases mock)
    case False
    then show ?thesis using assms p \<open>e1 = None\<close> a by (auto simp: run_hydrator_def)
  next
    case mock: True
    obtain obs where o: "run_observations events files ?prov = Inr obs"
      using assms p \<open>e1 = None\<close> mock by (cases "run_observations events files ?prov") (simp_all add: run_hydrator_def)
    show ?thesis
    proof (cases "obs = []")
      case True
      then show ?thesis using assms p \<open>e1 = None\<close> mock o a by (auto simp: run_hydrator_def)
    next
      case False
      obtain e2 st2 where q: "post_import post key observations_path (marshal (observations_json obs)) st1 = (e2, st2)"
        by fastforce
      have "e2 = None \<and> st' = st2 \<and> rs_agents s = length events \<and> rs_observations s = length obs"
        using assms p \<open>e1 = None\<close> mock o False q by (cases e2) (auto simp: run_hydrator_def)
      then show ?thesis using q mock o False a by (auto simp: post_import_None)
    qed
  qed
qed

text \<open>A refused agent import ends the run: no observation is posted.\<close>

lemma run_hydrator_refused:
  assumes "post_import post key agents_path (marshal (agents_json (map project_agent events))) st = (Some e, st1)"
  shows "run_hydrator post key aim_id events files mock st
    = (\<lparr>rs_agents = 0, rs_observations = 0\<rparr>, Some (Lit ''hydrator: import agents: '' # e), st1)"
  using assms by (simp add: run_hydrator_def)

section \<open>The prober\<close>

lemma probe_agent_signals:
  "map ow_signal (probe_agent pr now aim_id e)
     = [''certtype'', ''certfingerprint.server'', ''dnsrecord.ans'', ''dnsrecord.ans-badge'', ''dnssecurity'']"
  by (simp add: probe_agent_def Let_def probe_wire_def dns_verdict_def)

lemma probe_from_length: "length (probe_from i pr now aim_id es) = 5 * length es"
  by (induction es arbitrary: i) (simp_all add: probe_agent_def Let_def)

lemma probe_from_in:
  "w \<in> set (probe_from i pr now aim_id es) \<Longrightarrow>
     \<exists>j e. e \<in> set es \<and> w \<in> set (probe_agent (pr j) (map_option (\<lambda>f. f j) now) aim_id e)"
  by (induction es arbitrary: i) (auto, blast)

text \<open>The verdict a server decodes is the verdict the producer built.\<close>

definition drift_utf8 :: "drift_value \<Rightarrow> bool" where
  "drift_utf8 v \<longleftrightarrow> list_all utf8_valid [dr_expected v, dr_observed v, dr_expected_source v, dr_observed_source v]"

lemma drift_json_plain: "drift_utf8 v \<Longrightarrow> plain_json 3 (drift_json v)"
  by (simp add: drift_json_def drift_utf8_def max_nesting_def ascii_valid)

lemma decode_drift_json:
  assumes "drift_utf8 v"
  shows "decode_drift (marshal (drift_json v)) = Inr v"
proof -
  have "plain_json 0 (drift_json v)" using drift_json_plain [OF assms] plain_json_mono by blast
  then have "unmarshal drift_fields drift_zero (marshal (drift_json v)) = decode_struct False drift_fields (drift_json v) drift_zero"
    by (rule unmarshal_marshal)
  also have "\<dots> = Some v"
    by (cases v) (simp add: decode_struct_def drift_json_def drift_fields_def find_field_def drift_zero_def)
  finally show ?thesis by (simp add: decode_drift_def)
qed


text \<open>What a probe saw for a drift signal, if it succeeded, and what the log sealed for it.\<close>

definition seen :: "probe \<Rightarrow> string \<Rightarrow> signal_id \<Rightarrow> string option" where
  "seen pr host i =
     (if i = ''certfingerprint.server'' then (case pr_cert pr host of Inl _ \<Rightarrow> None | Inr c \<Rightarrow> Some (cr_fingerprint c))
      else case pr_txt pr ((if i = ''dnsrecord.ans'' then ''_ans.'' else ''_ans-badge.'') @ host) of
             Inl _ \<Rightarrow> None | Inr t \<Rightarrow> Some t)"

definition probe_utf8 :: "probe \<Rightarrow> bool" where
  "probe_utf8 pr \<longleftrightarrow>
     (\<forall>h c. pr_cert pr h = Inr c \<longrightarrow> utf8_valid (cr_fingerprint c)) \<and> (\<forall>n t. pr_txt pr n = Inr t \<longrightarrow> utf8_valid t)"

definition sealed_utf8 :: "attestations \<Rightarrow> bool" where
  "sealed_utf8 a \<longleftrightarrow> list_all utf8_valid [at_server_fingerprint a, dn_ans (at_dns a), dn_ans_badge (at_dns a)]"

lemma probe_verdicts:
  assumes "w \<in> set (probe_agent pr now aim_id e)" and "ow_signal w \<in> set drift_signal_ids"
    and "drift_baseline (ow_signal w) (ev_attestations e) = Some sealed"
  shows "\<exists>src. ow_value w = drift_json
      \<lparr>dr_expected = sealed, dr_observed = (case seen pr (ta_host (ev_agent e)) (ow_signal w) of None \<Rightarrow> [] | Some s \<Rightarrow> s),
       dr_matched = (Some sealed = seen pr (ta_host (ev_agent e)) (ow_signal w)),
       dr_expected_source = ''tl_attestation'', dr_observed_source = src\<rparr>
     \<and> src \<in> {''live_tls_handshake'', ''live_dns_query''}"
proof -
  let ?h = "ta_host (ev_agent e)"
  note parts = probe_wire_def dns_verdict_def Let_def
  from assms(2) have "ow_signal w \<noteq> ''certtype''" "ow_signal w \<noteq> ''dnssecurity''"
    by (auto simp: drift_signal_ids_def)
  then consider
      (fp) "w = probe_wire e (observed_at now) (if aim_id = [] then None else Some (aim_id, [])) ''certfingerprint.server''
            (drift_json \<lparr>dr_expected = at_server_fingerprint (ev_attestations e),
               dr_observed = (case pr_cert pr ?h of Inl _ \<Rightarrow> [] | Inr c \<Rightarrow> cr_fingerprint c),
               dr_matched = ((case pr_cert pr ?h of Inl _ \<Rightarrow> False | Inr _ \<Rightarrow> True)
                 \<and> at_server_fingerprint (ev_attestations e) = (case pr_cert pr ?h of Inl _ \<Rightarrow> [] | Inr c \<Rightarrow> cr_fingerprint c)),
               dr_expected_source = ''tl_attestation'', dr_observed_source = ''live_tls_handshake''\<rparr>)"
    | (ans) "w = dns_verdict pr e (observed_at now) (if aim_id = [] then None else Some (aim_id, [])) ''dnsrecord.ans''
            (''_ans.'' @ ?h) (dn_ans (at_dns (ev_attestations e)))"
    | (badge) "w = dns_verdict pr e (observed_at now) (if aim_id = [] then None else Some (aim_id, [])) ''dnsrecord.ans-badge''
            (''_ans-badge.'' @ ?h) (dn_ans_badge (at_dns (ev_attestations e)))"
    using assms(1) unfolding probe_agent_def Let_def by (force simp: probe_wire_def)
  then show ?thesis
  proof cases
    case fp
    then show ?thesis using assms(3)
      by (cases "pr_cert pr ?h") (auto simp: probe_wire_def drift_baseline_def seen_def intro!: exI [of _ "''live_tls_handshake''"])
  next
    case ans
    then show ?thesis using assms(3)
      by (cases "pr_txt pr (''_ans.'' @ ?h)")
        (auto simp: parts drift_baseline_def seen_def intro!: exI [of _ "''live_dns_query''"])
  next
    case badge
    then show ?thesis using assms(3)
      by (cases "pr_txt pr (''_ans-badge.'' @ ?h)")
        (auto simp: parts drift_baseline_def seen_def intro!: exI [of _ "''live_dns_query''"])
  qed
qed

lemma seen_utf8: "probe_utf8 pr \<Longrightarrow> seen pr h i = Some s \<Longrightarrow> utf8_valid s"
  by (auto simp: probe_utf8_def seen_def split: sum.splits if_splits)

text \<open>C33 A drift observation of a probe pass evaluates to 100 exactly when the log sealed
  a value and the probe saw that value, otherwise to 0, with the drift risk code exactly when a
  sealed value was not seen, and is attested by the log.\<close>

theorem probe_verdict_score:
  assumes "w \<in> set (probe_pass pr now aim_id es)" and "d \<in> set drift_configs" and "ow_signal w = dc_id d"
    and "\<And>i. probe_utf8 (pr i)" and "\<And>e. e \<in> set es \<Longrightarrow> sealed_utf8 (ev_attestations e)"
    and "o_value ob = marshal (ow_value w)"
  shows "\<exists>i e r. e \<in> set es \<and> ow_agent w = ev_ans_id e
    \<and> (case drift_baseline (dc_id d) (ev_attestations e) of
         None \<Rightarrow> False
       | Some sealed \<Rightarrow>
           drift_evaluate d a (Some ob) = Inr r \<and> r_attestation r = TlAttested
           \<and> r_raw r = (if sealed \<noteq> [] \<and> seen (pr i) (ta_host (ev_agent e)) (dc_id d) = Some sealed then 100 else 0)
           \<and> r_risks r = (if sealed \<noteq> [] \<and> seen (pr i) (ta_host (ev_agent e)) (dc_id d) \<noteq> Some sealed
                            then [dc_risk_code d] else []))"
proof -
  obtain i e where e: "e \<in> set es" and w: "w \<in> set (probe_agent (pr i) (map_option (\<lambda>f. f i) now) aim_id e)"
    using probe_from_in assms(1) unfolding probe_pass_def by blast
  let ?h = "ta_host (ev_agent e)"
  have id: "dc_id d \<in> set drift_signal_ids"
    using assms(2) by (auto simp: drift_configs_def drift_config_defs drift_signal_ids_def)
  have agent: "ow_agent w = ev_ans_id e"
    using w by (auto simp: probe_agent_def Let_def probe_wire_def dns_verdict_def)
  obtain sealed where b: "drift_baseline (dc_id d) (ev_attestations e) = Some sealed"
    using id by (auto simp: drift_baseline_def drift_signal_ids_def)
  have "dc_id d \<noteq> ''certfingerprint.identity''"
    using w assms(3) by (auto simp: probe_agent_def Let_def probe_wire_def dns_verdict_def)
  then have sealed: "utf8_valid sealed"
    using assms(5) [OF e] b id
    by (auto simp: drift_baseline_def sealed_utf8_def drift_signal_ids_def)
  from probe_verdicts [OF w, of sealed] assms(3) id b obtain src where
    v: "ow_value w = drift_json \<lparr>dr_expected = sealed,
          dr_observed = (case seen (pr i) ?h (dc_id d) of None \<Rightarrow> [] | Some s \<Rightarrow> s),
          dr_matched = (Some sealed = seen (pr i) ?h (dc_id d)),
          dr_expected_source = ''tl_attestation'', dr_observed_source = src\<rparr>" (is "_ = drift_json ?v")
    and src: "src \<in> {''live_tls_handshake'', ''live_dns_query''}" by auto
  have "utf8_valid []" "utf8_valid ''tl_attestation''" "utf8_valid src"
    using src by (auto simp: ascii_valid)
  then have "drift_utf8 ?v"
    using sealed seen_utf8 [OF assms(4), of i ?h "dc_id d"]
    by (auto simp: drift_utf8_def split: option.split)
  then have "decode_drift (o_value ob) = Inr ?v" using decode_drift_json v assms(6) by simp
  moreover have "attestation_for ''tl_attestation'' = TlAttested"
    by (simp add: attestation_for_def source_tl_attestation_def)
  ultimately show ?thesis
    using e agent b
    by (intro exI [of _ i] exI [of _ e]) (auto simp: drift_evaluate_def Let_def)
qed


section \<open>A probe pass is accepted\<close>

lemma quote_chars_length: "length (quote_chars s) \<le> 6 * length s"
proof (induction s rule: quote_chars.induct)
  case (1 s)
  show ?case
  proof (cases s)
    case Nil
    then show ?thesis by (simp add: quote_chars.simps)
  next
    case (Cons c r)
    have "paragraph_separator \<noteq> line_separator" by (simp add: line_separator_def paragraph_separator_def)
    moreover have "length (quote_ascii c) \<le> 6" by (auto simp: quote_ascii_def u_escape_def)
    moreover have "take 3 s = line_separator \<or> take 3 s = paragraph_separator \<Longrightarrow> 3 \<le> length s"
      by (auto simp: line_separator_def paragraph_separator_def dest: arg_cong [where f = length])
    ultimately show ?thesis
      using "1.IH" Cons by (subst quote_chars.simps) (auto simp: u_escape_def)
  qed
qed

lemma quote_string_length: "length (quote_string s) \<le> 6 * length s + 2"
  using quote_chars_length [of s] by (simp add: quote_string_def)

text \<open>A value within the server's 64 KiB: every byte of a string takes at most six.\<close>

lemma drift_json_short:
  assumes "length (dr_expected v) \<le> 5000" and "length (dr_observed v) \<le> 5000"
    and "length (dr_expected_source v) \<le> 20" and "length (dr_observed_source v) \<le> 20"
  shows "length (marshal (drift_json v)) \<le> 65536"
  using assms quote_string_length [of "dr_expected v"] quote_string_length [of "dr_observed v"]
    quote_string_length [of "dr_expected_source v"] quote_string_length [of "dr_observed_source v"]
    quote_string_length [of "''expected''"] quote_string_length [of "''observed''"] quote_string_length [of "''matched''"]
    quote_string_length [of "''expectedSource''"] quote_string_length [of "''observedSource''"]
  by (simp add: drift_json_def)

definition format_ok :: "string \<Rightarrow> bool" where
  "format_ok fp \<longleftrightarrow> fp = [] \<or> valid_fingerprint fp"

definition probe_honest :: "probe \<Rightarrow> bool" where
  "probe_honest pr \<longleftrightarrow> probe_utf8 pr
     \<and> (\<forall>h c. pr_cert pr h = Inr c \<longrightarrow> cr_type c \<in> {''DV'', ''OV'', ''EV'', ''none''} \<and> format_ok (cr_fingerprint c))
     \<and> (\<forall>n t. pr_txt pr n = Inr t \<longrightarrow> length t \<le> 5000)"

definition event_sealed :: "tl_event \<Rightarrow> bool" where
  "event_sealed e \<longleftrightarrow> ev_ans_id e \<noteq> [] \<and> length (ev_ans_id e) \<le> 128 \<and> utf8_valid (ev_ans_id e)
     \<and> sealed_utf8 (ev_attestations e) \<and> format_ok (at_server_fingerprint (ev_attestations e))
     \<and> length (dn_ans (at_dns (ev_attestations e))) \<le> 5000
     \<and> length (dn_ans_badge (at_dns (ev_attestations e))) \<le> 5000"

definition stamp_ok :: "string \<Rightarrow> bool" where
  "stamp_ok s \<longleftrightarrow> utf8_valid s \<and> parse_rfc3339 s \<noteq> None"

text \<open>The payloads of the five observations.\<close>

definition payload_ok :: "signal_id \<Rightarrow> json \<Rightarrow> bool" where
  "payload_ok i v \<longleftrightarrow>
     i = ''certtype'' \<and> (\<exists>t \<in> {''DV'', ''OV'', ''EV'', ''none''}. v = JObj [(''type'', JStr t)])
     \<or> i = ''dnssecurity'' \<and> (\<exists>b. v = JObj [(''caa'', JBool b), (''dnssec'', JBool False)])
     \<or> (\<exists>d \<in> set drift_configs. \<exists>dv. i = dc_id d \<and> v = drift_json dv \<and> drift_utf8 dv
          \<and> length (marshal v) \<le> 65536
          \<and> (dr_observed dv \<noteq> [] \<longrightarrow> dr_matched dv = (dr_expected dv = dr_observed dv))
          \<and> (dc_validate_value d \<noteq> None \<longrightarrow> format_ok (dr_expected dv) \<and> format_ok (dr_observed dv)))"

lemma drift_payload_valid:
  assumes "d \<in> set drift_configs" and "drift_utf8 dv"
    and "dr_observed dv \<noteq> [] \<longrightarrow> dr_matched dv = (dr_expected dv = dr_observed dv)"
    and "dc_validate_value d \<noteq> None \<longrightarrow> format_ok (dr_expected dv) \<and> format_ok (dr_observed dv)"
  shows "drift_validate d (marshal (drift_json dv)) = None"
proof -
  have "dc_validate_value d = None \<or> dc_validate_value d = Some fingerprint_pair"
    using assms(1) by (auto simp: drift_configs_def drift_config_defs)
  then show ?thesis
    using assms(3,4) by (auto simp: drift_validate_def decode_drift_json [OF assms(2)] fingerprint_pair_def format_ok_def)
qed

lemma unmarshal_one:
  assumes "plain_json 0 v"
  shows "decode_cert_type (marshal v) = (case decode_struct False [(''type'', string_value)] v [] of
           None \<Rightarrow> Inl [Lit ''certtype: invalid value: '', Cause ''json''] | Some t \<Rightarrow> Inr t)"
    and "decode_dnssec (marshal v) = (case decode_struct False dnssec_fields v \<lparr>dv_dnssec = False, dv_caa = False\<rparr> of
           None \<Rightarrow> Inl [Lit ''dnssecurity: invalid value: '', Cause ''json''] | Some t \<Rightarrow> Inr t)"
  using assms by (simp_all add: decode_cert_type_def decode_dnssec_def unmarshal_marshal)

lemma built_in_cases:
  assumes "sg \<in> set (built_ins t)"
  obtains "sg = cert_type_signal" | "sg = dnssec_signal" | "sg = agent_age_signal t" | "sg = version_signal"
    | d where "d \<in> set drift_configs" "sg = drift_signal d"
  using assms by (auto simp: built_ins_def drift_configs_def)

lemma drift_ids_map: "map dc_id drift_configs = drift_signal_ids"
  by (simp add: drift_configs_def drift_config_defs drift_signal_ids_def)

lemma drift_id: "d \<in> set drift_configs \<Longrightarrow> dc_id d \<in> set drift_signal_ids"
  by (metis drift_ids_map image_eqI set_map)

lemma drift_id_inj: "d \<in> set drift_configs \<Longrightarrow> d' \<in> set drift_configs \<Longrightarrow> dc_id d = dc_id d' \<Longrightarrow> d = d'"
proof -
  have "distinct (map dc_id drift_configs)" unfolding drift_ids_map by (simp add: drift_signal_ids_def)
  then show "d \<in> set drift_configs \<Longrightarrow> d' \<in> set drift_configs \<Longrightarrow> dc_id d = dc_id d' \<Longrightarrow> d = d'"
    by (auto simp: distinct_map dest: inj_onD)
qed

lemma payload_cases:
  assumes "payload_ok i v"
  shows "i = ''certtype'' \<Longrightarrow> \<exists>t \<in> {''DV'', ''OV'', ''EV'', ''none''}. v = JObj [(''type'', JStr t)]"
    and "i = ''dnssecurity'' \<Longrightarrow> \<exists>b. v = JObj [(''caa'', JBool b), (''dnssec'', JBool False)]"
    and "i \<noteq> ''agentage''" and "i \<noteq> ''versionstability''"
proof -
  have "i \<in> {''certtype'', ''dnssecurity''} \<union> set drift_signal_ids"
    using assms drift_id by (auto simp: payload_ok_def)
  then show "i \<noteq> ''agentage''" "i \<noteq> ''versionstability''" by (auto simp: drift_signal_ids_def)
  have no: "i \<noteq> dc_id d" if "d \<in> set drift_configs" "i \<in> {''certtype'', ''dnssecurity''}" for d
    using drift_id [OF that(1)] that(2) by (auto simp: drift_signal_ids_def)
  show "i = ''certtype'' \<Longrightarrow> \<exists>t \<in> {''DV'', ''OV'', ''EV'', ''none''}. v = JObj [(''type'', JStr t)]"
    and "i = ''dnssecurity'' \<Longrightarrow> \<exists>b. v = JObj [(''caa'', JBool b), (''dnssec'', JBool False)]"
  proof -
    assume i: "i = ''certtype''"
    then have "i \<noteq> ''dnssecurity''" by simp
    with i no assms show "\<exists>t \<in> {''DV'', ''OV'', ''EV'', ''none''}. v = JObj [(''type'', JStr t)]"
      unfolding payload_ok_def by blast
  next
    assume i: "i = ''dnssecurity''"
    then have "i \<noteq> ''certtype''" by simp
    with i no assms show "\<exists>b. v = JObj [(''caa'', JBool b), (''dnssec'', JBool False)]"
      unfolding payload_ok_def by blast
  qed
qed

lemma payload_drift:
  assumes "payload_ok (dc_id d) v" and "d \<in> set drift_configs"
  obtains dv where "v = drift_json dv" "drift_utf8 dv"
    "dr_observed dv \<noteq> [] \<longrightarrow> dr_matched dv = (dr_expected dv = dr_observed dv)"
    "dc_validate_value d \<noteq> None \<longrightarrow> format_ok (dr_expected dv) \<and> format_ok (dr_observed dv)"
proof -
  have "dc_id d \<noteq> ''certtype''" "dc_id d \<noteq> ''dnssecurity''"
    using drift_id [OF assms(2)] by (auto simp: drift_signal_ids_def)
  then show thesis using assms that drift_id_inj unfolding payload_ok_def by metis
qed

lemma payload_valid:
  assumes "payload_ok i v" and "sg \<in> set (built_ins t)" and "sig_id sg = i"
  shows "sig_validate sg (marshal v) = None \<and> \<not> sig_derived sg"
  using assms(2)
proof (cases rule: built_in_cases)
  case 1
  then have "i = ''certtype''" using assms(3) by (simp add: cert_type_signal_def)
  then obtain ty where ty: "ty \<in> {''DV'', ''OV'', ''EV'', ''none''}" "v = JObj [(''type'', JStr ty)]"
    using payload_cases(1) [OF assms(1)] by blast
  then have "plain_json 0 v" by (auto simp: max_nesting_def ascii_valid)
  then have "decode_cert_type (marshal v) = Inr ty"
    using ty by (simp add: unmarshal_one decode_struct_def find_field_def del: marshal.simps)
  with ty show ?thesis unfolding 1 by (auto simp: cert_type_signal_def cert_type_validate_def)
next
  case 2
  then have "i = ''dnssecurity''" using assms(3) by (simp add: dnssec_signal_def)
  then obtain b where b: "v = JObj [(''caa'', JBool b), (''dnssec'', JBool False)]"
    using payload_cases(2) [OF assms(1)] by blast
  then have "plain_json 0 v" by (auto simp: max_nesting_def ascii_valid)
  then have "decode_dnssec (marshal v) = Inr \<lparr>dv_dnssec = False, dv_caa = b\<rparr>"
    using b by (simp add: unmarshal_one decode_struct_def find_field_def dnssec_fields_def del: marshal.simps)
  then show ?thesis unfolding 2 by (simp add: dnssec_signal_def dnssec_validate_def)
next
  case 3
  then show ?thesis using payload_cases(3) [OF assms(1)] assms(3) by (simp add: agent_age_signal_def)
next
  case 4
  then show ?thesis using payload_cases(4) [OF assms(1)] assms(3) by (simp add: version_signal_def)
next
  case (5 d)
  then have "i = dc_id d" using assms(3) by (simp add: drift_signal_def)
  with assms(1) obtain dv where "v = drift_json dv" "drift_utf8 dv"
    "dr_observed dv \<noteq> [] \<longrightarrow> dr_matched dv = (dr_expected dv = dr_observed dv)"
    "dc_validate_value d \<noteq> None \<longrightarrow> format_ok (dr_expected dv) \<and> format_ok (dr_observed dv)"
    using payload_drift [OF _ 5(1)] by metis
  then show ?thesis
    using drift_payload_valid [OF 5(1)] 5(2) by (simp add: drift_signal_def)
qed

lemma payload_plain: "payload_ok i v \<Longrightarrow> plain_json 3 v"
  by (auto simp: payload_ok_def drift_json_plain max_nesting_def ascii_valid)

lemma payload_short:
  assumes "payload_ok i v"
  shows "length (marshal v) \<le> 65536"
  using assms quote_string_length [of "''type''"] quote_string_length [of "''caa''"] quote_string_length [of "''dnssec''"]
    quote_string_length [of "''DV''"] quote_string_length [of "''OV''"] quote_string_length [of "''EV''"]
    quote_string_length [of "''none''"]
  by (auto simp: payload_ok_def)

lemma format_length: "format_ok fp \<Longrightarrow> length fp \<le> 5000"
  by (auto simp: format_ok_def valid_fingerprint_def Let_def split: if_splits)

lemma probe_payloads:
  assumes "w \<in> set (probe_agent pr now aim_id e)" and "probe_honest pr" and "event_sealed e"
  shows "payload_ok (ow_signal w) (ow_value w)"
proof (cases "ow_signal w \<in> set drift_signal_ids")
  case True
  have "ow_signal w \<noteq> ''certfingerprint.identity''"
    using assms(1) by (auto simp: probe_agent_def Let_def probe_wire_def dns_verdict_def)
  with True obtain sealed where b: "drift_baseline (ow_signal w) (ev_attestations e) = Some sealed"
    by (auto simp: drift_signal_ids_def drift_baseline_def)
  let ?s = "seen pr (ta_host (ev_agent e)) (ow_signal w)"
  from probe_verdicts [OF assms(1) True b] obtain src where
    v: "ow_value w = drift_json \<lparr>dr_expected = sealed, dr_observed = (case ?s of None \<Rightarrow> [] | Some s \<Rightarrow> s),
          dr_matched = (Some sealed = ?s), dr_expected_source = ''tl_attestation'', dr_observed_source = src\<rparr>"
      (is "_ = drift_json ?dv")
    and src: "src \<in> {''live_tls_handshake'', ''live_dns_query''}" by blast
  obtain d where d: "d \<in> set drift_configs" "dc_id d = ow_signal w"
    using True unfolding drift_ids_map [symmetric] by auto
  have "utf8_valid sealed"
    using b assms(3) \<open>ow_signal w \<noteq> ''certfingerprint.identity''\<close>
    by (auto simp: drift_baseline_def event_sealed_def sealed_utf8_def split: if_splits)
  moreover have "utf8_valid []" "utf8_valid ''tl_attestation''" "utf8_valid src"
    using src by (auto simp: ascii_valid)
  moreover have "utf8_valid s" if "?s = Some s" for s
    using seen_utf8 [OF _ that] assms(2) by (simp add: probe_honest_def)
  ultimately have "drift_utf8 ?dv" by (auto simp: drift_utf8_def split: option.split)
  moreover have "dr_observed ?dv \<noteq> [] \<longrightarrow> dr_matched ?dv = (dr_expected ?dv = dr_observed ?dv)"
    by (auto split: option.split)
  moreover have "dc_validate_value d \<noteq> None \<longrightarrow> format_ok (dr_expected ?dv) \<and> format_ok (dr_observed ?dv)"
  proof
    assume "dc_validate_value d \<noteq> None"
    with d \<open>ow_signal w \<noteq> ''certfingerprint.identity''\<close> have i: "ow_signal w = ''certfingerprint.server''"
      by (auto simp: drift_configs_def drift_config_defs)
    then show "format_ok (dr_expected ?dv) \<and> format_ok (dr_observed ?dv)"
      using b assms(2,3) by (auto simp: drift_baseline_def event_sealed_def probe_honest_def seen_def format_ok_def
          split: sum.splits)
  qed
  moreover have "length (marshal (drift_json ?dv)) \<le> 65536"
  proof (rule drift_json_short)
    show "length (dr_expected ?dv) \<le> 5000"
      using b assms(3) \<open>ow_signal w \<noteq> ''certfingerprint.identity''\<close>
      by (auto simp: drift_baseline_def event_sealed_def split: if_splits intro: format_length)
    have "length s \<le> 5000" if "?s = Some s" for s
      using that assms(2) unfolding probe_honest_def seen_def
      by (auto split: if_splits sum.splits intro: format_length)
    then show "length (dr_observed ?dv) \<le> 5000" by (auto split: option.split)
  qed (use src in auto)
  ultimately show ?thesis using d v by (auto simp: payload_ok_def intro!: bexI [of _ d] exI [of _ ?dv])
next
  case False
  let ?mk = "probe_wire e (observed_at now) (if aim_id = [] then None else Some (aim_id, []))"
  have "w = ?mk ''certtype'' (JObj [(''type'', JStr (case pr_cert pr (ta_host (ev_agent e)) of Inl _ \<Rightarrow> ''none'' | Inr c \<Rightarrow> cr_type c))])
      \<or> ow_signal w \<in> set drift_signal_ids
      \<or> w = ?mk ''dnssecurity'' (JObj [(''caa'', JBool (case pr_caa pr (ta_host (ev_agent e)) of Inl _ \<Rightarrow> False | Inr b \<Rightarrow> b)),
              (''dnssec'', JBool False)])"
    using assms(1) unfolding probe_agent_def Let_def list.set insert_iff empty_iff
    by (elim disjE) (simp_all add: probe_wire_def dns_verdict_def drift_signal_ids_def Let_def)
  with False consider
      (ct) "w = ?mk ''certtype'' (JObj [(''type'', JStr (case pr_cert pr (ta_host (ev_agent e)) of Inl _ \<Rightarrow> ''none'' | Inr c \<Rightarrow> cr_type c))])"
    | (ds) "w = ?mk ''dnssecurity'' (JObj [(''caa'', JBool (case pr_caa pr (ta_host (ev_agent e)) of Inl _ \<Rightarrow> False | Inr b \<Rightarrow> b)),
              (''dnssec'', JBool False)])" by blast
  then show ?thesis
  proof cases
    case ct
    then show ?thesis using assms(2)
      by (cases "pr_cert pr (ta_host (ev_agent e))") (auto simp: payload_ok_def probe_honest_def probe_wire_def)
  next
    case ds
    then show ?thesis by (auto simp: payload_ok_def probe_wire_def)
  qed
qed


lemma probe_agent_parts:
  assumes "w \<in> set (probe_agent pr now aim_id e)"
  shows "ow_agent w = ev_ans_id e \<and> ow_observed_at w = observed_at now
    \<and> ow_provenance w = (if aim_id = [] then None else Some (aim_id, []))
    \<and> ow_signal w \<in> {''certtype'', ''certfingerprint.server'', ''dnsrecord.ans'', ''dnsrecord.ans-badge'', ''dnssecurity''}"
  using assms unfolding probe_agent_def Let_def list.set insert_iff empty_iff
  by (elim disjE) (simp_all add: probe_wire_def dns_verdict_def Let_def)

lemma probe_wire_valid:
  assumes "w \<in> set (probe_agent pr now aim_id e)" and "probe_honest pr" and "event_sealed e"
    and "stamp_ok (observed_at now)" and "utf8_valid aim_id"
  shows "wire_valid w"
proof -
  note p = probe_agent_parts [OF assms(1)]
  have "utf8_valid (ow_signal w)" using p by (auto simp: ascii_valid)
  moreover have "utf8_valid []" by (simp add: ascii_valid)
  ultimately show ?thesis
    using p payload_plain [OF probe_payloads [OF assms(1-3)]] assms(3-5)
    by (simp add: wire_valid_def event_sealed_def stamp_ok_def)
qed

lemma parse_nothing: "parse_rfc3339 [] = None"
  by code_simp

lemma probe_wire_domain:
  assumes "w \<in> set (probe_agent pr now aim_id e)" and "event_sealed e"
    and "stamp_ok (observed_at now)" and "length aim_id \<le> 128"
    and "payload_ok (ow_signal w) (ow_value w)"
  shows "\<exists>ob. observation_to_domain ph (observation_dto_of w) = Inr ob
    \<and> o_agent ob = ow_agent w \<and> o_signal ob = ow_signal w \<and> o_value ob = marshal (ow_value w)"
proof -
  note p = probe_agent_parts [OF assms(1)]
  obtain t where t: "parse_rfc3339 (ow_observed_at w) = Some t" "ow_observed_at w \<noteq> []"
    using assms(3) p parse_nothing by (metis stamp_ok_def option.exhaust)
  have v: "marshal (ow_value w) \<noteq> []" "marshal (ow_value w) \<noteq> ''null''"
    using assms(5) by (auto simp: payload_ok_def drift_json_def)
  have s: "ow_signal w \<noteq> []" "length (ow_signal w) \<le> 128" using p by auto
  show ?thesis
    using p t v s assms(2,4) payload_short [OF assms(5)]
    by (simp add: observation_to_domain_def observation_dto_of_def check_str_len_def byte_len_def cap_defs
      event_sealed_def parse_required_time_def provenance_to_domain_def check_evidence_url_def)
qed

text \<open>C32 The body a probe pass over at least one event posts is decoded and converted by
  the import service without error into five observations per event, with the same agents,
  signals and value bytes, and every value passes the Validate of its built-in signal, whichever
  probes failed; provided that the ids are non-empty UTF-8 of at most 128 bytes, sealed and
  probed fingerprints are empty or SHA256: and 64 hex digits, sealed and probed TXT texts are
  UTF-8 of at most 5000 bytes, a probed certificate type is DV, OV, EV or none, the stamps are
  UTF-8 RFC 3339 times, and the aimId is UTF-8 of at most 128 bytes.\<close>

theorem probe_pass_accepted:
  assumes "es \<noteq> []" and "\<And>e. e \<in> set es \<Longrightarrow> event_sealed e" and "\<And>i. probe_honest (pr i)"
    and "\<And>i. stamp_ok (observed_at (map_option (\<lambda>f. f i) now))"
    and "utf8_valid aim_id" and "length aim_id \<le> 128"
  shows "\<exists>obs. try_bind (decode_body observations_request [] (marshal (observations_json (probe_pass pr now aim_id es))))
               (observations_to_domain ph) = Inr obs
    \<and> map (\<lambda>ob. (o_agent ob, o_signal ob, o_value ob)) obs
        = map (\<lambda>w. (ow_agent w, ow_signal w, marshal (ow_value w))) (probe_pass pr now aim_id es)
    \<and> length obs = 5 * length es
    \<and> (\<forall>ob \<in> set obs. \<forall>sg \<in> set (built_ins t). sig_id sg = o_signal ob \<longrightarrow>
         sig_validate sg (o_value ob) = None \<and> \<not> sig_derived sg)"
proof -
  let ?ws = "probe_pass pr now aim_id es"
  have each: "payload_ok (ow_signal w) (ow_value w) \<and> wire_valid w
      \<and> (\<exists>ob. observation_to_domain ph (observation_dto_of w) = Inr ob
          \<and> o_agent ob = ow_agent w \<and> o_signal ob = ow_signal w \<and> o_value ob = marshal (ow_value w))"
    if w: "w \<in> set ?ws" for w
  proof -
    obtain i e where e: "e \<in> set es" "w \<in> set (probe_agent (pr i) (map_option (\<lambda>f. f i) now) aim_id e)"
      using probe_from_in w unfolding probe_pass_def by blast
    note ok = probe_payloads [OF e(2) assms(3) assms(2) [OF e(1)]]
    show ?thesis
      using ok probe_wire_valid [OF e(2) assms(3) assms(2) [OF e(1)] assms(4,5)]
        probe_wire_domain [OF e(2) assms(2) [OF e(1)] assms(4,6) ok] by blast
  qed
  have "decode_body observations_request [] (marshal (observations_json ?ws)) = Inr (map observation_dto_of ?ws)"
    using each by (intro decode_observations_body) (simp add: list_all_iff)
  moreover have "\<exists>obs. collect (observation_to_domain ph) (map observation_dto_of ws) = Inr obs
      \<and> map (\<lambda>ob. (o_agent ob, o_signal ob, o_value ob)) obs
          = map (\<lambda>w. (ow_agent w, ow_signal w, marshal (ow_value w))) ws" if "set ws \<subseteq> set ?ws" for ws
    using that
  proof (induction ws)
    case (Cons w ws)
    then obtain ob obs where "observation_to_domain ph (observation_dto_of w) = Inr ob"
        "o_agent ob = ow_agent w \<and> o_signal ob = ow_signal w \<and> o_value ob = marshal (ow_value w)"
        "collect (observation_to_domain ph) (map observation_dto_of ws) = Inr obs"
        "map (\<lambda>ob. (o_agent ob, o_signal ob, o_value ob)) obs
          = map (\<lambda>w. (ow_agent w, ow_signal w, marshal (ow_value w))) ws"
      using each [of w] by auto
    then show ?case by auto
  qed simp
  then obtain obs where obs: "collect (observation_to_domain ph) (map observation_dto_of ?ws) = Inr obs"
      "map (\<lambda>ob. (o_agent ob, o_signal ob, o_value ob)) obs
          = map (\<lambda>w. (ow_agent w, ow_signal w, marshal (ow_value w))) ?ws" by blast
  have len: "length ?ws = 5 * length es" by (simp add: probe_pass_def probe_from_length)
  then have "?ws \<noteq> []" using assms(1) by auto
  ultimately have "try_bind (decode_body observations_request [] (marshal (observations_json ?ws)))
      (observations_to_domain ph) = Inr obs"
    using obs(1) by (simp add: observations_to_domain_def)
  moreover have "length obs = 5 * length es" using arg_cong [OF obs(2), of length] len by simp
  moreover have "sig_validate sg (o_value ob) = None \<and> \<not> sig_derived sg"
    if "ob \<in> set obs" "sg \<in> set (built_ins t)" "sig_id sg = o_signal ob" for ob sg
  proof -
    from that(1) have "(o_agent ob, o_signal ob, o_value ob) \<in> set (map (\<lambda>ob. (o_agent ob, o_signal ob, o_value ob)) obs)"
      by simp
    with obs(2) obtain w where "w \<in> set ?ws" "o_signal ob = ow_signal w" "o_value ob = marshal (ow_value w)" by auto
    then show ?thesis using each [of w] payload_valid [OF _ that(2)] that(3) by metis
  qed
  ultimately show ?thesis using obs(2) by blast
qed


definition example_probe :: probe where
  "example_probe =
     \<lparr>pr_cert = (\<lambda>h. Inl ''refused''), pr_txt = (\<lambda>n. if n = ''_ans.h'' then Inr ''v=ans2'' else Inl ''NXDOMAIN''),
      pr_caa = (\<lambda>h. Inr True)\<rparr>"

lemma example_probe_honest: "probe_honest example_probe"
  by (simp add: probe_honest_def probe_utf8_def example_probe_def ascii_valid)

lemma example_event_sealed: "event_sealed example_event"
  by (simp add: event_sealed_def sealed_utf8_def example_event_def no_attestations_def format_ok_def ascii_valid)

lemma example_stamp: "stamp_ok (observed_at (map_option (\<lambda>f. f i) None))"
proof -
  have "parse_rfc3339 observed_at_placeholder \<noteq> None" by code_simp
  moreover have "utf8_valid observed_at_placeholder" by (simp add: observed_at_placeholder_def ascii_valid)
  ultimately show ?thesis by (simp add: stamp_ok_def observed_at_def)
qed

theorem probe_pass_accepted_witness:
  "\<exists>obs. try_bind (decode_body observations_request []
             (marshal (observations_json (probe_pass (\<lambda>i. example_probe) None [] [example_event]))))
           (observations_to_domain (\<lambda>h. Some h)) = Inr obs \<and> length obs = 5"
proof -
  have "e \<in> set [example_event] \<Longrightarrow> event_sealed e" for e using example_event_sealed by simp
  moreover have "utf8_valid []" "length ([] :: string) \<le> 128" by (simp_all add: ascii_valid)
  ultimately obtain obs where "try_bind (decode_body observations_request []
             (marshal (observations_json (probe_pass (\<lambda>i. example_probe) None [] [example_event]))))
           (observations_to_domain (\<lambda>h. Some h)) = Inr obs \<and> length obs = 5 * length [example_event]"
    using probe_pass_accepted [of "[example_event]" "\<lambda>i. example_probe" None "[]" "\<lambda>h. Some h",
        OF _ _ example_probe_honest example_stamp] by blast
  then show ?thesis by auto
qed

text \<open>A sealed \<open>_ans\<close> record that the live zone contradicts.\<close>

theorem probe_verdict_score_witness:
  "\<exists>w \<in> set (probe_pass (\<lambda>i. example_probe) None [] [example_event]). ow_signal w = ''dnsrecord.ans''
     \<and> (\<exists>r. drift_evaluate dns_record_ans example_agent
               (Some \<lparr>o_agent = ow_agent w, o_signal = ow_signal w, o_observed_at = 0,
                      o_value = marshal (ow_value w), o_provenance = None\<rparr>) = Inr r
          \<and> r_raw r = 0 \<and> r_risks r = [RiskDNSANSDrift])"
proof -
  let ?ws = "probe_pass (\<lambda>i. example_probe) None [] [example_event]"
  have "''dnsrecord.ans'' \<in> set (map ow_signal ?ws)"
    by (simp add: probe_pass_def probe_agent_signals del: set_map)
  then obtain w where w: "w \<in> set ?ws" "ow_signal w = ''dnsrecord.ans''" by auto
  let ?ob = "\<lparr>o_agent = ow_agent w, o_signal = ow_signal w, o_observed_at = 0,
              o_value = marshal (ow_value w), o_provenance = None\<rparr>"
  have d: "dns_record_ans \<in> set drift_configs" "dc_id dns_record_ans = ''dnsrecord.ans''"
    by (simp_all add: drift_configs_def dns_record_ans_def)
  have "probe_utf8 example_probe" using example_probe_honest by (simp add: probe_honest_def)
  moreover have "sealed_utf8 (ev_attestations e)" if "e \<in> set [example_event]" for e
    using that example_event_sealed by (simp add: event_sealed_def)
  ultimately obtain r where "drift_evaluate dns_record_ans example_agent (Some ?ob) = Inr r" "r_raw r = 0"
      "r_risks r = [dc_risk_code dns_record_ans]"
    using probe_verdict_score [OF w(1) d(1), of ?ob example_agent] w(2) d(2)
    by (fastforce simp: drift_baseline_def seen_def example_probe_def example_event_def no_attestations_def)
  then show ?thesis using w by (intro bexI [of _ w]) (auto simp: dns_record_ans_def)
qed

end
