(* ===== verification/RouterFacts.thy ===== *)
theory RouterFacts
  imports Router ProducerFacts
begin

text \<open>
  Properties of the whole server: only an accepted, authenticated import changes the store, and
  what an import acknowledged is what the detail route answers.
\<close>

lemma admin_chain_cases:
  assumes "new_admin_auth cfg = Inr auth"
    and "admin_chain auth (\<lambda>body d. Inl (H body d)) rq d = (h, line)"
  shows "h_store h = d \<and> rs_status (h_response h) \<in> {400, 401, 413}
    \<or> (\<exists>b. rq_body rq = Body b \<and> h = H b d \<and> (ac_require_key cfg \<longrightarrow> rq_authorization rq = ''Bearer '' @ ac_key cfg))"
proof (cases "rq_body rq")
  case BrokenBody
  then have "h = reject (Typed (new_error 400 ''INVALID_REQUEST'' [Lit ''request body could not be read''])) d"
    using assms(2) by (auto simp: admin_chain_def audit_def Let_def)
  then show ?thesis using reject_status [of 400] by (simp add: reject_def)
next
  case (Body b)
  show ?thesis
  proof (cases "length b > max_admin_body_bytes")
    case True
    then have "h = reject (Typed (new_error 413 ''REQUEST_TOO_LARGE''
        [Lit ''request body exceeds '', Num (int max_admin_body_bytes), Lit '' bytes''])) d"
      using assms(2) Body by (auto simp: admin_chain_def audit_def Let_def)
    then show ?thesis using reject_status [of 413] by (simp add: reject_def)
  next
    case small: False
    then have h: "h = recoverer (auth (rq_authorization rq) (\<lambda>d. Inl (H b d))) d"
      using assms(2) Body by (auto simp: admin_chain_def audit_def Let_def)
    show ?thesis
    proof (cases "ac_require_key cfg \<and> rq_authorization rq \<noteq> ''Bearer '' @ ac_key cfg")
      case True
      then have "h = reject (Typed (new_error 401 CodeUnauthorized [Lit ''missing or invalid admin bearer key''])) d"
        using new_admin_auth_denies [OF assms(1)] h by (simp add: recoverer_def)
      then show ?thesis using reject_status [of 401] by (simp add: reject_def)
    next
      case False
      then have "auth (rq_authorization rq) (\<lambda>d. Inl (H b d)) d = Inl (H b d)"
        using assms(1) by (auto simp: new_admin_auth_def split: if_splits)
      then show ?thesis using h False Body by (auto simp: recoverer_def)
    qed
  qed
qed

lemma admin_handler_Inl:
  "admin_handler ph sv r = (\<lambda>body d. Inl (if r = ImportAgentsRoute then import_agents_handler sqlite_port body d
     else import_observations_handler ph sqlite_port (get_signal (sv_registry sv)) body d))"
  by (simp add: admin_handler_def fun_eq_iff)

lemma handler_keeps_store:
  assumes "h = (if r = ImportAgentsRoute then import_agents_handler sqlite_port body d
     else import_observations_handler ph sqlite_port lookup body d)" and "h_store h \<noteq> d"
  shows "rs_status (h_response h) = 200"
proof (cases "r = ImportAgentsRoute")
  case True
  then show ?thesis using assms agents_outcome [of h body d] by auto
next
  case False
  then show ?thesis using assms observations_outcome [of h ph lookup body d]
    by (cases "try_bind (decode_body observations_request [] body) (observations_to_domain ph)")
      (auto split: option.splits)
qed

lemma serve_admin:
  assumes "match_route (hr_method rq) (hr_path rq) = Route r" and "r \<in> {ImportAgentsRoute, ImportObservationsRoute}"
  shows "serve ph fts sv now rq d =
     (case admin_chain (sv_admin_auth sv) (admin_handler ph sv r)
             \<lparr>rq_path = hr_path rq, rq_authorization = hr_authorization rq, rq_body = hr_body rq\<rparr> d of
        (h, line) \<Rightarrow> (AdminAnswer (h_response h), h_store h, Some (AuditLine line)))"
  using assms by (auto simp: serve_def Let_def)

lemma serve_other:
  assumes "\<And>r. match_route (hr_method rq) (hr_path rq) = Route r \<Longrightarrow> r \<notin> {ImportAgentsRoute, ImportObservationsRoute}"
  shows "fst (snd (serve ph fts sv now rq d)) = d"
  using assms by (auto simp: serve_def Let_def split: routed.split route.split)

lemma route_admin:
  assumes "match_route meth path = Route r" and "r \<in> {ImportAgentsRoute, ImportObservationsRoute}"
  shows "meth = ''POST'' \<and> path \<in> {''/v1/internal/agents/import'', ''/v1/internal/observations/import''}"
  using assms by (auto simp: match_route_def with_method_def split: if_splits option.splits)

text \<open>C4 A request changes the store only if it is a POST to one of the two import routes,
  carries exactly the admin key when one is required, is answered 200 and is audited as
  accepted.\<close>

theorem writes_need_key:
  assumes "new_admin_auth cfg = Inr (sv_admin_auth sv)"
    and "serve ph fts sv now rq d = (ans, d', line)" and "d' \<noteq> d"
  shows "hr_method rq = ''POST''
    \<and> hr_path rq \<in> {''/v1/internal/agents/import'', ''/v1/internal/observations/import''}
    \<and> (ac_require_key cfg \<longrightarrow> hr_authorization rq = ''Bearer '' @ ac_key cfg)
    \<and> answer_status ans = 200
    \<and> (\<exists>l. line = Some (AuditLine l) \<and> al_outcome l = ''accepted'' \<and> al_status l = 200)"
proof -
  obtain r where r: "match_route (hr_method rq) (hr_path rq) = Route r" "r \<in> {ImportAgentsRoute, ImportObservationsRoute}"
    using serve_other [of rq ph fts sv now d] assms(2,3) by fastforce
  let ?rq = "\<lparr>rq_path = hr_path rq, rq_authorization = hr_authorization rq, rq_body = hr_body rq\<rparr>"
  obtain h l where c: "admin_chain (sv_admin_auth sv) (admin_handler ph sv r) ?rq d = (h, l)"
    by (cases "admin_chain (sv_admin_auth sv) (admin_handler ph sv r) ?rq d") auto
  have "serve ph fts sv now rq d = (AdminAnswer (h_response h), h_store h, Some (AuditLine l))"
    unfolding serve_admin [OF r] c by simp
  then have out: "ans = AdminAnswer (h_response h)" "d' = h_store h" "line = Some (AuditLine l)"
    using assms(2) by simp_all
  from admin_chain_cases [OF assms(1) c [unfolded admin_handler_Inl]] assms(3) out(2)
  obtain b where b: "h = (if r = ImportAgentsRoute then import_agents_handler sqlite_port b d
      else import_observations_handler ph sqlite_port (get_signal (sv_registry sv)) b d)"
    and key: "ac_require_key cfg \<longrightarrow> hr_authorization rq = ''Bearer '' @ ac_key cfg" by auto
  have s: "rs_status (h_response h) = 200" using handler_keeps_store [OF b] assms(3) out(2) by simp
  have "al_status l = 200 \<and> al_outcome l = ''accepted''"
    using c s by (auto simp: admin_chain_def audit_def Let_def)
  with s key out route_admin [OF r] show ?thesis by simp
qed





section \<open>A concrete import\<close>

text \<open>The hydrator's body for one event, sent with the admin key to a server with an empty store.\<close>

definition example_body :: string where
  "example_body = marshal (agents_json [project_agent example_event])"

definition example_import :: http_request where
  "example_import =
     \<lparr>hr_method = ''POST'', hr_path = agents_path, hr_query = [], hr_authorization = bearer ''secret'',
      hr_body = Body example_body\<rparr>"

definition example_server :: "db middleware \<Rightarrow> server" where
  "example_server auth =
     \<lparr>sv_db = empty_db, sv_registry = new_registry, sv_profiles = [example_profile],
      sv_thresholds = default_thresholds, sv_admin_auth = auth\<rparr>"

definition no_fts :: "nat fts_engine" where
  "no_fts = (\<lambda>text rows. None)"

definition example_stored :: agent where
  "example_stored =
     \<lparr>a_id = ''a'', a_dns_name = ''ans://v1.h'', a_display_name = ''n'', a_description = [], a_provider = [],
      a_status = ''ACTIVE'', a_protocols = [], a_transports = [], a_tags = [], a_capabilities = [],
      a_first_seen = the (parse_rfc3339 ''2025-01-01T00:00:00Z''),
      a_last_updated = the (parse_rfc3339 ''2025-01-01T00:00:00Z'')\<rparr>"

lemma example_wire:
  "project_agent example_event =
     \<lparr>aw_id = ''a'', aw_dns_name = ''ans://v1.h'', aw_display_name = ''n'', aw_description = [],
      aw_provider = [], aw_status = ''ACTIVE'', aw_protocols = [], aw_transports = [], aw_tags = [],
      aw_capabilities = [], aw_first_seen = ''2025-01-01T00:00:00Z'', aw_last_updated = ''2025-01-01T00:00:00Z''\<rparr>"
  by (simp add: project_agent_def example_event_def merge_dedupe_def)

lemma example_body_small: "length example_body \<le> 10000"
  unfolding example_body_def example_wire by code_simp

lemma example_time: "\<exists>t. parse_rfc3339 ''2025-01-01T00:00:00Z'' = Some t \<and> four_digit_year t"
proof -
  have "parse_rfc3339 ''2025-01-01T00:00:00Z'' = Some 1735689600000000000" by code_simp
  moreover have "four_digit_year 1735689600000000000" by code_simp
  ultimately show ?thesis by blast
qed

lemma example_decoded:
  "try_bind (decode_body agents_request [] example_body) agents_to_domain = Inr [example_stored]"
proof -
  let ?w = "project_agent example_event"
  note w = example_wire
  have "agent_wire_valid ?w" unfolding w by (simp add: agent_wire_valid_def ascii_valid)
  then have "decode_body agents_request [] example_body = Inr [agent_dto_of ?w]"
    using decode_agents_body [of "[?w]"] by (simp add: example_body_def)
  moreover have "status_valid ''ACTIVE''" by code_simp
  then have "agent_to_domain (agent_dto_of ?w) = Inr example_stored"
    using example_time unfolding w
    by (auto simp: agent_to_domain_def agent_dto_of_def check_str_len_def check_string_slice_def byte_len_def
        cap_defs parse_required_time_def example_stored_def)
  ultimately show ?thesis by (simp add: agents_to_domain_def)
qed


lemma example_upserted: "\<exists>d'. upsert_agents [example_stored] empty_db = (d', None) \<and> d' \<noteq> empty_db"
proof -
  have "status_valid ''ACTIVE''" by code_simp
  then have "upsert_agent example_stored empty_db
      = Inr (empty_db\<lparr>db_agents := [row_of_agent example_stored], db_fts := [fts_of (row_of_agent example_stored)]\<rparr>)"
    by (simp add: upsert_agent_def upsert_row_def row_of_agent_def example_stored_def empty_db_def)
  then show ?thesis by (auto simp: upsert_agents_def in_transaction_def empty_db_def)
qed

lemma example_served:
  assumes "new_admin_auth \<lparr>ac_require_key = True, ac_key = ''secret''\<rparr> = Inr auth"
  shows "\<exists>ans d' line. serve ph no_fts (example_server auth) now example_import empty_db = (ans, d', line)
    \<and> answer_status ans = 200 \<and> d' \<noteq> empty_db"
proof -
  have route: "match_route (hr_method example_import) (hr_path example_import) = Route ImportAgentsRoute"
    by (simp add: example_import_def agents_path_def) code_simp
  obtain d' where d': "upsert_agents [example_stored] empty_db = (d', None)" "d' \<noteq> empty_db"
    using example_upserted by blast
  have h: "import_agents_handler sqlite_port example_body empty_db = acknowledge [example_stored] d'"
    using example_decoded d'(1) by (simp add: import_agents_handler_def import_agents_def sqlite_port_def)
  have auth: "auth (bearer ''secret'') next d = next d" for "next" :: "db handler" and d
    using assms by (auto simp: new_admin_auth_def bearer_def split: if_splits)
  have small: "\<not> length example_body > max_admin_body_bytes"
    using example_body_small by (simp add: max_admin_body_bytes_def)
  have "serve ph no_fts (example_server auth) now example_import empty_db
      = (case admin_chain auth (admin_handler ph (example_server auth) ImportAgentsRoute)
             \<lparr>rq_path = agents_path, rq_authorization = bearer ''secret'', rq_body = Body example_body\<rparr> empty_db of
        (h, line) \<Rightarrow> (AdminAnswer (h_response h), h_store h, Some (AuditLine line)))"
    using serve_admin [OF route, of ph no_fts "example_server auth" now empty_db]
    by (simp add: example_import_def example_server_def)
  then have "fst (serve ph no_fts (example_server auth) now example_import empty_db) = AdminAnswer (write_json 200 \<lparr>ack_imported = 1\<rparr>)
      \<and> fst (snd (serve ph no_fts (example_server auth) now example_import empty_db)) = d'"
    using small h auth
    by (simp add: admin_chain_def audit_def Let_def recoverer_def admin_handler_def acknowledge_def)
  then show ?thesis
    using d'(2) by (cases "serve ph no_fts (example_server auth) now example_import empty_db") (auto simp: write_json_def)
qed


lemma example_auth: "\<exists>auth. new_admin_auth \<lparr>ac_require_key = True, ac_key = ''secret''\<rparr> = Inr auth"
  by (simp add: new_admin_auth_def)

theorem writes_need_key_witness:
  "\<exists>auth ans d' line. new_admin_auth \<lparr>ac_require_key = True, ac_key = ''secret''\<rparr> = Inr auth
     \<and> serve (\<lambda>h. Some h) no_fts (example_server auth) 0 example_import empty_db = (ans, d', line) \<and> d' \<noteq> empty_db
     \<and> hr_authorization example_import = ''Bearer secret'' \<and> answer_status ans = 200"
proof -
  obtain auth :: "db middleware" where a: "new_admin_auth \<lparr>ac_require_key = True, ac_key = ''secret''\<rparr> = Inr auth"
    using example_auth by blast
  obtain ans d' line where s: "serve (\<lambda>h. Some h) no_fts (example_server auth) 0 example_import empty_db = (ans, d', line)"
      "d' \<noteq> empty_db"
    using example_served [OF a] by blast
  have "hr_authorization example_import = ''Bearer secret'' \<and> answer_status ans = 200"
    using writes_need_key [of _ "example_server auth", OF _ s] a by (simp add: example_server_def)
  with a s show ?thesis by blast
qed


end
