(* ===== verification/Spec2Isabelle.thy ===== *)
theory Spec2Isabelle
  imports AtdClientFacts TlClientFacts RouterFacts
begin

text \<open>
  Verification of the agent-trust-discovery reference implementation (Go, \<open>src/\<close>).

  \<^bold>\<open>The program.\<close>  A server keeps agents and signal observations in SQLite and answers two kinds of
  requests: admin imports (agents, observations) and public reads (search, detail with a trust
  evaluation).  A scoring engine turns the latest observation of every registered signal into a
  trust vector, a classification and risk factors under a profile of weights.  Separate producers
  feed the server: \<open>agent-ra-sync\<close> and \<open>agent-snapshot\<close> write transparency-log events as YAML
  fixtures, the hydrator and the prober read the fixtures and post agents and observations to the
  import API.

  \<^bold>\<open>Ground floor.\<close>  \<open>Prelude\<close>: fallible functions as sums (\<open>Inl\<close> the error), the batch loop that
  stops at the first error, error messages as lists of the parts of the format string (which parts
  appear in which order; not how a part is rendered).  \<open>GoFloat\<close>: binary64 with correct rounding,
  infinities and NaN; where Go leaves \<open>int(x)\<close> to the implementation, the value is that of
  amd64.  \<open>GoJson\<close>, \<open>GoJsonRaw\<close>, \<open>RawFacts\<close>: UTF-8 and the part of \<open>encoding/json\<close> the
  program uses, with the round trips for values and for raw messages.  \<open>GoTime\<close>: RFC 3339 and the
  civil calendar.  \<open>GoUrl\<close>, \<open>GoText\<close>: what is read of \<open>net/url\<close>, base64, query strings,
  \<open>strings.Fields\<close>.

  \<^bold>\<open>Scoring.\<close>  \<open>TrustDomain\<close> (\<open>internal/domain\<close>, \<open>internal/port\<close>), \<open>Signals\<close> and \<open>ScoreContainer\<close>
  (\<open>internal/scoring/signals\<close>), \<open>Registry\<close>, \<open>Classify\<close>, \<open>WeightedAverage\<close>, \<open>Engine\<close>, \<open>Profiles\<close>
  (\<open>internal/scoring\<close>).  The interface between signals and their users is the locale of
  \<open>SignalContract\<close>; \<open>SignalFacts\<close> and \<open>ScoreContainer\<close> interpret it on the built-in signals and on the
  configured ones, \<open>EngineFacts\<close> draws the consequences: bounds of all scores, the weighted average as
  rounded integer division, caps, signals that change nothing, evaluations that never degrade.

  \<^bold>\<open>Storage and import.\<close>  \<open>Store\<close> (\<open>internal/adapter/sqlitestore\<close>): the tables as lists of rows with
  the uniqueness, foreign-key and check constraints of the migrations, transactions that roll back,
  timestamps cut to seconds as \<open>formatTime\<close> does, pruning, migrations.  \<open>StoreFacts\<close>, \<open>StoreLatest\<close>:
  reachable tables, replay, the refinement of \<open>LatestObservation\<close> by an abstract log, pruning.
  \<open>Web\<close> (\<open>internal/web\<close>), \<open>ImportDto\<close>, \<open>ImportSvc\<close> (\<open>internal/importsvc\<close>) and \<open>ImportFacts\<close>: decoding,
  checks, the two handlers and the admin key, over a locale for the store that is interpreted on
  \<open>Store\<close>.

  \<^bold>\<open>Reads.\<close>  \<open>SearchIndex\<close> and \<open>SearchFacts\<close> (\<open>sqlitestore/index.go\<close>): filters, the full-text query and
  the page tokens; the SQL text is the selection it expresses, with \<open>LIKE\<close> as SQLite evaluates it (texts
  end at a NUL byte, a pattern of more than 50000 bytes is an error).  \<open>SearchSvc\<close>, \<open>SearchSvcFacts\<close>
  (\<open>internal/search\<close>): parameters, bodies, links, DTOs, and what a client that follows the next
  links collects.

  \<^bold>\<open>The server.\<close>  \<open>Config\<close> (\<open>internal/config\<close>), \<open>Server\<close> (\<open>internal/server\<close>: middleware, audit, boot),
  \<open>Router\<close> and \<open>RouterFacts\<close>: one request as a function from the store to the answer, the store
  afterwards and the log line; only an authenticated import writes, and an import is what the detail
  route answers.

  \<^bold>\<open>Producers.\<close>  \<open>TlEvent\<close> (\<open>internal/tlevent\<close>), \<open>RaSync\<close>, \<open>RaClient\<close>, \<open>RaSyncFacts\<close>
  (\<open>internal/raclient\<close>, \<open>internal/rasync\<close>), \<open>TlClient\<close>, \<open>TlClientFacts\<close> (\<open>internal/tlclient\<close>), \<open>AtdClient\<close>,
  \<open>Snapshot\<close>, \<open>AtdClientFacts\<close> (\<open>internal/atdclient\<close>, \<open>internal/snapshot\<close>), \<open>Hydrator\<close>, \<open>Prober\<close>,
  \<open>ProducerFacts\<close> (\<open>internal/hydrator\<close>, \<open>internal/prober\<close>).  The facts connect them to each other and
  to the server: the fixtures a snapshot leaves load, the bodies the producers marshal decode to the
  values they were made from, a probe pass passes the import and its verdicts score as intended.

  \<^bold>\<open>Bounds and fuel.\<close>  The program's own caps are definitions: \<open>max_feed_pages\<close> (10000 pages of the
  feed), \<open>max_pages_walk\<close> (1000 pages of a search walk), \<open>max_page\<close> (100000), \<open>clamp_size\<close> (1..100 rows),
  \<open>max_admin_body_bytes\<close>, \<open>max_nesting\<close> (10000 levels of JSON).  They are the only fuel inside a model;
  the code stops with an error where the models do.  \<open>crawl\<close> and \<open>browse\<close>, which follow next
  links, are clients in the facts, not code: \<open>browse_selected\<close> shows that more steps than there are
  agents suffice.

  \<^bold>\<open>Arguments of the models.\<close>  The YAML decoders and encoder, the file system, HTTP exchanges, the host
  syntax of \<open>net/url\<close> and the writing of a resolved URL, the ranking of FTS5, the live probes, the
  iteration order of Go maps (where it is observable) and the random bytes of request ids.  What is
  assumed of them is a hypothesis of the theorem that needs it (for instance that reading a written
  fixture gives the event back).  Agents and observations read back only if their UTC years have four
  digits and their texts are UTF-8 (\<open>storable_agent\<close>, \<open>storable_observation\<close>); the import accepts
  others, and \<open>far_future_unreadable\<close> shows what they lead to.

  \<^bold>\<open>Not modelled.\<close>  The commands under \<open>cmd/\<close> (flags, signals, tickers, the sockets and resolvers
  behind the live probes), log lines other than the audit and request lines, durations in them, SQL
  parsing, concurrent requests (each request is one step on the store, which SQLite serialises),
  failures to create, list or clear an output directory, and the checksums and policies of the
  certificates that a live probe reads.
\<close>

end
